(* ===== verification/Prelude.thy ===== *)
theory Prelude
  imports Main "HOL-Library.Word"
begin

text \<open>
  Shared by every component: the result type of a piece of C code, the combinators that
  sequence such pieces, the weakest-precondition calculus their proofs use, the event loop,
  and the fact collections.

  A piece of code is a function from a state to either a fault or a value and the next state.
  A fault is what the C standard calls undefined behaviour (a null or dead pointer, an access
  outside an object) or, for a loop that may run for ever, the exhaustion of the fuel it was
  given. Error returns of the code are ordinary values, never faults.
\<close>

section \<open>Programs that may fault\<close>

datatype fault = NullPointer | OutOfBounds | DeadPointer | OutOfFuel

type_synonym ('s, 'a) prog = "'s \<Rightarrow> fault + ('a \<times> 's)"

definition ret :: "'a \<Rightarrow> ('s, 'a) prog" where
  "ret x = (\<lambda>s. Inr (x, s))"

definition fail :: "fault \<Rightarrow> ('s, 'a) prog" where
  "fail f = (\<lambda>s. Inl f)"

definition bnd :: "('s, 'a) prog \<Rightarrow> ('a \<Rightarrow> ('s, 'b) prog) \<Rightarrow> ('s, 'b) prog" where
  "bnd m k = (\<lambda>s. case m s of Inl f \<Rightarrow> Inl f | Inr (x, t) \<Rightarrow> k x t)"

definition gets :: "('s \<Rightarrow> 'a) \<Rightarrow> ('s, 'a) prog" where
  "gets g = (\<lambda>s. Inr (g s, s))"

definition modify :: "('s \<Rightarrow> 's) \<Rightarrow> ('s, unit) prog" where
  "modify g = (\<lambda>s. Inr ((), g s))"

definition only_if :: "bool \<Rightarrow> ('s, unit) prog \<Rightarrow> ('s, unit) prog" where
  "only_if b m = (if b then m else ret ())"

named_theorems run_simps "equations that run a program on a state"

lemma ret_run [run_simps]: "ret x s = Inr (x, s)"
  by (simp add: ret_def)

lemma fail_run [run_simps]: "fail f s = Inl f"
  by (simp add: fail_def)

lemma gets_run [run_simps]: "gets g s = Inr (g s, s)"
  by (simp add: gets_def)

lemma modify_run [run_simps]: "modify g s = Inr ((), g s)"
  by (simp add: modify_def)

lemma bnd_run [run_simps]: "bnd m k s = (case m s of Inl f \<Rightarrow> Inl f | Inr (x, t) \<Rightarrow> k x t)"
  by (simp add: bnd_def)

lemma bnd_assoc: "bnd (bnd m k) l = bnd m (\<lambda>x. bnd (k x) l)"
  by (rule ext) (simp add: bnd_def split: sum.split)

lemma only_if_simps [simp]: "only_if True m = m" "only_if False m = ret ()"
  by (simp_all add: only_if_def)

section \<open>Weakest preconditions\<close>

text \<open>
  \<open>wp m Q E s\<close>: run from \<open>s\<close>, the program \<open>m\<close> either returns a value and a state that
  satisfy \<open>Q\<close>, or faults in a way that \<open>E\<close> admits. With \<open>E = (\<lambda>_. False)\<close> it excludes
  every fault. All rules are equations, so the simplifier computes the precondition.
\<close>

definition wp :: "('s, 'a) prog \<Rightarrow> ('a \<Rightarrow> 's \<Rightarrow> bool) \<Rightarrow> (fault \<Rightarrow> bool) \<Rightarrow> 's \<Rightarrow> bool" where
  "wp m Q E s = (case m s of Inl f \<Rightarrow> E f | Inr (x, t) \<Rightarrow> Q x t)"

abbreviation no_fault :: "fault \<Rightarrow> bool" where
  "no_fault \<equiv> (\<lambda>_. False)"

named_theorems wp_simps "equations that compute weakest preconditions"

lemma wp_ret [wp_simps]: "wp (ret x) Q E = Q x"
  by (rule ext) (simp add: wp_def run_simps)

lemma wp_fail [wp_simps]: "wp (fail f) Q E s = E f"
  by (simp add: wp_def run_simps)

lemma wp_gets [wp_simps]: "wp (gets g) Q E s = Q (g s) s"
  by (simp add: wp_def run_simps)

lemma wp_modify [wp_simps]: "wp (modify g) Q E s = Q () (g s)"
  by (simp add: wp_def run_simps)

lemma wp_bnd [wp_simps]: "wp (bnd m k) Q E s = wp m (\<lambda>x. wp (k x) Q E) E s"
  by (simp add: wp_def bnd_def split: sum.split)

lemma wp_if [wp_simps]:
  "wp (if b then m else n) Q E s = (if b then wp m Q E s else wp n Q E s)"
  by simp

lemma wp_only_if [wp_simps]: "wp (only_if b m) Q E s = (if b then wp m Q E s else Q () s)"
  by (simp add: only_if_def wp_simps)

lemma wp_let [wp_simps]: "wp (let x = a in m x) Q E s = (let x = a in wp (m x) Q E s)"
  by simp

lemma wp_case_prod [wp_simps]:
  "wp (case p of (a, b) \<Rightarrow> m a b) Q E s = (case p of (a, b) \<Rightarrow> wp (m a b) Q E s)"
  by (simp split: prod.split)

lemma wp_case_option [wp_simps]:
  "wp (case x of None \<Rightarrow> m | Some a \<Rightarrow> n a) Q E s =
     (case x of None \<Rightarrow> wp m Q E s | Some a \<Rightarrow> wp (n a) Q E s)"
  by (simp split: option.split)

lemma wp_mono:
  assumes "wp m Q E s"
    and "\<And>x t. Q x t \<Longrightarrow> Q' x t"
    and "\<And>f. E f \<Longrightarrow> E' f"
  shows "wp m Q' E' s"
  using assms by (simp add: wp_def split: sum.splits prod.splits)

lemma wp_seq: "wp (bnd m k) Q F = wp m (\<lambda>x. wp (k x) Q F) F"
  by (rule ext) (simp add: wp_bnd)

lemma wp_then:
  assumes "wp m P F s" "\<And>x t. P x t \<Longrightarrow> Q x t"
  shows "wp m Q F s"
  using assms by (rule wp_mono)

lemma wp_ifI: "(b \<Longrightarrow> wp m Q F s) \<Longrightarrow> (\<not> b \<Longrightarrow> wp n Q F s) \<Longrightarrow> wp (if b then m else n) Q F s"
  by simp

lemma wp_only_ifI: "(b \<Longrightarrow> wp m Q F s) \<Longrightarrow> (\<not> b \<Longrightarrow> Q () s) \<Longrightarrow> wp (only_if b m) Q F s"
  by (simp add: wp_only_if)

lemma wp_conj: "wp m Q E s \<Longrightarrow> wp m Q' E s \<Longrightarrow> wp m (\<lambda>x t. Q x t \<and> Q' x t) E s"
  by (simp add: wp_def split: sum.splits prod.splits)

lemma wp_runs: "wp m Q no_fault s \<Longrightarrow> \<exists>x t. m s = Inr (x, t) \<and> Q x t"
  by (simp add: wp_def split: sum.splits prod.splits)

lemma wp_InrD: "wp m Q E s \<Longrightarrow> m s = Inr (x, t) \<Longrightarrow> Q x t"
  by (simp add: wp_def)

lemma wp_InlD: "wp m Q E s \<Longrightarrow> m s = Inl f \<Longrightarrow> E f"
  by (simp add: wp_def)

lemma wp_of_run: "m s = Inr (x, t) \<Longrightarrow> wp m Q E s = Q x t"
  by (simp add: wp_def)

section \<open>Event loops\<close>

text \<open>
  \<open>while (1) { body }\<close>: the body returns whether to go round again. The loop of the code has
  no bound, so the model takes fuel, one unit for each iteration; running out of it is the
  fault \<open>OutOfFuel\<close>, which stands for an execution that is still going on.
\<close>

fun forever :: "nat \<Rightarrow> ('s, bool) prog \<Rightarrow> ('s, unit) prog" where
  "forever 0 body = fail OutOfFuel"
| "forever (Suc n) body = bnd body (\<lambda>again. if again then forever n body else ret ())"

text \<open>
  The contract of a loop body: an invariant it keeps whether it goes round again or leaves,
  and what holds when it leaves. The fault predicate says which faults the body may raise.
\<close>

locale loop_body =
  fixes body :: "('s, bool) prog"
    and inv :: "'s \<Rightarrow> bool"
    and post :: "'s \<Rightarrow> bool"
    and flt :: "fault \<Rightarrow> bool"
  assumes body_inv: "inv s \<Longrightarrow> wp body (\<lambda>again t. if again then inv t else post t) flt s"
begin

lemma forever_partial: "inv s \<Longrightarrow> wp (forever n body) (\<lambda>_ t. post t) (\<lambda>f. flt f \<or> f = OutOfFuel) s"
proof (induction n arbitrary: s)
  case 0
  then show ?case by (simp add: wp_simps)
next
  case (Suc n)
  have "wp body (\<lambda>again t. if again then inv t else post t) (\<lambda>f. flt f \<or> f = OutOfFuel) s"
    using body_inv [OF Suc.prems] by (rule wp_mono) auto
  then have "wp body (\<lambda>again. wp (if again then forever n body else ret ())
      (\<lambda>_ t. post t) (\<lambda>f. flt f \<or> f = OutOfFuel)) (\<lambda>f. flt f \<or> f = OutOfFuel) s"
    by (rule wp_mono) (auto simp: wp_simps Suc.IH split: if_splits)
  then show ?case by (simp add: wp_simps)
qed

end

text \<open>A body whose variant drops each time it goes round leaves the loop within that fuel.\<close>

locale loop_variant = loop_body +
  fixes var :: "'s \<Rightarrow> nat"
  assumes body_var: "inv s \<Longrightarrow> wp body (\<lambda>again t. again \<longrightarrow> var t < var s) flt s"
begin

lemma forever_total: "inv s \<Longrightarrow> var s < n \<Longrightarrow> wp (forever n body) (\<lambda>_ t. post t) flt s"
proof (induction n arbitrary: s)
  case 0
  then show ?case by simp
next
  case (Suc n)
  have "wp body (\<lambda>again t. (if again then inv t else post t) \<and> (again \<longrightarrow> var t < var s)) flt s"
    by (intro wp_conj body_inv body_var Suc.prems)
  then have "wp body (\<lambda>again. wp (if again then forever n body else ret ()) (\<lambda>_ t. post t) flt) flt s"
    using Suc.prems by (elim wp_mono) (auto simp: wp_simps intro!: Suc.IH)
  then show ?case by (simp add: wp_simps)
qed

end

end
