(* ===== verification/CString.thy ===== *)
theory CString
  imports Prelude
begin

text \<open>
  The parts of the C standard library the client uses on characters: bytes are of type
  \<open>char\<close>, a character array is a list of its bytes, and a C string inside an array is what
  stands before the first NUL. Every access is checked against the length of the array, and
  an access outside it is the fault \<open>OutOfBounds\<close>.
\<close>

section \<open>NUL-terminated strings in arrays\<close>

definition NUL :: char where
  "NUL = CHR 0x00"

definition nul_free :: "string \<Rightarrow> bool" where
  "nul_free s \<longleftrightarrow> NUL \<notin> set s"

definition has_cstr :: "string \<Rightarrow> nat \<Rightarrow> bool" where
  "has_cstr buf k \<longleftrightarrow> NUL \<in> set (drop k buf)"

text \<open>The string that starts at offset \<open>k\<close> of an array; reading past its end is a fault.\<close>

definition cstr_at :: "string \<Rightarrow> nat \<Rightarrow> ('s, string) prog" where
  "cstr_at buf k =
     (if has_cstr buf k then ret (takeWhile (\<lambda>c. c \<noteq> NUL) (drop k buf)) else fail OutOfBounds)"

text \<open>The C string that some bytes form: what stands before the first NUL.\<close>

definition cs :: "string \<Rightarrow> string" where
  "cs s = takeWhile (\<lambda>c. c \<noteq> NUL) s"

text \<open>\<open>buf[i] = c\<close> with an \<open>int\<close> index.\<close>

definition poke :: "string \<Rightarrow> int \<Rightarrow> char \<Rightarrow> ('s, string) prog" where
  "poke buf i c = (if 0 \<le> i \<and> nat i < length buf then ret (buf[nat i := c]) else fail OutOfBounds)"

text \<open>Reading \<open>n\<close> bytes from the start of an array.\<close>

definition read_bytes :: "string \<Rightarrow> nat \<Rightarrow> ('s, string) prog" where
  "read_bytes buf n = (if n \<le> length buf then ret (take n buf) else fail OutOfBounds)"

text \<open>Writing the bytes \<open>s\<close> at offset \<open>k\<close>.\<close>

definition write_at :: "string \<Rightarrow> nat \<Rightarrow> string \<Rightarrow> ('s, string) prog" where
  "write_at buf k s =
     (if k + length s \<le> length buf then ret (take k buf @ s @ drop (k + length s) buf)
      else fail OutOfBounds)"

text \<open>
  \<open>snprintf(buf + k, size, ...)\<close> where the formatted text is \<open>txt\<close>: at most \<open>size - 1\<close> bytes
  and a NUL are written, the length of the whole text is returned. Forming the pointer
  \<open>buf + k\<close> is only defined up to one past the end of the array.
\<close>

definition snprintf_at :: "string \<Rightarrow> nat \<Rightarrow> nat \<Rightarrow> string \<Rightarrow> ('s, string \<times> int) prog" where
  "snprintf_at buf k sz txt =
     (if length buf < k then fail OutOfBounds
      else if sz = 0 then ret (buf, int (length txt))
      else bnd (write_at buf k (take (sz - 1) txt @ [NUL])) (\<lambda>b. ret (b, int (length txt))))"

text \<open>\<open>strncpy(dst, src, n)\<close>: copies at most \<open>n\<close> bytes and pads with NULs.\<close>

definition strncpy :: "string \<Rightarrow> string \<Rightarrow> nat \<Rightarrow> ('s, string) prog" where
  "strncpy dst src n = write_at dst 0 (take n src @ replicate (n - length src) NUL)"

text \<open>\<open>strncmp(a, b, n) == 0\<close> on strings without their terminators.\<close>

definition strncmp_eq :: "string \<Rightarrow> string \<Rightarrow> nat \<Rightarrow> bool" where
  "strncmp_eq a b n \<longleftrightarrow> take n a = take n b"

definition strcspn :: "string \<Rightarrow> string \<Rightarrow> nat" where
  "strcspn s reject = length (takeWhile (\<lambda>c. c \<notin> set reject) s)"

text \<open>
  \<open>strtok(s, " ")\<close> followed by \<open>strtok(NULL, "")\<close>: the first token after leading blanks, and
  what follows the blank that ends it. \<open>None\<close> stands for the null pointer.
\<close>

definition strtok_first :: "string \<Rightarrow> (string \<times> string) option" where
  "strtok_first s =
     (let t = dropWhile (\<lambda>c. c = CHR '' '') s
      in if t = [] then None
         else Some (takeWhile (\<lambda>c. c \<noteq> CHR '' '') t, tl (dropWhile (\<lambda>c. c \<noteq> CHR '' '') t)))"

definition strtok_rest :: "string \<Rightarrow> string option" where
  "strtok_rest s = (if s = [] then None else Some s)"

definition split_token :: "string \<Rightarrow> string option \<times> string option" where
  "split_token s =
     (case strtok_first s of None \<Rightarrow> (None, None) | Some (t, r) \<Rightarrow> (Some t, strtok_rest r))"

section \<open>Number formatting\<close>

definition digit_char :: "nat \<Rightarrow> char" where
  "digit_char d = char_of (48 + d)"

fun show_nat :: "nat \<Rightarrow> string" where
  "show_nat n = (if n < 10 then [digit_char n] else show_nat (n div 10) @ [digit_char (n mod 10)])"

declare show_nat.simps [simp del]

definition show_int :: "int \<Rightarrow> string" where
  "show_int i = (if i < 0 then CHR ''-'' # show_nat (nat (- i)) else show_nat (nat i))"

definition pad_right :: "nat \<Rightarrow> string \<Rightarrow> string" where
  "pad_right n s = s @ replicate (n - length s) CHR '' ''"

section \<open>Facts\<close>

lemma nul_free_simps [simp]:
  "nul_free []"
  "nul_free (c # s) \<longleftrightarrow> c \<noteq> NUL \<and> nul_free s"
  "nul_free (s @ t) \<longleftrightarrow> nul_free s \<and> nul_free t"
  by (auto simp: nul_free_def)

lemma nul_free_take [simp]: "nul_free s \<Longrightarrow> nul_free (take n s)"
  unfolding nul_free_def by (meson in_set_takeD)

lemma nul_free_drop [simp]: "nul_free s \<Longrightarrow> nul_free (drop n s)"
  unfolding nul_free_def by (meson in_set_dropD)

lemma nul_free_dropWhile [simp]: "nul_free s \<Longrightarrow> nul_free (dropWhile P s)"
  unfolding nul_free_def by (meson set_dropWhileD)

lemma nul_free_takeWhile_NUL [simp]: "nul_free (takeWhile (\<lambda>c. c \<noteq> NUL) s)"
  by (auto simp: nul_free_def dest: set_takeWhileD)

lemma takeWhile_NUL [simp]:
  "nul_free s \<Longrightarrow> takeWhile (\<lambda>c. c \<noteq> NUL) (s @ NUL # r) = s"
  by (induction s) auto

lemma has_cstr_append: "has_cstr (s @ NUL # r) k" if "k \<le> length s"
  using that by (simp add: has_cstr_def)

lemma cstr_at_append:
  assumes "nul_free s" and "k \<le> length s"
  shows "cstr_at (s @ NUL # r) k = ret (drop k s)"
proof -
  have "drop k (s @ NUL # r) = drop k s @ NUL # r"
    using assms(2) by simp
  then show ?thesis
    using assms by (simp add: cstr_at_def has_cstr_append)
qed

lemma wp_cstr_at [wp_simps]:
  "wp (cstr_at b k) Q E s =
     (if has_cstr b k then Q (takeWhile (\<lambda>c. c \<noteq> NUL) (drop k b)) s else E OutOfBounds)"
  by (simp add: cstr_at_def wp_simps)

lemma wp_poke [wp_simps]:
  "wp (poke b i c) Q E s =
     (if 0 \<le> i \<and> nat i < length b then Q (b[nat i := c]) s else E OutOfBounds)"
  by (simp add: poke_def wp_simps)

lemma wp_read_bytes [wp_simps]:
  "wp (read_bytes b n) Q E s = (if n \<le> length b then Q (take n b) s else E OutOfBounds)"
  by (simp add: read_bytes_def wp_simps)

lemma wp_write_at [wp_simps]:
  "wp (write_at b k t) Q E s =
     (if k + length t \<le> length b then Q (take k b @ t @ drop (k + length t) b) s
      else E OutOfBounds)"
  by (simp add: write_at_def wp_simps)

lemma wp_strncpy [wp_simps]:
  "wp (strncpy d src n) Q E s =
     (if n \<le> length d then Q (take n src @ replicate (n - length src) NUL @ drop n d) s
      else E OutOfBounds)"
  by (cases "n \<le> length src") (simp_all add: strncpy_def wp_simps)

text \<open>\<open>snprintf\<close> into a whole array never faults and leaves the truncated text in it.\<close>

lemma snprintf_whole:
  assumes "0 < length buf"
  shows "snprintf_at buf 0 (length buf) txt =
     ret (take (length buf - 1) txt @ NUL # drop (Suc (min (length txt) (length buf - 1))) buf,
          int (length txt))"
proof -
  have "Suc (min (length txt) (length buf - 1)) \<le> length buf"
    using assms by (cases buf) auto
  with assms show ?thesis
    by (intro ext) (simp add: snprintf_at_def write_at_def run_simps)
qed

lemma cs_nul_free [simp]: "nul_free (cs s)"
  by (simp add: cs_def)

lemma cs_id: "nul_free s \<Longrightarrow> cs s = s"
  by (auto simp: cs_def nul_free_def takeWhile_eq_all_conv)

lemma cs_cs [simp]: "cs (cs s) = cs s"
  by (simp add: cs_id)

lemma cs_terminated [simp]: "cs (s @ NUL # r) = cs s"
  by (induction s) (auto simp: cs_def)

lemma cs_append: "nul_free s \<Longrightarrow> cs (s @ t) = s @ cs t"
  by (induction s) (auto simp: cs_def)

lemma cs_length: "length (cs s) \<le> length s"
  by (simp add: cs_def length_takeWhile_le)

lemma take_length_cs [simp]: "take (length (cs s)) s = cs s"
  by (simp add: cs_def takeWhile_eq_take [symmetric])

lemma take_length_cs_terminated [simp]: "take (length (cs s)) (s @ r) = cs s"
  by (simp add: cs_length)

text \<open>What a string formatted into an array of \<open>n\<close> bytes reads back as.\<close>

lemma wp_snprintf_whole:
  assumes "length buf = n" and "0 < n"
    and "\<And>b. length b = n \<Longrightarrow> has_cstr b 0 \<Longrightarrow> cs b = cs (take (n - 1) txt) \<Longrightarrow> Q (b, int (length txt)) s"
  shows "wp (snprintf_at buf 0 n txt) Q E s"
proof -
  let ?b = "take (n - 1) txt @ NUL # drop (Suc (min (length txt) (n - 1))) buf"
  have "length ?b = n" using assms(1,2) by (cases n) (auto simp: min_def)
  then have "Q (?b, int (length txt)) s"
    using assms(3) by (simp add: has_cstr_def)
  moreover have "snprintf_at buf 0 n txt s = ret (?b, int (length txt)) s"
    using assms(2) by (simp add: snprintf_whole [of buf "txt", unfolded assms(1)])
  ultimately show ?thesis
    by (simp add: wp_def run_simps)
qed

lemma wp_cstr_whole:
  "has_cstr b 0 \<Longrightarrow> wp (cstr_at b 0) Q E s = Q (cs b) s"
  by (simp add: wp_cstr_at cs_def)

lemma wp_pokeI:
  assumes "0 \<le> i \<Longrightarrow> nat i < length b \<Longrightarrow> Q (b[nat i := c]) s" "\<not> (0 \<le> i \<and> nat i < length b) \<Longrightarrow> F OutOfBounds"
  shows "wp (poke b i c) Q F s"
  using assms by (auto simp: wp_poke)

lemma wp_cstr_wholeI: "has_cstr b 0 \<Longrightarrow> Q (cs b) s \<Longrightarrow> wp (cstr_at b 0) Q F s"
  by (simp add: wp_cstr_whole)

lemma terminated_in_place:
  assumes "length b = Suc n" "length m \<le> n"
  shows "(take n m @ drop (min (length m) n) b)[length m := NUL] = m @ NUL # drop (Suc (length m)) b"
proof -
  have "drop (length m) b = b ! length m # drop (Suc (length m)) b"
    using assms by (intro Cons_nth_drop_Suc [symmetric]) simp
  then show ?thesis using assms(2) by (simp add: min_absorb1 list_update_append)
qed

text \<open>The text behind a fixed beginning.\<close>

lemma cs_after_command:
  assumes "line = cmd @ room @ NUL # rest" "nul_free room" "length cmd = n"
  shows "cs (drop n line) = room" "has_cstr line n"
  using assms by (simp_all add: cs_id has_cstr_def)

lemma split_token_blank [simp]: "split_token [] = (None, None)"
  by (simp add: split_token_def strtok_first_def)

lemma split_token_word:
  assumes "w \<noteq> []" and "CHR '' '' \<notin> set w"
  shows "split_token (w @ CHR '' '' # r) = (Some w, if r = [] then None else Some r)"
proof -
  have h: "hd w \<noteq> CHR '' ''" using assms by (cases w) auto
  have "dropWhile (\<lambda>c. c = CHR '' '') (w @ CHR '' '' # r) = w @ CHR '' '' # r"
    using assms(1) h by (cases w) auto
  moreover have "takeWhile (\<lambda>c. c \<noteq> CHR '' '') (w @ CHR '' '' # r) = w"
    using assms(2) by (induction w) auto
  moreover have "dropWhile (\<lambda>c. c \<noteq> CHR '' '') (w @ CHR '' '' # r) = CHR '' '' # r"
    using assms(2) by (induction w) auto
  ultimately show ?thesis
    by (simp add: split_token_def strtok_first_def strtok_rest_def)
qed

lemma split_token_lone_word:
  assumes "w \<noteq> []" and "CHR '' '' \<notin> set w"
  shows "split_token w = (Some w, None)"
proof -
  have "hd w \<noteq> CHR '' ''" using assms by (cases w) auto
  then have "dropWhile (\<lambda>c. c = CHR '' '') w = w"
    using assms(1) by (cases w) auto
  moreover have "takeWhile (\<lambda>c. c \<noteq> CHR '' '') w = w"
    using assms(2) by (auto simp: takeWhile_eq_all_conv)
  moreover have "dropWhile (\<lambda>c. c \<noteq> CHR '' '') w = []"
    using assms(2) by (auto simp: dropWhile_eq_Nil_conv)
  ultimately show ?thesis
    using assms(1)
    by (simp add: split_token_def strtok_first_def strtok_rest_def del: dropWhile_eq_Nil_conv)
qed

lemma show_nat_nonempty [simp]: "show_nat n \<noteq> []"
  by (subst show_nat.simps) simp

lemma pad_right_length [simp]: "length (pad_right n s) = max n (length s)"
  by (auto simp: pad_right_def max_def)

end
