(* ===== verification/Protocol.thy ===== *)
theory Protocol
  imports Main "HOL-Library.Word"
begin

text \<open>
  The messages of \<open>chat.proto\<close> as the generated C structures hold them: a record for each
  message, an enumeration for each enum (proto3 enums are open, so a decoder can deliver a
  number the file does not name), and the \<open>oneof\<close> of the envelope as a datatype. The
  \<open>_INIT\<close> values are those of the generated initialisers: empty strings and zeros.
\<close>

datatype status =
  STATUS_UNKNOWN | STATUS_OK | STATUS_ERROR | STATUS_UNAUTHORIZED | STATUS_OTHER int

datatype notification_type =
  NOTIF_UNKNOWN | NOTIF_USER_JOINED | NOTIF_USER_LEFT | NOTIF_SYSTEM_ALERT | NOTIF_OTHER int

record login_request =
  login_req_username :: string
  login_req_client_version :: string

record login_response =
  login_resp_status :: status
  login_resp_session_token :: string
  login_resp_error_message :: string

record logout_request =
  logout_req_username :: string

record heartbeat_ping =
  heartbeat_username :: string
  heartbeat_timestamp :: "64 word"

record join_room_request =
  join_req_room_name :: string
  join_req_username :: string

record leave_room_request =
  leave_req_room_name :: string
  leave_req_username :: string

record list_rooms_request =
  list_req_username :: string

record room_info =
  room_info_name :: string
  room_info_member_count :: "32 word"
  room_info_members :: "string list"

record list_rooms_response =
  list_resp_status :: status
  list_resp_rooms :: "room_info list"

record room_message =
  room_msg_room_name :: string
  room_msg_sender_username :: string
  room_msg_content :: string
  room_msg_timestamp :: "64 word"

record direct_message =
  direct_msg_recipient_username :: string
  direct_msg_sender_username :: string
  direct_msg_content :: string
  direct_msg_timestamp :: "64 word"

record system_notification =
  notif_type :: notification_type
  notif_room_name :: string
  notif_message :: string
  notif_timestamp :: "64 word"

record generic_ack =
  ack_status :: status
  ack_message :: string

datatype payload =
    PAYLOAD_NOT_SET
  | LOGIN_REQ login_request
  | LOGIN_RESP login_response
  | JOIN_ROOM_REQ join_room_request
  | LEAVE_ROOM_REQ leave_room_request
  | LIST_ROOMS_REQ list_rooms_request
  | LIST_ROOMS_RESP list_rooms_response
  | ROOM_MSG room_message
  | DIRECT_MSG direct_message
  | SYSTEM_NOTIF system_notification
  | ACK generic_ack
  | HEARTBEAT heartbeat_ping
  | LOGOUT_REQ logout_request

record envelope =
  message_id :: string
  payload :: payload

definition LIST_ROOMS_REQUEST_INIT :: list_rooms_request where
  "LIST_ROOMS_REQUEST_INIT = \<lparr>list_req_username = []\<rparr>"

definition ROOM_MESSAGE_INIT :: room_message where
  "ROOM_MESSAGE_INIT = \<lparr>room_msg_room_name = [], room_msg_sender_username = [],
     room_msg_content = [], room_msg_timestamp = 0\<rparr>"

definition DIRECT_MESSAGE_INIT :: direct_message where
  "DIRECT_MESSAGE_INIT = \<lparr>direct_msg_recipient_username = [], direct_msg_sender_username = [],
     direct_msg_content = [], direct_msg_timestamp = 0\<rparr>"

end
