(* ===== verification/Machine.thy ===== *)
theory Machine
  imports CString Protocol
begin

text \<open>
  What the client runs on. libzmq, the generated protobuf code, the terminal and the clock are
  not part of the program: they are the fields of the record \<open>ext\<close>, functions over an
  uninterpreted world \<open>'w\<close>, and every operation that calls them takes that record as a
  parameter. What the code relies on of them is stated by the predicates of the last section.
  The heap of \<open>malloc\<close> and \<open>free\<close> and the list of observable calls are part of the state.
\<close>

section \<open>Blocks, events, state\<close>

type_synonym ptr = "nat option"
type_synonym cflags = "32 word"

definition ZMQ_DONTWAIT :: cflags where "ZMQ_DONTWAIT = 1"
definition ZMQ_SNDMORE :: cflags where "ZMQ_SNDMORE = 2"

datatype socket_kind =
  socket_sub | socket_pub | socket_req | socket_rep | socket_pair | socket_push | socket_pull
  | socket_router | socket_dealer

datatype sockopt = ZMQ_LINGER | ZMQ_SUBSCRIBE | ZMQ_UNSUBSCRIBE | ZMQ_IDENTITY

datatype pollitem = PollSocket nat | PollFd int

text \<open>
  What a heap block holds: raw bytes of a size that nothing was stored in yet, a byte array, a
  socket structure with its libzmq handle, a message structure with its frame array and count,
  an array of frames (\<open>None\<close> where nothing was stored), an unpacked envelope, and the argument
  structures of the threads.
\<close>

datatype block =
    BRaw nat
  | BBytes string
  | BSock nat
  | BMsg ptr nat
  | BFrames "(ptr \<times> nat) option list"
  | BEnv envelope
  | BThreadArgs ptr ptr ptr ptr
  | BArgs ptr string

datatype signal = SIGINT | SIGTERM

datatype thread = Thread_ui | Thread_receiver | Thread_controller

datatype event =
    Printed string
  | PrintedErr string
  | ZOpen socket_kind "nat option"
  | ZClose nat
  | ZConnect nat string int
  | ZBind nat string int
  | ZOpt nat sockopt string int
  | ZSend nat string cflags int
  | ZRecv nat int string
  | ZMsgInit
  | ZMsgClose
  | ZMsgSend nat string cflags int
  | ZMsgRecv nat int string bool
  | ZPoll int "bool list"
  | CtxNew ptr
  | CtxDestroy ptr
  | ThreadCreate thread ptr
  | ThreadJoin thread
  | Raised signal
  | PipeNew "(int \<times> int) option"
  | FdSetFlags int int int
  | FdWrite int string int
  | FdClose int
  | SigAction signal int
  | Exited int

record 'w st =
  world :: 'w
  heap :: "nat \<Rightarrow> block option"
  fresh :: nat
  trace :: "event list"

text \<open>
  \<open>x_malloc\<close> says whether an allocation succeeds, \<open>x_uninit\<close> what an uninitialised array
  holds. \<open>x_recv\<close> gives the return code and the bytes stored in the buffer, \<open>x_msg_recv\<close> the
  return code, the frame and whether more frames follow, \<open>x_poll\<close> the return code and for
  each item whether it is readable. \<open>x_fgets\<close> gives the line that \<open>fgets\<close> stores before the NUL,
  \<open>x_created\<close> says whether \<open>pthread_create\<close> succeeded for a thread,
  \<open>x_join\<close> what other threads do until the joined one has ended, \<open>x_pipe\<close> the two descriptors of
  a new pipe; the calls on descriptors and signals give their return codes.
\<close>

record 'w ext =
  x_malloc :: "nat \<Rightarrow> 'w \<Rightarrow> bool \<times> 'w"
  x_uninit :: "nat \<Rightarrow> 'w \<Rightarrow> string"
  x_strerror :: "'w \<Rightarrow> string"
  x_eintr :: "'w \<Rightarrow> bool"
  x_time :: "'w \<Rightarrow> int \<times> 'w"
  x_socket :: "socket_kind \<Rightarrow> 'w \<Rightarrow> nat option \<times> 'w"
  x_close :: "nat \<Rightarrow> 'w \<Rightarrow> 'w"
  x_setsockopt :: "nat \<Rightarrow> sockopt \<Rightarrow> string \<Rightarrow> 'w \<Rightarrow> int \<times> 'w"
  x_connect :: "nat \<Rightarrow> string \<Rightarrow> 'w \<Rightarrow> int \<times> 'w"
  x_bind :: "nat \<Rightarrow> string \<Rightarrow> 'w \<Rightarrow> int \<times> 'w"
  x_send :: "nat \<Rightarrow> string \<Rightarrow> cflags \<Rightarrow> 'w \<Rightarrow> int \<times> 'w"
  x_recv :: "nat \<Rightarrow> nat \<Rightarrow> cflags \<Rightarrow> 'w \<Rightarrow> (int \<times> string) \<times> 'w"
  x_msg_init_size :: "nat \<Rightarrow> 'w \<Rightarrow> int \<times> 'w"
  x_msg_send :: "nat \<Rightarrow> string \<Rightarrow> cflags \<Rightarrow> 'w \<Rightarrow> int \<times> 'w"
  x_msg_recv :: "nat \<Rightarrow> cflags \<Rightarrow> 'w \<Rightarrow> (int \<times> string \<times> bool) \<times> 'w"
  x_poll :: "pollitem list \<Rightarrow> int \<Rightarrow> 'w \<Rightarrow> (int \<times> bool list) \<times> 'w"
  x_packed_size :: "envelope \<Rightarrow> nat"
  x_pack :: "envelope \<Rightarrow> string"
  x_unpack :: "string \<Rightarrow> 'w \<Rightarrow> envelope option \<times> 'w"
  x_scanf_word :: "nat \<Rightarrow> 'w \<Rightarrow> string option \<times> 'w"
  x_fgets :: "nat \<Rightarrow> 'w \<Rightarrow> string option \<times> 'w"
  x_ctx_new :: "'w \<Rightarrow> ptr \<times> 'w"
  x_created :: "thread \<Rightarrow> 'w \<Rightarrow> bool"
  x_join :: "thread \<Rightarrow> 'w \<Rightarrow> 'w"
  x_pipe :: "'w \<Rightarrow> (int \<times> int) option \<times> 'w"
  x_getfl :: "int \<Rightarrow> 'w \<Rightarrow> int \<times> 'w"
  x_setfl :: "int \<Rightarrow> int \<Rightarrow> 'w \<Rightarrow> int \<times> 'w"
  x_sigaction :: "signal \<Rightarrow> 'w \<Rightarrow> int \<times> 'w"
  x_write :: "int \<Rightarrow> string \<Rightarrow> 'w \<Rightarrow> int \<times> 'w"

section \<open>Primitive steps\<close>

definition ask :: "('w \<Rightarrow> 'a \<times> 'w) \<Rightarrow> ('w st, 'a) prog" where
  "ask f = (\<lambda>s. case f (world s) of (x, w) \<Rightarrow> Inr (x, s\<lparr>world := w\<rparr>))"

definition emit :: "event \<Rightarrow> ('w st, unit) prog" where
  "emit e = modify (\<lambda>s. s\<lparr>trace := trace s @ [e]\<rparr>)"

definition printf :: "string \<Rightarrow> ('w st, unit) prog" where
  "printf t = emit (Printed t)"

text \<open>\<open>printf("... %s\<newline>", strerror(errno))\<close>: the text before the error string is given.\<close>

definition report :: "'w ext \<Rightarrow> string \<Rightarrow> ('w st, unit) prog" where
  "report E t = bnd (gets world) (\<lambda>w. printf (t @ x_strerror E w @ [CHR 0x0A]))"

definition local_array :: "'w ext \<Rightarrow> nat \<Rightarrow> ('w st, string) prog" where
  "local_array E n = gets (\<lambda>s. take n (x_uninit E n (world s) @ replicate n NUL))"

definition alloc :: "block \<Rightarrow> ('w st, ptr) prog" where
  "alloc b = (\<lambda>s. Inr (Some (fresh s),
     s\<lparr>heap := (heap s)(fresh s := Some b), fresh := Suc (fresh s)\<rparr>))"

definition malloc :: "'w ext \<Rightarrow> nat \<Rightarrow> ('w st, ptr) prog" where
  "malloc E n = bnd (ask (x_malloc E n)) (\<lambda>ok. if ok then alloc (BRaw n) else ret None)"

definition load :: "ptr \<Rightarrow> ('w st, block) prog" where
  "load p = (\<lambda>s. case p of None \<Rightarrow> Inl NullPointer
     | Some a \<Rightarrow> (case heap s a of None \<Rightarrow> Inl DeadPointer | Some b \<Rightarrow> Inr (b, s)))"

definition store :: "ptr \<Rightarrow> block \<Rightarrow> ('w st, unit) prog" where
  "store p b = bnd (load p) (\<lambda>_. modify (\<lambda>s. s\<lparr>heap := (heap s)(the p := Some b)\<rparr>))"

definition free :: "ptr \<Rightarrow> ('w st, unit) prog" where
  "free p = (case p of None \<Rightarrow> ret ()
     | Some a \<Rightarrow> bnd (load p) (\<lambda>_. modify (\<lambda>s. s\<lparr>heap := (heap s)(a := None)\<rparr>)))"

definition load_sock :: "ptr \<Rightarrow> ('w st, nat) prog" where
  "load_sock p = bnd (load p) (\<lambda>b. case b of BSock h \<Rightarrow> ret h | _ \<Rightarrow> fail DeadPointer)"

definition load_env :: "ptr \<Rightarrow> ('w st, envelope) prog" where
  "load_env p = bnd (load p) (\<lambda>b. case b of BEnv e \<Rightarrow> ret e | _ \<Rightarrow> fail DeadPointer)"

definition load_bytes :: "ptr \<Rightarrow> ('w st, string) prog" where
  "load_bytes p = bnd (load p) (\<lambda>b. case b of BBytes d \<Rightarrow> ret d | _ \<Rightarrow> fail DeadPointer)"

section \<open>Calls of libzmq and of the generated code\<close>

definition z_send :: "'w ext \<Rightarrow> nat \<Rightarrow> string \<Rightarrow> cflags \<Rightarrow> ('w st, int) prog" where
  "z_send E h d fl = bnd (ask (x_send E h d fl)) (\<lambda>rc. bnd (emit (ZSend h d fl rc)) (\<lambda>_. ret rc))"

text \<open>\<open>zmq_recv(h, buf, len, flags)\<close>: the stored bytes replace the front of the buffer.\<close>

definition z_recv :: "'w ext \<Rightarrow> nat \<Rightarrow> string \<Rightarrow> nat \<Rightarrow> cflags \<Rightarrow> ('w st, int \<times> string) prog" where
  "z_recv E h buf n fl =
     bnd (ask (x_recv E h n fl)) (\<lambda>(rc, d).
     bnd (write_at buf 0 d) (\<lambda>buf'.
     bnd (emit (ZRecv h rc d)) (\<lambda>_. ret (rc, buf'))))"

definition z_setsockopt :: "'w ext \<Rightarrow> nat \<Rightarrow> sockopt \<Rightarrow> string \<Rightarrow> ('w st, int) prog" where
  "z_setsockopt E h opt v =
     bnd (ask (x_setsockopt E h opt v)) (\<lambda>rc. bnd (emit (ZOpt h opt v rc)) (\<lambda>_. ret rc))"

definition z_connect :: "'w ext \<Rightarrow> nat \<Rightarrow> string \<Rightarrow> ('w st, int) prog" where
  "z_connect E h ep =
     bnd (ask (x_connect E h ep)) (\<lambda>rc. bnd (emit (ZConnect h ep rc)) (\<lambda>_. ret rc))"

definition z_bind :: "'w ext \<Rightarrow> nat \<Rightarrow> string \<Rightarrow> ('w st, int) prog" where
  "z_bind E h ep = bnd (ask (x_bind E h ep)) (\<lambda>rc. bnd (emit (ZBind h ep rc)) (\<lambda>_. ret rc))"

definition z_socket :: "'w ext \<Rightarrow> socket_kind \<Rightarrow> ('w st, nat option) prog" where
  "z_socket E k = bnd (ask (x_socket E k)) (\<lambda>h. bnd (emit (ZOpen k h)) (\<lambda>_. ret h))"

definition z_close :: "'w ext \<Rightarrow> nat \<Rightarrow> ('w st, unit) prog" where
  "z_close E h = bnd (ask (\<lambda>w. ((), x_close E h w))) (\<lambda>_. emit (ZClose h))"

definition z_poll :: "'w ext \<Rightarrow> pollitem list \<Rightarrow> int \<Rightarrow> ('w st, int \<times> bool list) prog" where
  "z_poll E items timeout =
     bnd (ask (x_poll E items timeout)) (\<lambda>(rc, rev). bnd (emit (ZPoll rc rev)) (\<lambda>_. ret (rc, rev)))"

definition z_msg_recv :: "'w ext \<Rightarrow> nat \<Rightarrow> cflags \<Rightarrow> ('w st, int \<times> string \<times> bool) prog" where
  "z_msg_recv E h fl =
     bnd (ask (x_msg_recv E h fl)) (\<lambda>(rc, d, mr).
     bnd (emit (ZMsgRecv h rc d mr)) (\<lambda>_. ret (rc, d, mr)))"

definition z_msg_send :: "'w ext \<Rightarrow> nat \<Rightarrow> string \<Rightarrow> cflags \<Rightarrow> ('w st, int) prog" where
  "z_msg_send E h d fl =
     bnd (ask (x_msg_send E h d fl)) (\<lambda>rc. bnd (emit (ZMsgSend h d fl rc)) (\<lambda>_. ret rc))"

text \<open>\<open>zmq_msg_init_size\<close>: nothing is initialised when it fails.\<close>

definition z_msg_init_size :: "'w ext \<Rightarrow> nat \<Rightarrow> ('w st, int) prog" where
  "z_msg_init_size E n =
     bnd (ask (x_msg_init_size E n)) (\<lambda>rc. bnd (only_if (rc = 0) (emit ZMsgInit)) (\<lambda>_. ret rc))"

text \<open>Unpacking allocates the envelope, \<open>free_unpacked\<close> releases it.\<close>

definition pb_unpack :: "'w ext \<Rightarrow> string \<Rightarrow> ('w st, ptr) prog" where
  "pb_unpack E d =
     bnd (ask (x_unpack E d)) (\<lambda>r. case r of None \<Rightarrow> ret None | Some e \<Rightarrow> alloc (BEnv e))"

text \<open>Packing writes into a buffer of the given size.\<close>

definition pb_pack :: "'w ext \<Rightarrow> envelope \<Rightarrow> ptr \<Rightarrow> nat \<Rightarrow> ('w st, unit) prog" where
  "pb_pack E e buf n =
     (if length (x_pack E e) \<le> n then store buf (BBytes (x_pack E e)) else fail OutOfBounds)"

section \<open>Preconditions of the primitives\<close>

lemma wp_ask [wp_simps]:
  "wp (ask f) Q F s = (case f (world s) of (x, w) \<Rightarrow> Q x (s\<lparr>world := w\<rparr>))"
  by (simp add: wp_def ask_def split: prod.split)

lemma wp_emit [wp_simps]: "wp (emit e) Q F s = Q () (s\<lparr>trace := trace s @ [e]\<rparr>)"
  by (simp add: emit_def wp_simps)

lemma wp_printf [wp_simps]: "wp (printf t) Q F s = Q () (s\<lparr>trace := trace s @ [Printed t]\<rparr>)"
  by (simp add: printf_def wp_simps)

lemma wp_report [wp_simps]:
  "wp (report E t) Q F s =
     Q () (s\<lparr>trace := trace s @ [Printed (t @ x_strerror E (world s) @ [CHR 0x0A])]\<rparr>)"
  by (simp add: report_def wp_simps)

lemma wp_local_array [wp_simps]:
  "wp (local_array E n) Q F s = Q (take n (x_uninit E n (world s) @ replicate n NUL)) s"
  by (simp add: local_array_def wp_simps)

lemma wp_alloc [wp_simps]:
  "wp (alloc b) Q F s =
     Q (Some (fresh s)) (s\<lparr>heap := (heap s)(fresh s := Some b), fresh := Suc (fresh s)\<rparr>)"
  by (simp add: wp_def alloc_def)

lemma wp_malloc [wp_simps]:
  "wp (malloc E n) Q F s =
     (case x_malloc E n (world s) of (ok, w) \<Rightarrow>
        if ok then Q (Some (fresh s)) (s\<lparr>world := w,
          heap := (heap s)(fresh s := Some (BRaw n)), fresh := Suc (fresh s)\<rparr>)
        else Q None (s\<lparr>world := w\<rparr>))"
  by (simp add: malloc_def wp_simps split: prod.split)

lemma wp_load [wp_simps]:
  "wp (load p) Q F s = (case p of None \<Rightarrow> F NullPointer
     | Some a \<Rightarrow> (case heap s a of None \<Rightarrow> F DeadPointer | Some b \<Rightarrow> Q b s))"
  by (simp add: wp_def load_def split: option.split)

lemma wp_store [wp_simps]:
  "wp (store p b) Q F s = (case p of None \<Rightarrow> F NullPointer
     | Some a \<Rightarrow> (case heap s a of None \<Rightarrow> F DeadPointer
         | Some _ \<Rightarrow> Q () (s\<lparr>heap := (heap s)(a := Some b)\<rparr>)))"
  by (auto simp: store_def wp_simps split: option.split)

lemma wp_free [wp_simps]:
  "wp (free p) Q F s = (case p of None \<Rightarrow> Q () s
     | Some a \<Rightarrow> (case heap s a of None \<Rightarrow> F DeadPointer
         | Some _ \<Rightarrow> Q () (s\<lparr>heap := (heap s)(a := None)\<rparr>)))"
  by (auto simp: free_def wp_simps split: option.split)

lemma wp_case_block [wp_simps]:
  "wp (case b of BSock h \<Rightarrow> m h | _ \<Rightarrow> fail f) Q F s =
     (case b of BSock h \<Rightarrow> wp (m h) Q F s | _ \<Rightarrow> F f)"
  "wp (case b of BEnv e \<Rightarrow> n e | _ \<Rightarrow> fail f) Q F s =
     (case b of BEnv e \<Rightarrow> wp (n e) Q F s | _ \<Rightarrow> F f)"
  "wp (case b of BBytes d \<Rightarrow> l d | _ \<Rightarrow> fail f) Q F s =
     (case b of BBytes d \<Rightarrow> wp (l d) Q F s | _ \<Rightarrow> F f)"
  by (simp_all add: wp_simps split: block.split)

lemma wp_load_sock:
  "heap s a = Some (BSock h) \<Longrightarrow> wp (load_sock (Some a)) Q F s = Q h s"
  by (simp add: load_sock_def wp_simps)

lemma wp_load_env:
  "heap s a = Some (BEnv e) \<Longrightarrow> wp (load_env (Some a)) Q F s = Q e s"
  by (simp add: load_env_def wp_simps)

lemma wp_load_bytes:
  "heap s a = Some (BBytes d) \<Longrightarrow> wp (load_bytes (Some a)) Q F s = Q d s"
  by (simp add: load_bytes_def wp_simps)

lemma wp_load_null [wp_simps]:
  "wp (load_sock None) Q F s = F NullPointer"
  "wp (load_env None) Q' F s = F NullPointer"
  "wp (load_bytes None) Q'' F s = F NullPointer"
  by (simp_all add: load_sock_def load_env_def load_bytes_def wp_simps)

lemma wp_z_send [wp_simps]:
  "wp (z_send E h d fl) Q F s = (case x_send E h d fl (world s) of (rc, w) \<Rightarrow>
     Q rc (s\<lparr>world := w, trace := trace s @ [ZSend h d fl rc]\<rparr>))"
  by (simp add: z_send_def wp_simps split: prod.split)

lemma wp_z_recv [wp_simps]:
  "wp (z_recv E h buf n fl) Q F s = (case x_recv E h n fl (world s) of ((rc, d), w) \<Rightarrow>
     if length d \<le> length buf
     then Q (rc, d @ drop (length d) buf) (s\<lparr>world := w, trace := trace s @ [ZRecv h rc d]\<rparr>)
     else F OutOfBounds)"
  by (simp add: z_recv_def wp_simps split: prod.split)

lemma wp_z_setsockopt [wp_simps]:
  "wp (z_setsockopt E h opt v) Q F s = (case x_setsockopt E h opt v (world s) of (rc, w) \<Rightarrow>
     Q rc (s\<lparr>world := w, trace := trace s @ [ZOpt h opt v rc]\<rparr>))"
  by (simp add: z_setsockopt_def wp_simps split: prod.split)

lemma wp_z_connect [wp_simps]:
  "wp (z_connect E h ep) Q F s = (case x_connect E h ep (world s) of (rc, w) \<Rightarrow>
     Q rc (s\<lparr>world := w, trace := trace s @ [ZConnect h ep rc]\<rparr>))"
  by (simp add: z_connect_def wp_simps split: prod.split)

lemma wp_z_bind [wp_simps]:
  "wp (z_bind E h ep) Q F s = (case x_bind E h ep (world s) of (rc, w) \<Rightarrow>
     Q rc (s\<lparr>world := w, trace := trace s @ [ZBind h ep rc]\<rparr>))"
  by (simp add: z_bind_def wp_simps split: prod.split)

lemma wp_z_socket [wp_simps]:
  "wp (z_socket E k) Q F s = (case x_socket E k (world s) of (h, w) \<Rightarrow>
     Q h (s\<lparr>world := w, trace := trace s @ [ZOpen k h]\<rparr>))"
  by (simp add: z_socket_def wp_simps split: prod.split)

lemma wp_z_close [wp_simps]:
  "wp (z_close E h) Q F s =
     Q () (s\<lparr>world := x_close E h (world s), trace := trace s @ [ZClose h]\<rparr>)"
  by (simp add: z_close_def wp_simps)

lemma wp_z_poll [wp_simps]:
  "wp (z_poll E items tm) Q F s = (case x_poll E items tm (world s) of ((rc, rv), w) \<Rightarrow>
     Q (rc, rv) (s\<lparr>world := w, trace := trace s @ [ZPoll rc rv]\<rparr>))"
  by (simp add: z_poll_def wp_simps split: prod.split)

lemma wp_z_msg_recv [wp_simps]:
  "wp (z_msg_recv E h fl) Q F s = (case x_msg_recv E h fl (world s) of ((rc, d, mr), w) \<Rightarrow>
     Q (rc, d, mr) (s\<lparr>world := w, trace := trace s @ [ZMsgRecv h rc d mr]\<rparr>))"
  by (simp add: z_msg_recv_def wp_simps split: prod.split)

lemma wp_z_msg_send [wp_simps]:
  "wp (z_msg_send E h d fl) Q F s = (case x_msg_send E h d fl (world s) of (rc, w) \<Rightarrow>
     Q rc (s\<lparr>world := w, trace := trace s @ [ZMsgSend h d fl rc]\<rparr>))"
  by (simp add: z_msg_send_def wp_simps split: prod.split)

lemma wp_z_msg_init_size [wp_simps]:
  "wp (z_msg_init_size E n) Q F s = (case x_msg_init_size E n (world s) of (rc, w) \<Rightarrow>
     Q rc (if rc = 0 then s\<lparr>world := w, trace := trace s @ [ZMsgInit]\<rparr> else s\<lparr>world := w\<rparr>))"
  by (simp add: z_msg_init_size_def wp_simps split: prod.split)

lemma wp_pb_unpack [wp_simps]:
  "wp (pb_unpack E d) Q F s = (case x_unpack E d (world s) of
       (None, w) \<Rightarrow> Q None (s\<lparr>world := w\<rparr>)
     | (Some e, w) \<Rightarrow> Q (Some (fresh s)) (s\<lparr>world := w,
         heap := (heap s)(fresh s := Some (BEnv e)), fresh := Suc (fresh s)\<rparr>))"
  by (simp add: pb_unpack_def wp_simps split: prod.split option.split)

lemma wp_pb_pack [wp_simps]:
  "wp (pb_pack E e p n) Q F s =
     (if length (x_pack E e) \<le> n then wp (store p (BBytes (x_pack E e))) Q F s
      else F OutOfBounds)"
  by (simp add: pb_pack_def wp_simps)

section \<open>Heaps\<close>

text \<open>Nothing is allocated at an address that has not been handed out yet.\<close>

definition heap_ok :: "'w st \<Rightarrow> bool" where
  "heap_ok s \<longleftrightarrow> (\<forall>a. fresh s \<le> a \<longrightarrow> heap s a = None)"

definition sock_at :: "'w st \<Rightarrow> ptr \<Rightarrow> nat \<Rightarrow> bool" where
  "sock_at s p h \<longleftrightarrow> (\<exists>a. p = Some a \<and> heap s a = Some (BSock h))"

lemma heap_ok_fresh [simp]: "heap_ok s \<Longrightarrow> heap s (fresh s) = None"
  by (simp add: heap_ok_def)

lemma heap_ok_alive: "heap_ok s \<Longrightarrow> heap s a = Some b \<Longrightarrow> a < fresh s"
  by (rule ccontr) (simp add: heap_ok_def not_less)

lemma heap_ok_neq_fresh: "heap_ok s \<Longrightarrow> heap s a = Some b \<Longrightarrow> a \<noteq> fresh s"
  by auto

lemma sock_atE:
  assumes "sock_at s p h"
  obtains a where "p = Some a" and "heap s a = Some (BSock h)"
  using assms by (auto simp: sock_at_def)

lemma wp_load_sock_at: "sock_at s p h \<Longrightarrow> wp (load_sock p) Q F s = Q h s"
  by (auto simp: sock_at_def wp_load_sock)

section \<open>What the trace says about one socket\<close>

fun handle_of :: "event \<Rightarrow> nat option" where
  "handle_of (ZClose h) = Some h"
| "handle_of (ZConnect h _ _) = Some h"
| "handle_of (ZBind h _ _) = Some h"
| "handle_of (ZOpt h _ _ _) = Some h"
| "handle_of (ZSend h _ _ _) = Some h"
| "handle_of (ZRecv h _ _) = Some h"
| "handle_of (ZMsgSend h _ _ _) = Some h"
| "handle_of (ZMsgRecv h _ _ _) = Some h"
| "handle_of _ = None"

definition io_on :: "nat \<Rightarrow> event list \<Rightarrow> event list" where
  "io_on h es = filter (\<lambda>e. handle_of e = Some h) es"

lemma io_on_simps [simp]:
  "io_on h [] = []"
  "io_on h (es @ fs) = io_on h es @ io_on h fs"
  "io_on h (e # es) = (if handle_of e = Some h then e # io_on h es else io_on h es)"
  by (simp_all add: io_on_def)

text \<open>The sockets that were opened and those that were closed, in order.\<close>

fun opens_of :: "event \<Rightarrow> nat list" where
  "opens_of (ZOpen _ (Some h)) = [h]"
| "opens_of _ = []"

fun closes_of :: "event \<Rightarrow> nat list" where
  "closes_of (ZClose h) = [h]"
| "closes_of _ = []"

definition sockets_opened :: "event list \<Rightarrow> nat list" where
  "sockets_opened es = concat (map opens_of es)"

definition sockets_closed :: "event list \<Rightarrow> nat list" where
  "sockets_closed es = concat (map closes_of es)"

lemma sockets_opened_simps [simp]:
  "sockets_opened [] = []" "sockets_opened (e # es) = opens_of e @ sockets_opened es"
  "sockets_opened (es @ fs) = sockets_opened es @ sockets_opened fs"
  by (simp_all add: sockets_opened_def)

lemma sockets_closed_simps [simp]:
  "sockets_closed [] = []" "sockets_closed (e # es) = closes_of e @ sockets_closed es"
  "sockets_closed (es @ fs) = sockets_closed es @ sockets_closed fs"
  by (simp_all add: sockets_closed_def)

section \<open>What the code relies on\<close>

text \<open>
  The documented behaviour of \<open>zmq_recv\<close>: it fails with -1 and stores nothing, or it returns
  the size of the message and stores as much of it as the buffer length allows. The size can
  exceed the length: the message is then truncated.
\<close>

definition recv_law :: "'w ext \<Rightarrow> bool" where
  "recv_law E \<longleftrightarrow> (\<forall>h n fl w rc d w'. x_recv E h n fl w = ((rc, d), w') \<longrightarrow>
     (rc = -1 \<and> d = []) \<or> (\<exists>m. rc = int (length m) \<and> d = take n m))"

text \<open>Packing writes as many bytes as the packed size announces.\<close>

definition pack_law :: "'w ext \<Rightarrow> bool" where
  "pack_law E \<longleftrightarrow> (\<forall>e. length (x_pack E e) = x_packed_size E e)"

text \<open>No allocation fails.\<close>

definition malloc_law :: "'w ext \<Rightarrow> bool" where
  "malloc_law E \<longleftrightarrow> (\<forall>n w. fst (x_malloc E n w))"

text \<open>No allocation fails, and allocating is invisible to libzmq and to the peers.\<close>

definition malloc_total :: "'w ext \<Rightarrow> bool" where
  "malloc_total E \<longleftrightarrow> (\<forall>n w. x_malloc E n w = (True, w))"

lemma malloc_totalD: "malloc_total E \<Longrightarrow> x_malloc E n w = (True, w)"
  by (simp add: malloc_total_def)

lemma recv_lawE:
  assumes "recv_law E" and "x_recv E h n fl w = ((rc, d), w')"
  obtains "rc = -1" and "d = []"
  | m where "rc = int (length m)" and "d = take n m"
  using assms unfolding recv_law_def by blast

lemma recv_law_length: "recv_law E \<Longrightarrow> x_recv E h n fl w = ((rc, d), w') \<Longrightarrow> length d \<le> n"
  by (erule recv_lawE, assumption) auto

lemma malloc_lawD: "malloc_law E \<Longrightarrow> x_malloc E n w = (ok, w') \<Longrightarrow> ok"
  unfolding malloc_law_def by (metis fst_conv)

text \<open>No message is longer than \<open>n\<close> bytes.\<close>

definition fits :: "'w ext \<Rightarrow> nat \<Rightarrow> bool" where
  "fits E n \<longleftrightarrow> (\<forall>h fl w. fst (fst (x_recv E h n fl w)) \<le> int n)"

lemma fitsD: "fits E n \<Longrightarrow> x_recv E h n fl w = ((rc, d), w') \<Longrightarrow> rc \<le> int n"
  unfolding fits_def by (metis fst_conv)

end
