(* ===== verification/Utils.thy ===== *)
theory Utils
  imports Machine "HOL-Library.Signed_Division"
begin

text \<open>
  \<open>utils/zmq_utils.c\<close> and the clock of \<open>zmq_utils.h\<close>: the queue of string pointers over an
  array the caller owns (a list of pointers of the array's length, with the \<open>int\<close> fill count
  beside it), the delay and the clock arithmetic, and the thread argument structure. The queue
  is shown to be a bounded first-in first-out queue through the locale \<open>fifo\<close>.
\<close>

section \<open>Arrays of pointers\<close>

definition arr_get :: "ptr list \<Rightarrow> int \<Rightarrow> ('s, ptr) prog" where
  "arr_get q i = (if 0 \<le> i \<and> nat i < length q then ret (q ! nat i) else fail OutOfBounds)"

definition arr_set :: "ptr list \<Rightarrow> int \<Rightarrow> ptr \<Rightarrow> ('s, ptr list) prog" where
  "arr_set q i p = (if 0 \<le> i \<and> nat i < length q then ret (q[nat i := p]) else fail OutOfBounds)"

lemma wp_arr_get [wp_simps]:
  "wp (arr_get q i) Q F s = (if 0 \<le> i \<and> nat i < length q then Q (q ! nat i) s else F OutOfBounds)"
  by (simp add: arr_get_def wp_simps)

lemma wp_arr_set [wp_simps]:
  "wp (arr_set q i p) Q F s =
     (if 0 \<le> i \<and> nat i < length q then Q (q[nat i := p]) s else F OutOfBounds)"
  by (simp add: arr_set_def wp_simps)

section \<open>The queue\<close>

text \<open>\<open>for (int i = 0; i < *capacity - 1; i++) queue[i] = queue[i + 1];\<close>\<close>

function shift_down :: "ptr list \<Rightarrow> int \<Rightarrow> int \<Rightarrow> ('s, ptr list) prog" where
  "shift_down q i n =
     (if i < n then
        bnd (arr_get q (i + 1)) (\<lambda>p.
        bnd (arr_set q i p) (\<lambda>q'. shift_down q' (i + 1) n))
      else ret q)"
  by pat_completeness auto
termination
  by (relation "measure (\<lambda>(q, i, n). nat (n - i))") auto

declare shift_down.simps [simp del]

definition queue_pop :: "ptr list \<Rightarrow> int \<Rightarrow> ('s, ptr \<times> ptr list \<times> int) prog" where
  "queue_pop q capacity =
     (if capacity \<le> 0 then ret (None, q, capacity)
      else
        bnd (arr_get q 0) (\<lambda>element.
        bnd (shift_down q 0 (capacity - 1)) (\<lambda>q1.
        bnd (arr_set q1 (capacity - 1) None) (\<lambda>q2. ret (element, q2, capacity - 1)))))"

definition queue_push ::
    "ptr list \<Rightarrow> int \<Rightarrow> ptr \<Rightarrow> int \<Rightarrow> ('w st, ptr list \<times> int) prog" where
  "queue_push q capacity element max_capacity =
     (if capacity < max_capacity then
        bnd (arr_set q capacity element) (\<lambda>q1. ret (q1, capacity + 1))
      else
        bnd (load_bytes element) (\<lambda>b.
        bnd (cstr_at b 0) (\<lambda>t.
        bnd (emit (PrintedErr (''ERR: Queue full, dropping element '' @ t @ [CHR 0x0A]))) (\<lambda>_.
        bnd (free element) (\<lambda>_. ret (q, capacity))))))"

function queue_cleanup_from :: "ptr list \<Rightarrow> int \<Rightarrow> int \<Rightarrow> ('w st, ptr list) prog" where
  "queue_cleanup_from q i capacity =
     (if i < capacity then
        bnd (arr_get q i) (\<lambda>p.
        if p \<noteq> None then
          bnd (free p) (\<lambda>_.
          bnd (arr_set q i None) (\<lambda>q'. queue_cleanup_from q' (i + 1) capacity))
        else queue_cleanup_from q (i + 1) capacity)
      else ret q)"
  by pat_completeness auto
termination
  by (relation "measure (\<lambda>(q, i, n). nat (n - i))") auto

declare queue_cleanup_from.simps [simp del]

definition queue_cleanup :: "ptr list \<Rightarrow> int \<Rightarrow> ('w st, ptr list) prog" where
  "queue_cleanup q capacity = queue_cleanup_from q 0 capacity"

text \<open>\<open>while (queue[count] != NULL) count++;\<close>: the array ends before the loop may.\<close>

function queue_size_from :: "ptr list \<Rightarrow> nat \<Rightarrow> ('s, int) prog" where
  "queue_size_from q i =
     (if i < length q then
        (if q ! i \<noteq> None then queue_size_from q (Suc i) else ret (int i))
      else fail OutOfBounds)"
  by pat_completeness auto
termination
  by (relation "measure (\<lambda>(q, i). length q - i)") auto

declare queue_size_from.simps [simp del]

definition queue_size :: "ptr list \<Rightarrow> ('s, int) prog" where
  "queue_size q = queue_size_from q 0"

definition queue_is_empty :: "ptr list \<Rightarrow> ('s, bool) prog" where
  "queue_is_empty q = bnd (queue_size q) (\<lambda>n. ret (n = 0))"

section \<open>Time and thread arguments\<close>

text \<open>The \<open>timespec\<close> that \<open>delay_ms\<close> sleeps for; C division truncates towards zero.\<close>

definition delay_ms :: "int \<Rightarrow> int \<times> int" where
  "delay_ms milliseconds = (milliseconds sdiv 1000, (milliseconds smod 1000) * 1000000)"

text \<open>\<open>s_clock\<close> from the \<open>tv_sec\<close> and \<open>tv_usec\<close> of \<open>gettimeofday\<close>.\<close>

definition s_clock :: "int \<Rightarrow> int \<Rightarrow> 64 word" where
  "s_clock tv_sec tv_usec = word_of_int (tv_sec * 1000 + tv_usec sdiv 1000)"

definition zmq_thread_args_create ::
    "'w ext \<Rightarrow> ptr \<Rightarrow> ptr \<Rightarrow> ptr \<Rightarrow> ptr \<Rightarrow> ('w st, ptr) prog" where
  "zmq_thread_args_create E zmqcontext ident topic_name thread_name =
     bnd (malloc E 32) (\<lambda>args.
     bnd (store args (BThreadArgs zmqcontext ident topic_name thread_name)) (\<lambda>_. ret args))"

section \<open>First-in first-out\<close>

text \<open>
  What the users of a bounded queue rely on: below the bound a push appends, a pop of a
  non-empty queue returns and removes the oldest element, and neither touches the state.
\<close>

locale fifo =
  fixes push :: "'e \<Rightarrow> 'q \<Rightarrow> ('s, 'q) prog"
    and pop :: "'q \<Rightarrow> ('s, 'e option \<times> 'q) prog"
    and elems :: "'q \<Rightarrow> 'e list"
    and ok :: "'q \<Rightarrow> bool"
    and bound :: nat
  assumes push_ok: "ok q \<Longrightarrow> length (elems q) < bound \<Longrightarrow>
      wp (push e q) (\<lambda>q' t. ok q' \<and> elems q' = elems q @ [e] \<and> t = s) no_fault s"
    and pop_ok: "ok q \<Longrightarrow> elems q = e # es \<Longrightarrow>
      wp (pop q) (\<lambda>(r, q') t. r = Some e \<and> ok q' \<and> elems q' = es \<and> t = s) no_fault s"
    and pop_none: "ok q \<Longrightarrow> elems q = [] \<Longrightarrow>
      wp (pop q) (\<lambda>(r, q') t. r = None \<and> q' = q \<and> t = s) no_fault s"

fun push_all :: "('e \<Rightarrow> 'q \<Rightarrow> ('s, 'q) prog) \<Rightarrow> 'e list \<Rightarrow> 'q \<Rightarrow> ('s, 'q) prog" where
  "push_all push [] q = ret q"
| "push_all push (e # es) q = bnd (push e q) (\<lambda>q'. push_all push es q')"

fun pop_all ::
    "('q \<Rightarrow> ('s, 'e option \<times> 'q) prog) \<Rightarrow> nat \<Rightarrow> 'q \<Rightarrow> ('s, 'e option list \<times> 'q) prog" where
  "pop_all pop 0 q = ret ([], q)"
| "pop_all pop (Suc n) q =
     bnd (pop q) (\<lambda>(r, q1). bnd (pop_all pop n q1) (\<lambda>(rs, q2). ret (r # rs, q2)))"

text \<open>
  Any sequence of operations, run on a queue and, for reference, on a list of at most \<open>m\<close> elements
  (\<open>None\<close> when a push finds it full); the results are those of the pops.
\<close>

datatype 'e queue_op = Push 'e | Pop

fun run_queue :: "('e \<Rightarrow> 'q \<Rightarrow> ('s, 'q) prog) \<Rightarrow> ('q \<Rightarrow> ('s, 'e option \<times> 'q) prog) \<Rightarrow>
    'e queue_op list \<Rightarrow> 'q \<Rightarrow> ('s, 'e option list \<times> 'q) prog" where
  "run_queue push pop [] q = ret ([], q)"
| "run_queue push pop (Push e # ops) q = bnd (push e q) (\<lambda>q'. run_queue push pop ops q')"
| "run_queue push pop (Pop # ops) q =
     bnd (pop q) (\<lambda>(r, q1). bnd (run_queue push pop ops q1) (\<lambda>(rs, q2). ret (r # rs, q2)))"

fun list_queue :: "nat \<Rightarrow> 'e queue_op list \<Rightarrow> 'e list \<Rightarrow> ('e option list \<times> 'e list) option" where
  "list_queue m [] xs = Some ([], xs)"
| "list_queue m (Push e # ops) xs = (if length xs < m then list_queue m ops (xs @ [e]) else None)"
| "list_queue m (Pop # ops) [] = map_option (\<lambda>(rs, ys). (None # rs, ys)) (list_queue m ops [])"
| "list_queue m (Pop # ops) (x # xs) = map_option (\<lambda>(rs, ys). (Some x # rs, ys)) (list_queue m ops xs)"

context fifo begin

lemma run_queue_ok:
  "ok q \<Longrightarrow> list_queue bound ops (elems q) = Some (rs, ys) \<Longrightarrow>
     wp (run_queue push pop ops q) (\<lambda>(rs', q') t. rs' = rs \<and> ok q' \<and> elems q' = ys \<and> t = s) no_fault s"
proof (induction ops arbitrary: q rs)
  case Nil
  then show ?case by (simp add: wp_ret)
next
  case (Cons p ops)
  show ?case
  proof (cases p)
    case (Push e)
    with Cons.prems have room: "length (elems q) < bound" and l: "list_queue bound ops (elems q @ [e]) = Some (rs, ys)"
      by (simp_all split: if_splits)
    show ?thesis
      unfolding Push run_queue.simps wp_seq
      by (rule wp_then [OF push_ok [OF Cons.prems(1) room]]) (use Cons.IH l in auto)
  next
    case Pop
    obtain r rs1 where rs: "rs = r # rs1" and l: "list_queue bound ops (tl (elems q)) = Some (rs1, ys)"
      and r: "r = (case elems q of [] \<Rightarrow> None | x # _ \<Rightarrow> Some x)"
      using Cons.prems(2) Pop by (cases "elems q") auto
    have "wp (pop q) (\<lambda>(r', q') t. r' = r \<and> ok q' \<and> elems q' = tl (elems q) \<and> t = s) no_fault s"
    proof (cases "elems q")
      case Nil
      from wp_then [OF pop_none [OF Cons.prems(1) Nil]] show ?thesis
        using Nil Cons.prems(1) r by auto
    next
      case (Cons x xs)
      from wp_then [OF pop_ok [OF Cons.prems(1) Cons]] show ?thesis using Cons r by auto
    qed
    then show ?thesis
      unfolding Pop run_queue.simps wp_seq
    proof (rule wp_then)
      fix x t
      assume "(case x of (r', q') \<Rightarrow> \<lambda>t. r' = r \<and> ok q' \<and> elems q' = tl (elems q) \<and> t = s) t"
      then obtain q1 where x: "x = (r, q1)" "ok q1" "elems q1 = tl (elems q)" "t = s" by (cases x) auto
      show "wp (case x of (r, q1) \<Rightarrow> bnd (run_queue push pop ops q1) (\<lambda>(rs, q2). ret (r # rs, q2)))
          (\<lambda>(rs', q') t. rs' = rs \<and> ok q' \<and> elems q' = ys \<and> t = s) no_fault t"
        using wp_then [OF Cons.IH [OF x(2) l [folded x(3)]]] unfolding x(1,4) rs
        by (auto simp: wp_seq wp_ret)
    qed
  qed
qed

lemma push_all_ok:
  "ok q \<Longrightarrow> length (elems q) + length es \<le> bound \<Longrightarrow>
     wp (push_all push es q) (\<lambda>q' t. ok q' \<and> elems q' = elems q @ es \<and> t = s) no_fault s"
proof (induction es arbitrary: q)
  case Nil
  then show ?case by (simp add: wp_simps)
next
  case (Cons e es)
  have "wp (push e q) (\<lambda>q' t. ok q' \<and> elems q' = elems q @ [e] \<and> t = s) no_fault s"
    using Cons.prems by (intro push_ok) auto
  then have "wp (push e q) (\<lambda>q'. wp (push_all push es q')
      (\<lambda>q' t. ok q' \<and> elems q' = elems q @ e # es \<and> t = s) no_fault) no_fault s"
  proof (rule wp_mono)
    fix q' t
    assume h: "ok q' \<and> elems q' = elems q @ [e] \<and> t = s"
    then have "wp (push_all push es q') (\<lambda>q'' t. ok q'' \<and> elems q'' = elems q' @ es \<and> t = s)
        no_fault s"
      using Cons.prems by (intro Cons.IH) auto
    with h show "wp (push_all push es q')
        (\<lambda>q' t. ok q' \<and> elems q' = elems q @ e # es \<and> t = s) no_fault t"
      by simp
  qed auto
  then show ?case by (simp add: wp_simps)
qed

lemma pop_all_ok:
  "ok q \<Longrightarrow> elems q = es @ rest \<Longrightarrow>
     wp (pop_all pop (length es) q)
       (\<lambda>(rs, q') t. rs = map Some es \<and> ok q' \<and> elems q' = rest \<and> t = s) no_fault s"
proof (induction es arbitrary: q)
  case Nil
  then show ?case by (simp add: wp_simps)
next
  case (Cons e es)
  have "wp (pop q) (\<lambda>(r, q') t. r = Some e \<and> ok q' \<and> elems q' = es @ rest \<and> t = s) no_fault s"
    using Cons.prems by (intro pop_ok) auto
  then show ?case
    unfolding pop_all.simps list.size add_Suc_right add_0_right wp_bnd
  proof (rule wp_mono)
    fix x t
    assume h: "(case x of (r, q') \<Rightarrow> \<lambda>t. r = Some e \<and> ok q' \<and> elems q' = es @ rest \<and> t = s) t"
    obtain r q1 where x: "x = (r, q1)" by (cases x)
    show "wp (case x of (r, q1) \<Rightarrow> bnd (pop_all pop (length es) q1) (\<lambda>(rs, q2). ret (r # rs, q2)))
        (\<lambda>(rs, q') t. rs = map Some (e # es) \<and> ok q' \<and> elems q' = rest \<and> t = s) no_fault t"
      using h unfolding x
      by (auto simp: wp_simps intro!: wp_mono [OF Cons.IH])
  qed auto
qed

text \<open>What went in comes out, in the order it went in.\<close>

lemma push_pop:
  assumes "ok q" and "elems q = []" and "length es \<le> bound"
  shows "wp (bnd (push_all push es q) (\<lambda>q'. pop_all pop (length es) q'))
    (\<lambda>(rs, q') t. rs = map Some es \<and> elems q' = [] \<and> t = s) no_fault s"
proof -
  have "wp (push_all push es q) (\<lambda>q' t. ok q' \<and> elems q' = elems q @ es \<and> t = s) no_fault s"
    using assms by (intro push_all_ok) auto
  then have "wp (push_all push es q) (\<lambda>q'. wp (pop_all pop (length es) q')
      (\<lambda>(rs, q') t. rs = map Some es \<and> elems q' = [] \<and> t = s) no_fault) no_fault s"
    using assms by (elim wp_mono) (auto intro!: wp_mono [OF pop_all_ok])
  then show ?thesis by (simp add: wp_simps)
qed

end

section \<open>The queue of the code\<close>

lemma shift_down_ok:
  assumes "0 \<le> i" and "i \<le> n" and "nat n < length q"
  shows "wp (shift_down q i n)
    (\<lambda>q' t. q' = take (nat i) q @ take (nat n - nat i) (drop (Suc (nat i)) q) @ drop (nat n) q
       \<and> t = s) no_fault s"
  using assms
proof (induction q i n rule: shift_down.induct)
  case (1 q i n)
  show ?case
  proof (cases "i < n")
    case False
    with "1.prems" have "i = n" by simp
    then show ?thesis by (simp add: shift_down.simps wp_simps)
  next
    case True
    let ?k = "nat i"
    let ?q = "q[?k := q ! Suc ?k]"
    from True "1.prems" have k: "nat (i + 1) = Suc ?k" "Suc ?k \<le> nat n" "Suc ?k < length q"
      by linarith+
    have "wp (shift_down ?q (i + 1) n)
        (\<lambda>q' t. q' = take (nat (i + 1)) ?q @ take (nat n - nat (i + 1)) (drop (Suc (nat (i + 1))) ?q)
          @ drop (nat n) ?q \<and> t = s) no_fault s"
      using True "1.prems" by (intro "1.IH") auto
    moreover have "take (Suc ?k) ?q = take ?k q @ [q ! Suc ?k]"
      using k by (simp add: take_Suc_conv_app_nth)
    moreover have "take (nat n - ?k) (drop (Suc ?k) q)
        = q ! Suc ?k # take (nat n - Suc ?k) (drop (Suc (Suc ?k)) q)"
      using k by (simp add: Cons_nth_drop_Suc [symmetric] take_Cons' Suc_diff_Suc)
    ultimately show ?thesis
      using True "1.prems" k by (simp add: shift_down.simps [of q i n] wp_simps)
  qed
qed

text \<open>The elements a queue holds, and what its users keep true of it.\<close>

definition queue_elems :: "ptr list \<times> int \<Rightarrow> nat list" where
  "queue_elems qc = (case qc of (q, c) \<Rightarrow> map the (take (nat c) q))"

definition queue_inv :: "nat \<Rightarrow> ptr list \<times> int \<Rightarrow> bool" where
  "queue_inv M qc = (case qc of (q, c) \<Rightarrow>
     0 \<le> c \<and> nat c \<le> M \<and> M \<le> length q \<and> None \<notin> set (take (nat c) q)
     \<and> (\<forall>p \<in> set (drop (nat c) q). p = None))"

lemma queue_inv_some:
  assumes "queue_inv M (q, c)"
  shows "take (nat c) q = map Some (queue_elems (q, c))"
proof -
  have "map Some (queue_elems (q, c)) = map (\<lambda>p. Some (the p)) (take (nat c) q)"
    by (simp add: queue_elems_def)
  also have "\<dots> = take (nat c) q"
  proof (rule map_idI)
    fix p assume "p \<in> set (take (nat c) q)"
    moreover have "None \<notin> set (take (nat c) q)" using assms by (simp add: queue_inv_def)
    ultimately show "Some (the p) = p" by (metis option.collapse)
  qed
  finally show ?thesis ..
qed

lemma queue_inv_length: "queue_inv M (q, c) \<Longrightarrow> length (queue_elems (q, c)) = nat c"
  by (simp add: queue_inv_def queue_elems_def)

definition zq_push :: "nat \<Rightarrow> nat \<Rightarrow> ptr list \<times> int \<Rightarrow> ('w st, ptr list \<times> int) prog" where
  "zq_push M a qc = queue_push (fst qc) (snd qc) (Some a) (int M)"

definition zq_pop :: "ptr list \<times> int \<Rightarrow> ('w st, ptr \<times> ptr list \<times> int) prog" where
  "zq_pop qc = queue_pop (fst qc) (snd qc)"

lemma queue_pop_run:
  assumes "0 < c" and "nat c \<le> length q"
  shows "wp (queue_pop q c)
    (\<lambda>r t. r = (hd q, take (nat c - 1) (tl q) @ None # drop (nat c) q, c - 1) \<and> t = s) no_fault s"
proof -
  have n: "nat (c - 1) = nat c - 1" by simp
  have sh: "wp (shift_down q 0 (c - 1))
      (\<lambda>q' t. q' = take (nat c - 1) (tl q) @ drop (nat c - 1) q \<and> t = s) no_fault s"
    using shift_down_ok [of 0 "c - 1" q s] assms by (simp add: n drop_Suc)
  have len: "length (take (nat c - 1) (tl q)) = nat c - 1"
    using assms by simp
  have dr: "drop (nat c - Suc 0) q = q ! (nat c - Suc 0) # drop (nat c) q"
    using assms Cons_nth_drop_Suc [of "nat c - 1" q] by simp
  have "q \<noteq> []" using assms by auto
  then show ?thesis
    using assms
    by (auto simp: queue_pop_def wp_simps n hd_conv_nth intro!: wp_mono [OF sh])
      (simp_all add: dr len list_update_append)
qed

lemma queue_push_run:
  "0 \<le> c \<Longrightarrow> c < m \<Longrightarrow> nat c < length q \<Longrightarrow>
     wp (queue_push q c e m) (\<lambda>r t. r = (q[nat c := e], c + 1) \<and> t = s) no_fault s"
  by (simp add: queue_push_def wp_simps)

lemma zq_push_ok:
  assumes inv: "queue_inv M (q, c)" and room: "length (queue_elems (q, c)) < M"
  shows "wp (zq_push M a (q, c))
    (\<lambda>qc t. queue_inv M qc \<and> queue_elems qc = queue_elems (q, c) @ [a] \<and> t = s) no_fault s"
proof -
  have c: "0 \<le> c" "nat c < M" "nat c < length q" "nat (c + 1) = Suc (nat c)"
    using inv room queue_inv_length [OF inv] by (auto simp: queue_inv_def)
  have tk: "take (Suc (nat c)) (q[nat c := Some a]) = take (nat c) q @ [Some a]"
    using c by (simp add: take_Suc_conv_app_nth)
  have dr: "set (drop (Suc (nat c)) (q[nat c := Some a])) \<subseteq> set (drop (nat c) q)"
    using set_drop_subset_set_drop [of "nat c" "Suc (nat c)" q] by simp
  have "queue_inv M (q[nat c := Some a], c + 1)"
    using inv c tk dr by (auto simp: queue_inv_def)
  moreover have "queue_elems (q[nat c := Some a], c + 1) = queue_elems (q, c) @ [a]"
    using c tk by (simp add: queue_elems_def)
  ultimately show ?thesis
    using c unfolding zq_push_def by (auto intro!: wp_mono [OF queue_push_run])
qed

lemma zq_pop_ok:
  assumes inv: "queue_inv M (q, c)" and el: "queue_elems (q, c) = e # es"
  shows "wp (zq_pop (q, c))
    (\<lambda>(r, qc) t. r = Some e \<and> queue_inv M qc \<and> queue_elems qc = es \<and> t = s) no_fault s"
proof -
  have len: "nat c = Suc (length es)"
    using queue_inv_length [OF inv] el by simp
  then have c: "0 < c" "nat c \<le> length q" "nat (c - 1) = length es"
    using inv by (auto simp: queue_inv_def)
  have tk: "take (nat c) q = Some e # map Some es"
    using queue_inv_some [OF inv] el by simp
  then obtain q' where q: "q = Some e # q'" "take (length es) q' = map Some es"
    by (cases q) (auto simp: len)
  let ?q = "take (nat c - 1) (tl q) @ None # drop (nat c) q"
  have "queue_inv M (?q, c - 1)"
    using inv c q len by (auto simp: queue_inv_def)
  moreover have "queue_elems (?q, c - 1) = es"
    using c q len by (simp add: queue_elems_def o_def)
  ultimately show ?thesis
    using c q unfolding zq_pop_def by (auto intro!: wp_mono [OF queue_pop_run])
qed

lemma zq_pop_none:
  "queue_inv M (q, c) \<Longrightarrow> queue_elems (q, c) = [] \<Longrightarrow>
     wp (zq_pop (q, c)) (\<lambda>(r, qc) t. r = None \<and> qc = (q, c) \<and> t = s) no_fault s"
  using queue_inv_length [of M q c] by (simp add: zq_pop_def queue_pop_def wp_simps)

interpretation zq: fifo "zq_push M" zq_pop queue_elems "queue_inv M" M for M :: nat
proof (unfold_locales, goal_cases)
  case (1 qc e s)
  then show ?case by (cases qc) (simp add: zq_push_ok)
next
  case (2 qc e es s)
  then show ?case by (cases qc) (simp add: zq_pop_ok)
next
  case (3 qc s)
  then show ?case by (cases qc) (simp add: zq_pop_none)
qed

section \<open>Properties of the queue and of the clock\<close>

lemma queue_size_from_ok:
  assumes "i \<le> n" and "n < length q" and "None \<notin> set (take n q)" and "q ! n = None"
  shows "queue_size_from q i s = Inr (int n, s)"
  using assms(1)
proof (induction "n - i" arbitrary: i)
  case 0
  then have "i = n" by simp
  then show ?case using assms by (simp add: queue_size_from.simps run_simps)
next
  case (Suc k)
  then have "i < n" by simp
  then have "q ! i \<in> set (take n q)"
    using assms(2) by (metis in_set_conv_nth length_take min.absorb4 nth_take)
  then have "q ! i \<noteq> None" using assms(3) by metis
  then show ?case using Suc \<open>i < n\<close> assms(2) by (simp add: queue_size_from.simps [of q i])
qed

lemma queue_size_from_full:
  assumes "i \<le> length q" and "None \<notin> set q"
  shows "queue_size_from q i s = Inl OutOfBounds"
  using assms(1)
proof (induction "length q - i" arbitrary: i)
  case 0
  then show ?case by (simp add: queue_size_from.simps run_simps)
next
  case (Suc k)
  then have "i < length q" by simp
  moreover from this have "q ! i \<noteq> None" using assms(2) by (metis nth_mem)
  ultimately show ?case using Suc by (simp add: queue_size_from.simps [of q i])
qed

text \<open>
  C35. The queue in the pointer array behaves like a list: whatever sequence of pushes and pops is
  run on it, as long as no push meets a full queue, the pops return what they return on the list
  of its elements, the elements left are those of the list, and nothing else changes.
\<close>

theorem queue_equals_list:
  assumes "queue_inv M qc" and "list_queue M ops (queue_elems qc) = Some (rs, ys)"
  shows "wp (run_queue (zq_push M) zq_pop ops qc)
    (\<lambda>(rs', qc') t. rs' = rs \<and> queue_inv M qc' \<and> queue_elems qc' = ys \<and> t = s) no_fault s"
  using assms by (rule zq.run_queue_ok)

theorem queue_equals_list_witness:
  "wp (run_queue (zq_push 2) zq_pop [Push 7, Pop, Pop, Push 8, Push 9, Pop] ([None, None], 0))
    (\<lambda>(rs, qc') t. rs = [Some 7, None, Some 8] \<and> queue_elems qc' = [9])
    no_fault \<lparr>world = (), heap = Map.empty, fresh = 0, trace = []\<rparr>"
proof -
  have "queue_inv 2 ([None, None], 0)" "list_queue 2 [Push 7, Pop, Pop, Push 8, Push 9, Pop]
      (queue_elems ([None, None], 0)) = Some ([Some 7, None, Some 8], [9])"
    by (simp_all add: queue_inv_def queue_elems_def)
  then show ?thesis
    by (rule wp_then [OF queue_equals_list]) auto
qed

text \<open>
  First in, first out: pushing any list of elements that fits into an empty queue and then
  popping as often returns exactly these elements, in the order they were pushed, leaves the
  queue empty, touches neither heap nor output and never accesses the array out of bounds.
\<close>

theorem queue_first_in_first_out:
  assumes "queue_inv M qc" and "queue_elems qc = []" and "length es \<le> M"
  shows "wp (bnd (push_all (zq_push M) es qc) (\<lambda>qc'. pop_all zq_pop (length es) qc'))
    (\<lambda>(rs, qc') t. rs = map Some es \<and> queue_elems qc' = [] \<and> t = s) no_fault s"
  using assms by (rule zq.push_pop)

theorem queue_first_in_first_out_witness:
  "queue_inv 2 ([None, None], 0) \<and>
   wp (bnd (push_all (zq_push 2) [7, 9] ([None, None], 0)) (\<lambda>qc'. pop_all zq_pop 2 qc'))
    (\<lambda>(rs, qc') t. rs = [Some 7, Some 9] \<and> queue_elems qc' = [] \<and> t = \<lparr>world = (), heap = Map.empty, fresh = 0, trace = []\<rparr>) no_fault \<lparr>world = (), heap = Map.empty, fresh = 0, trace = []\<rparr>"
proof -
  have inv: "queue_inv 2 ([None, None], 0)" by (simp add: queue_inv_def)
  have el: "queue_elems ([None, None], 0) = []" by (simp add: queue_elems_def)
  show ?thesis
    using inv queue_first_in_first_out [OF inv el, of "[7, 9]" "\<lparr>world = (), heap = Map.empty, fresh = 0, trace = []\<rparr>"] by (simp add: numeral_2_eq_2)
qed

text \<open>
  A push into a full queue leaves the array and the fill count as they are, reports the
  dropped text on standard error and frees the dropped element, so nothing leaks.
\<close>

theorem queue_push_full:
  assumes "max_capacity \<le> c" and "heap s a = Some (BBytes b)" and "has_cstr b 0"
  shows "queue_push q c (Some a) max_capacity s =
    Inr ((q, c), s\<lparr>trace := trace s @ [PrintedErr (''ERR: Queue full, dropping element ''
           @ takeWhile (\<lambda>x. x \<noteq> NUL) b @ [CHR 0x0A])], heap := (heap s)(a := None)\<rparr>)"
proof -
  have "wp (queue_push q c (Some a) max_capacity)
      (\<lambda>r t. r = (q, c) \<and> t = s\<lparr>trace := trace s @ [PrintedErr (''ERR: Queue full, dropping element ''
           @ takeWhile (\<lambda>x. x \<noteq> NUL) b @ [CHR 0x0A])], heap := (heap s)(a := None)\<rparr>) no_fault s"
    using assms by (simp add: queue_push_def wp_simps wp_load_bytes)
  then show ?thesis by (auto dest: wp_runs)
qed

theorem queue_push_full_witness:
  "queue_push [Some 5] 1 (Some 6) 1 \<lparr>world = (), heap = [6 \<mapsto> BBytes [CHR ''x'', NUL]], fresh = 7, trace = []\<rparr> =
   Inr (([Some 5], 1), \<lparr>world = (), heap = Map.empty, fresh = 7,
     trace = [PrintedErr (''ERR: Queue full, dropping element x'' @ [CHR 0x0A])]\<rparr>)"
  by (subst queue_push_full [where b = "[CHR ''x'', NUL]"]) (simp_all add: has_cstr_def NUL_def)

text \<open>
  C36. \<open>queue_size\<close> counts the elements as long as a NULL slot is left behind them; when the
  queue has filled its whole array there is no such slot, and the count runs out of the array.
\<close>

theorem queue_size_spec:
  assumes "queue_inv M (q, c)"
  shows "queue_size q s =
    (if nat c < length q then Inr (int (length (queue_elems (q, c))), s) else Inl OutOfBounds)"
proof (cases "nat c < length q")
  case True
  then have "q ! nat c \<in> set (drop (nat c) q)"
    by (metis Cons_nth_drop_Suc list.set_intros(1))
  then have "q ! nat c = None" using assms by (simp add: queue_inv_def)
  then show ?thesis
    using True assms queue_inv_length [OF assms]
    by (simp add: queue_size_def queue_inv_def queue_size_from_ok [of 0 "nat c"])
next
  case False
  then have "None \<notin> set q" using assms by (simp add: queue_inv_def)
  then show ?thesis using False by (simp add: queue_size_def queue_size_from_full)
qed

theorem queue_size_spec_witness:
  "queue_size [Some 3, None] () = Inr (1, ()) \<and> queue_size [Some 3, Some 4] () = Inl OutOfBounds"
proof -
  have one: "queue_inv 2 ([Some 3, None], 1)" and two: "queue_inv 2 ([Some 3, Some 4], 2)"
    by (simp_all add: queue_inv_def numeral_2_eq_2)
  show ?thesis
    using queue_size_spec [OF one, of "()"] queue_size_spec [OF two, of "()"]
    by (simp add: queue_elems_def)
qed

text \<open>
  For a non-negative delay the \<open>timespec\<close> is exact and normalised: seconds and nanoseconds
  add up to the requested milliseconds, and the nanoseconds are below a second.
\<close>

theorem delay_ms_exact:
  assumes "0 \<le> ms"
  shows "case delay_ms ms of (sec, nsec) \<Rightarrow>
    0 \<le> sec \<and> 0 \<le> nsec \<and> nsec < 1000000000 \<and> sec * 1000000000 + nsec = ms * 1000000"
proof -
  have q: "ms sdiv 1000 = ms div 1000" "ms smod 1000 = ms mod 1000"
    using assms by (simp_all add: signed_divide_int_def signed_modulo_int_def sgn_if)
  obtain d m where d: "ms div 1000 = d" and m: "ms mod 1000 = m" by blast
  have "ms = 1000 * d + m" using d m by (metis mult_div_mod_eq)
  moreover have "0 \<le> m" "m < 1000" "0 \<le> d" using d m assms by auto
  moreover have "delay_ms ms = (d, m * 1000000)" by (simp add: delay_ms_def q d m)
  ultimately show ?thesis by simp
qed

theorem delay_ms_exact_witness: "delay_ms 2500 = (2, 500000000)"
  using delay_ms_exact [of 2500] by (simp add: delay_ms_def signed_divide_int_def signed_modulo_int_def)

end
