(* ===== verification/Sample_World.thy ===== *)
theory Sample_World
  imports Machine
begin

text \<open>
  One concrete environment for \<open>ext\<close>, a script of what the calls return: the messages
  \<open>zmq_recv\<close> delivers, the frames \<open>zmq_msg_recv\<close> delivers, the results of the polls, the
  envelopes the unpacker produces and the lines of the terminal, each consumed in order.
  Sockets get consecutive handles and every other call succeeds. It shows that the
  assumptions the properties make about the environment can hold together, and is what
  their witnesses run on; nothing in the components depends on it.
\<close>

record script =
  next_handle :: nat
  inbox :: "string list"
  frames_in :: "(string \<times> bool) list"
  polls :: "(int \<times> bool list) list"
  envelopes :: "envelope option list"
  lines_in :: "string list"

definition empty_script :: script where
  "empty_script = \<lparr>next_handle = 0, inbox = [], frames_in = [], polls = [], envelopes = [],
     lines_in = []\<rparr>"

fun sim_recv :: "nat \<Rightarrow> script \<Rightarrow> (int \<times> string) \<times> script" where
  "sim_recv n w = (case inbox w of [] \<Rightarrow> ((-1, []), w)
     | m # ms \<Rightarrow> ((int (length m), take n m), w\<lparr>inbox := ms\<rparr>))"

fun sim_msg_recv :: "script \<Rightarrow> (int \<times> string \<times> bool) \<times> script" where
  "sim_msg_recv w = (case frames_in w of [] \<Rightarrow> ((-1, [], False), w)
     | (d, mr) # fs \<Rightarrow> ((int (length d), d, mr), w\<lparr>frames_in := fs\<rparr>))"

fun sim_poll :: "script \<Rightarrow> (int \<times> bool list) \<times> script" where
  "sim_poll w = (case polls w of [] \<Rightarrow> ((-1, []), w) | p # ps \<Rightarrow> (p, w\<lparr>polls := ps\<rparr>))"

fun sim_unpack :: "script \<Rightarrow> envelope option \<times> script" where
  "sim_unpack w = (case envelopes w of [] \<Rightarrow> (None, w) | e # es \<Rightarrow> (e, w\<lparr>envelopes := es\<rparr>))"

fun sim_line :: "nat \<Rightarrow> script \<Rightarrow> string option \<times> script" where
  "sim_line n w = (case lines_in w of [] \<Rightarrow> (None, w)
     | l # ls \<Rightarrow> (if take n l = [] then None else Some (take n l), w\<lparr>lines_in := ls\<rparr>))"

definition sim_ext :: "script ext" where
  "sim_ext = \<lparr>
     x_malloc = (\<lambda>n w. (True, w)),
     x_uninit = (\<lambda>n w. []),
     x_strerror = (\<lambda>w. ''error''),
     x_eintr = (\<lambda>w. False),
     x_time = (\<lambda>w. (0, w)),
     x_socket = (\<lambda>k w. (Some (next_handle w), w\<lparr>next_handle := Suc (next_handle w)\<rparr>)),
     x_close = (\<lambda>h w. w),
     x_setsockopt = (\<lambda>h opt v w. (0, w)),
     x_connect = (\<lambda>h ep w. (0, w)),
     x_bind = (\<lambda>h ep w. (0, w)),
     x_send = (\<lambda>h d fl w. (int (length d), w)),
     x_recv = (\<lambda>h n fl w. sim_recv n w),
     x_msg_init_size = (\<lambda>n w. (0, w)),
     x_msg_send = (\<lambda>h d fl w. (int (length d), w)),
     x_msg_recv = (\<lambda>h fl w. sim_msg_recv w),
     x_poll = (\<lambda>items tm w. sim_poll w),
     x_packed_size = (\<lambda>e. length (message_id e)),
     x_pack = message_id,
     x_unpack = (\<lambda>d w. sim_unpack w),
     x_scanf_word = sim_line,
     x_fgets = sim_line,
     x_ctx_new = (\<lambda>w. (Some 0, w)),
     x_created = (\<lambda>th w. True),
     x_join = (\<lambda>th w. w),
     x_pipe = (\<lambda>w. (Some (3, 4), w)),
     x_getfl = (\<lambda>fd w. (0, w)),
     x_setfl = (\<lambda>fd fl w. (0, w)),
     x_sigaction = (\<lambda>sig w. (0, w)),
     x_write = (\<lambda>fd d w. (int (length d), w))\<rparr>"

definition sim_state :: "script \<Rightarrow> script st" where
  "sim_state w = \<lparr>world = w, heap = Map.empty, fresh = 0, trace = []\<rparr>"

lemma sim_ext_simps [simp]:
  "x_malloc sim_ext n w = (True, w)"
  "x_uninit sim_ext n w = []"
  "x_strerror sim_ext w = ''error''"
  "x_eintr sim_ext w = False"
  "x_time sim_ext w = (0, w)"
  "x_socket sim_ext k w = (Some (next_handle w), w\<lparr>next_handle := Suc (next_handle w)\<rparr>)"
  "x_close sim_ext h w = w"
  "x_setsockopt sim_ext h opt v w = (0, w)"
  "x_connect sim_ext h ep w = (0, w)"
  "x_bind sim_ext h ep w = (0, w)"
  "x_send sim_ext h d fl w = (int (length d), w)"
  "x_recv sim_ext h n fl w = sim_recv n w"
  "x_msg_init_size sim_ext n w = (0, w)"
  "x_msg_send sim_ext h d fl w = (int (length d), w)"
  "x_msg_recv sim_ext h fl w = sim_msg_recv w"
  "x_poll sim_ext items tm w = sim_poll w"
  "x_packed_size sim_ext e = length (message_id e)"
  "x_pack sim_ext e = message_id e"
  "x_unpack sim_ext d w = sim_unpack w"
  "x_scanf_word sim_ext n w = sim_line n w"
  "x_fgets sim_ext n w = sim_line n w"
  "x_ctx_new sim_ext w = (Some 0, w)" "x_created sim_ext th w" "x_join sim_ext th w = w" "x_pipe sim_ext w = (Some (3, 4), w)"
  "x_getfl sim_ext fd w = (0, w)" "x_setfl sim_ext fd flags w = (0, w)"
  "x_sigaction sim_ext sig w = (0, w)" "x_write sim_ext fd d w = (int (length d), w)"
  by (simp_all add: sim_ext_def)

lemma sim_state_simps [simp]:
  "world (sim_state w) = w"
  "heap (sim_state w) = Map.empty"
  "fresh (sim_state w) = 0"
  "trace (sim_state w) = []"
  by (simp_all add: sim_state_def)

lemma sim_malloc_total [simp]: "malloc_total sim_ext"
  by (simp add: malloc_total_def)

lemma sim_malloc_law [simp]: "malloc_law sim_ext"
  by (simp add: malloc_law_def)

lemma sim_pack_law [simp]: "pack_law sim_ext"
  by (simp add: pack_law_def)

lemma sim_recv_law [simp]: "recv_law sim_ext"
  by (auto simp: recv_law_def split: list.splits)

lemma sim_state_ok [simp]: "heap_ok (sim_state w)"
  by (simp add: heap_ok_def)


text \<open>The same environment with peers that send no message longer than the receive buffer.\<close>

definition sim_short :: "script ext" where
  "sim_short = sim_ext\<lparr>x_recv := (\<lambda>h n fl w. case sim_recv n w of ((rc, d), w') \<Rightarrow>
     ((if rc < 0 then rc else int (length d), d), w'))\<rparr>"

text \<open>A state in which five socket wrappers are alive, with the handles 10 to 14.\<close>

definition sim_sockets :: "script \<Rightarrow> script st" where
  "sim_sockets w = \<lparr>world = w, heap = (\<lambda>a. if a < 5 then Some (BSock (10 + a)) else None),
     fresh = 5, trace = []\<rparr>"

lemma sim_sockets_simps [simp]:
  "world (sim_sockets w) = w" "fresh (sim_sockets w) = 5" "trace (sim_sockets w) = []"
  "heap (sim_sockets w) a = (if a < 5 then Some (BSock (10 + a)) else None)"
  "heap_ok (sim_sockets w)"
  by (simp_all add: sim_sockets_def heap_ok_def)

lemma sim_short_laws [simp]:
  "recv_law sim_short" "pack_law sim_short" "malloc_law sim_short"
proof -
  have "\<exists>m'. min (length m) n = length m' \<and> take n m = take n m'" for m :: string and n
    by (rule exI [of _ "take n m"]) (simp add: min.commute)
  then show "recv_law sim_short" "pack_law sim_short" "malloc_law sim_short"
    by (auto simp: sim_short_def recv_law_def pack_law_def malloc_law_def sim_ext_def
        split: list.splits prod.splits)
qed

lemma sim_short_recv [simp]:
  "x_recv sim_short h n fl w = (case inbox w of [] \<Rightarrow> ((-1, []), w)
     | m # ms \<Rightarrow> ((int (length (take n m)), take n m), w\<lparr>inbox := ms\<rparr>))"
  by (simp add: sim_short_def split: list.split)

lemma sim_short_same [simp]:
  "x_malloc sim_short = x_malloc sim_ext" "x_uninit sim_short = x_uninit sim_ext"
  "x_strerror sim_short = x_strerror sim_ext" "x_eintr sim_short = x_eintr sim_ext"
  "x_time sim_short = x_time sim_ext" "x_close sim_short = x_close sim_ext"
  "x_setsockopt sim_short = x_setsockopt sim_ext" "x_send sim_short = x_send sim_ext"
  "x_poll sim_short = x_poll sim_ext" "x_packed_size sim_short = x_packed_size sim_ext"
  "x_pack sim_short = x_pack sim_ext" "x_unpack sim_short = x_unpack sim_ext"
  "x_fgets sim_short = x_fgets sim_ext" "x_connect sim_short = x_connect sim_ext"
  by (simp_all add: sim_short_def)

lemma sim_short_fits [simp]: "fits sim_short n"
  by (auto simp: fits_def split: list.split)

end
