(* ===== verification/Messages.thy ===== *)
theory Messages
  imports Sample_World
begin

unbundle bit_operations_syntax

text \<open>
  \<open>utils/zmq_messages.c\<close>: multi-part messages. The structure and its frame array live on the
  heap of the model as they do in the code, so that allocation failures, the growth of the
  array by \<open>realloc\<close> and the release of every block are part of the definitions. The relation
  \<open>msg_rep\<close> says which frames a structure on the heap represents and which addresses it owns;
  a function that keeps what lies outside those addresses neither leaks nor frees too much.
\<close>

section \<open>The code\<close>

definition load_msg :: "ptr \<Rightarrow> ('w st, ptr \<times> nat) prog" where
  "load_msg p = bnd (load p) (\<lambda>b. case b of BMsg fp n \<Rightarrow> ret (fp, n) | _ \<Rightarrow> fail DeadPointer)"

definition load_frames :: "ptr \<Rightarrow> ('w st, (ptr \<times> nat) option list) prog" where
  "load_frames p = bnd (load p) (\<lambda>b. case b of BFrames xs \<Rightarrow> ret xs | _ \<Rightarrow> fail DeadPointer)"

text \<open>\<open>frames[i]\<close>: outside the array, or in a slot never written, there is nothing to read.\<close>

definition frame_at :: "ptr \<Rightarrow> nat \<Rightarrow> ('w st, ptr \<times> nat) prog" where
  "frame_at fp i = bnd (load_frames fp) (\<lambda>xs.
     if i < length xs then (case xs ! i of None \<Rightarrow> fail OutOfBounds | Some f \<Rightarrow> ret f)
     else fail OutOfBounds)"

definition set_frame :: "ptr \<Rightarrow> nat \<Rightarrow> ptr \<times> nat \<Rightarrow> ('w st, unit) prog" where
  "set_frame fp i f = bnd (load_frames fp) (\<lambda>xs.
     if i < length xs then store fp (BFrames (xs[i := Some f])) else fail OutOfBounds)"

text \<open>\<open>realloc(frames, sizeof(zmq_message_frame_t) * k)\<close>; a failure leaves the old array.\<close>

definition realloc_frames :: "'w ext \<Rightarrow> ptr \<Rightarrow> nat \<Rightarrow> ('w st, ptr) prog" where
  "realloc_frames E p k =
     bnd (ask (x_malloc E (16 * k))) (\<lambda>ok.
     if \<not> ok then ret None
     else (case p of None \<Rightarrow> alloc (BFrames (replicate k None))
       | Some a \<Rightarrow> bnd (load_frames p) (\<lambda>xs. bnd (free p) (\<lambda>_.
           alloc (BFrames (take k xs @ replicate (k - length xs) None))))))"

definition message_new :: "'w ext \<Rightarrow> ('w st, ptr) prog" where
  "message_new E =
     bnd (malloc E 16) (\<lambda>msg.
     if msg = None then ret None
     else bnd (store msg (BMsg None 0)) (\<lambda>_. ret msg))"

function free_frames_from :: "ptr \<Rightarrow> nat \<Rightarrow> nat \<Rightarrow> ('w st, unit) prog" where
  "free_frames_from fp i n =
     (if i < n then
        bnd (frame_at fp i) (\<lambda>(data, size). bnd (free data) (\<lambda>_. free_frames_from fp (Suc i) n))
      else ret ())"
  by pat_completeness auto
termination
  by (relation "measure (\<lambda>(fp, i, n). n - i)") auto

declare free_frames_from.simps [simp del]

text \<open>
  \<open>message_destroy\<close> takes the address of a variable: \<open>None\<close> is the null address, \<open>Some p\<close> a
  variable that holds \<open>p\<close>. The result is the variable afterwards.
\<close>

definition message_destroy :: "ptr option \<Rightarrow> ('w st, ptr option) prog" where
  "message_destroy msg_ptr =
     (case msg_ptr of
        None \<Rightarrow> ret None
      | Some None \<Rightarrow> ret (Some None)
      | Some (Some a) \<Rightarrow>
          bnd (load_msg (Some a)) (\<lambda>(frames, count).
          bnd (free_frames_from frames 0 count) (\<lambda>_.
          bnd (free frames) (\<lambda>_.
          bnd (free (Some a)) (\<lambda>_. ret (Some None))))))"

text \<open>The last three assignments of \<open>message_add_frame\<close>: the slot's fields and the count.\<close>

definition append_frame :: "ptr \<Rightarrow> ptr \<Rightarrow> nat \<Rightarrow> ptr \<times> nat \<Rightarrow> ('w st, unit) prog" where
  "append_frame self frames count f =
     bnd (set_frame frames count f) (\<lambda>_. store self (BMsg frames (count + 1)))"

definition message_add_frame :: "'w ext \<Rightarrow> ptr \<Rightarrow> string \<Rightarrow> nat \<Rightarrow> ('w st, int) prog" where
  "message_add_frame E self data sz =
     (if self = None then ret (-1)
      else
        bnd (load_msg self) (\<lambda>(frames, count).
        bnd (realloc_frames E frames (count + 1)) (\<lambda>new_frames.
        if new_frames = None then ret (-1)
        else
          bnd (store self (BMsg new_frames count)) (\<lambda>_.
          bnd (malloc E sz) (\<lambda>frame_data.
          if frame_data = None \<and> 0 < sz then ret (-1)
          else
            bnd (only_if (0 < sz) (bnd (read_bytes data sz) (\<lambda>d. store frame_data (BBytes d)))) (\<lambda>_.
            bnd (append_frame self new_frames count (frame_data, sz)) (\<lambda>_. ret 0)))))))"

text \<open>The \<open>do ... while (more)\<close> loop: the peer decides how many frames there are.\<close>

fun message_recv_loop :: "'w ext \<Rightarrow> nat \<Rightarrow> nat \<Rightarrow> ptr \<Rightarrow> ('w st, ptr) prog" where
  "message_recv_loop E 0 socket msg = fail OutOfFuel"
| "message_recv_loop E (Suc fuel) socket msg =
     bnd (emit ZMsgInit) (\<lambda>_.
     bnd (z_msg_recv E socket 0) (\<lambda>(rc, data, mr).
     if rc = -1 then
       bnd (report E ''E: message_receive failed: '') (\<lambda>_.
       bnd (emit ZMsgClose) (\<lambda>_.
       bnd (message_destroy (Some msg)) (\<lambda>_. ret None)))
     else
       bnd (message_add_frame E msg data (length data)) (\<lambda>r.
       if r \<noteq> 0 then
         bnd (emit ZMsgClose) (\<lambda>_.
         bnd (message_destroy (Some msg)) (\<lambda>_. ret None))
       else
         bnd (emit ZMsgClose) (\<lambda>_.
         if mr then message_recv_loop E fuel socket msg else ret msg))))"

definition message_recv :: "'w ext \<Rightarrow> nat \<Rightarrow> nat \<Rightarrow> ('w st, ptr) prog" where
  "message_recv E fuel socket =
     bnd (message_new E) (\<lambda>msg.
     if msg = None then ret None else message_recv_loop E fuel socket msg)"

text \<open>\<open>memcpy(zmq_msg_data(&frame), self->frames[i].data, len)\<close>.\<close>

definition frame_bytes :: "ptr \<Rightarrow> nat \<Rightarrow> ('w st, string) prog" where
  "frame_bytes data len =
     (if len = 0 then ret [] else bnd (load_bytes data) (\<lambda>d. read_bytes d len))"

definition part_flags :: "cflags \<Rightarrow> nat \<Rightarrow> nat \<Rightarrow> cflags" where
  "part_flags flags i count = (if i < count - 1 then flags OR ZMQ_SNDMORE else flags)"

function message_send_from ::
    "'w ext \<Rightarrow> ptr \<Rightarrow> nat \<Rightarrow> cflags \<Rightarrow> nat \<Rightarrow> nat \<Rightarrow> ('w st, int) prog" where
  "message_send_from E frames socket flags i count =
     (if i < count then
        bnd (frame_at frames i) (\<lambda>(data, len).
        bnd (z_msg_init_size E len) (\<lambda>rc.
        if rc \<noteq> 0 then ret (-1)
        else
          bnd (frame_bytes data len) (\<lambda>bytes.
          bnd (z_msg_send E socket bytes (part_flags flags i count)) (\<lambda>rc.
          if rc = -1 then
            bnd (report E ''E: message_send failed: '') (\<lambda>_.
            bnd (emit ZMsgClose) (\<lambda>_. ret (-1)))
          else
            bnd (emit ZMsgClose) (\<lambda>_.
            message_send_from E frames socket flags (Suc i) count)))))
      else ret 0)"
  by pat_completeness auto
termination
  by (relation "measure (\<lambda>(E, fp, socket, flags, i, n). n - i)") auto

declare message_send_from.simps [simp del]

definition message_send :: "'w ext \<Rightarrow> ptr \<Rightarrow> nat \<Rightarrow> cflags \<Rightarrow> ('w st, int) prog" where
  "message_send E self socket flags =
     (if self = None then ret (-1)
      else
        bnd (load_msg self) (\<lambda>(frames, count).
        if count = 0 then ret (-1)
        else message_send_from E frames socket flags 0 count))"

section \<open>What a structure on the heap represents\<close>

definition opt_list :: "'a option \<Rightarrow> 'a list" where
  "opt_list x = (case x of None \<Rightarrow> [] | Some a \<Rightarrow> [a])"

lemma opt_list_simps [simp]: "opt_list None = []" "opt_list (Some a) = [a]"
  by (simp_all add: opt_list_def)

definition data_rep :: "(nat \<rightharpoonup> block) \<Rightarrow> ptr \<Rightarrow> string \<Rightarrow> bool" where
  "data_rep h d f \<longleftrightarrow>
     (case d of None \<Rightarrow> f = [] | Some a \<Rightarrow> h a = Some (if f = [] then BRaw 0 else BBytes f))"

definition frame_slots :: "ptr list \<Rightarrow> string list \<Rightarrow> (ptr \<times> nat) option list" where
  "frame_slots ds fs = map2 (\<lambda>d f. Some (d, length f)) ds fs"

definition msg_addrs :: "nat \<Rightarrow> ptr \<Rightarrow> ptr list \<Rightarrow> nat list" where
  "msg_addrs a fp ds = a # opt_list fp @ concat (map opt_list ds)"

text \<open>
  \<open>msg_rep h a fp ds fs\<close>: on heap \<open>h\<close> the structure at \<open>a\<close> has the frame array \<open>fp\<close>, whose used
  slots point to the blocks \<open>ds\<close> holding the frames \<open>fs\<close>, and all these blocks are distinct.
\<close>

definition msg_rep ::
    "(nat \<rightharpoonup> block) \<Rightarrow> nat \<Rightarrow> ptr \<Rightarrow> ptr list \<Rightarrow> string list \<Rightarrow> bool" where
  "msg_rep h a fp ds fs \<longleftrightarrow>
     h a = Some (BMsg fp (length fs)) \<and> length ds = length fs \<and>
     (case fp of None \<Rightarrow> fs = []
      | Some b \<Rightarrow> \<exists>pad. h b = Some (BFrames (frame_slots ds fs @ pad))) \<and>
     list_all2 (data_rep h) ds fs \<and> distinct (msg_addrs a fp ds)"

text \<open>The heap without the blocks of a message: what no operation on the message may change.\<close>

definition heap_off :: "(nat \<rightharpoonup> block) \<Rightarrow> nat list \<Rightarrow> nat \<rightharpoonup> block" where
  "heap_off h as = (\<lambda>x. if x \<in> set as then None else h x)"

section \<open>Heap lemmas\<close>

lemma heap_off_apply: "heap_off h as x = (if x \<in> set as then None else h x)"
  by (simp add: heap_off_def)

lemma heap_off_nil [simp]: "heap_off h [] = h"
  by (simp add: heap_off_def)

lemma heap_off_delete: "heap_off (h(a := None)) as = heap_off h (a # as)"
  by (rule ext) (simp add: heap_off_def)

lemma heap_off_single: "h(a := None) = heap_off h [a]"
  by (rule ext) (simp add: heap_off_def)

lemma heap_off_update: "a \<in> set as \<Longrightarrow> heap_off (h(a := x)) as = heap_off h as"
  by (rule ext) (auto simp: heap_off_def)

lemma heap_off_update_other: "a \<notin> set as \<Longrightarrow> heap_off (h(a := x)) as = (heap_off h as)(a := x)"
  by (rule ext) (auto simp: heap_off_def)

lemma data_rep_cong:
  "(\<And>x. x \<in> set (opt_list d) \<Longrightarrow> h' x = h x) \<Longrightarrow> data_rep h d f \<Longrightarrow> data_rep h' d f"
  by (auto simp: data_rep_def split: option.splits)

lemma data_reps_cong:
  assumes "\<And>x. x \<in> set (concat (map opt_list ds)) \<Longrightarrow> h' x = h x"
    and "list_all2 (data_rep h) ds fs"
  shows "list_all2 (data_rep h') ds fs"
  using assms(2,1) by (induction rule: list_all2_induct) (auto intro: data_rep_cong)

lemma frame_slots_length [simp]: "length ds = length fs \<Longrightarrow> length (frame_slots ds fs) = length fs"
  by (simp add: frame_slots_def)

lemma frame_slots_nth:
  "length ds = length fs \<Longrightarrow> i < length fs \<Longrightarrow> frame_slots ds fs ! i = Some (ds ! i, length (fs ! i))"
  by (simp add: frame_slots_def)

lemma frame_slots_snoc:
  "length ds = length fs \<Longrightarrow> frame_slots (ds @ [d]) (fs @ [f]) = frame_slots ds fs @ [Some (d, length f)]"
  by (simp add: frame_slots_def)

lemma wp_load_msg:
  "heap s a = Some (BMsg fp n) \<Longrightarrow> wp (load_msg (Some a)) Q F s = Q (fp, n) s"
  by (simp add: load_msg_def wp_simps)

lemma wp_load_frames:
  "heap s a = Some (BFrames xs) \<Longrightarrow> wp (load_frames (Some a)) Q F s = Q xs s"
  by (simp add: load_frames_def wp_simps)

lemma wp_frame_at:
  assumes "heap s b = Some (BFrames (frame_slots ds fs @ pad))"
    and "length ds = length fs" and "i < length fs"
  shows "wp (frame_at (Some b) i) Q F s = Q (ds ! i, length (fs ! i)) s"
  using assms by (simp add: frame_at_def wp_simps wp_load_frames nth_append frame_slots_nth)

lemma wp_set_frame:
  "heap s b = Some (BFrames xs) \<Longrightarrow> i < length xs \<Longrightarrow>
     wp (set_frame (Some b) i f) Q F s = Q () (s\<lparr>heap := (heap s)(b \<mapsto> BFrames (xs[i := Some f]))\<rparr>)"
  by (simp add: set_frame_def wp_simps wp_load_frames)

text \<open>Releasing the data of the frames from the \<open>i\<close>-th on.\<close>

lemma free_frames_from_ok:
  assumes "heap s b = Some (BFrames (frame_slots ds fs @ pad))"
    and "length ds = length fs" and "n = length fs"
    and "list_all2 (data_rep (heap s)) (drop i ds) (drop i fs)"
    and "distinct (b # concat (map opt_list (drop i ds)))"
  shows "wp (free_frames_from (Some b) i n)
    (\<lambda>_ t. t = s\<lparr>heap := heap_off (heap s) (concat (map opt_list (drop i ds)))\<rparr>) no_fault s"
  using assms
proof (induction "n - i" arbitrary: i s)
  case 0
  then show ?case by (simp add: free_frames_from.simps wp_simps)
next
  case (Suc k)
  then have i: "i < length fs" "i < length ds" by simp_all
  have dd: "drop i ds = ds ! i # drop (Suc i) ds" "drop i fs = fs ! i # drop (Suc i) fs"
    using i by (simp_all add: Cons_nth_drop_Suc)
  show ?case
  proof (cases "ds ! i")
    case None
    then show ?thesis
      using Suc i dd
      by (simp add: free_frames_from.simps [of "Some b" i] wp_simps wp_frame_at)
  next
    case (Some a)
    let ?s = "s\<lparr>heap := (heap s)(a := None)\<rparr>"
    have a: "heap s a \<noteq> None" "a \<noteq> b" "a \<notin> set (concat (map opt_list (drop (Suc i) ds)))"
      using Suc.prems dd Some by (auto simp: data_rep_def)
    have "list_all2 (data_rep (heap ?s)) (drop (Suc i) ds) (drop (Suc i) fs)"
    proof (rule data_reps_cong [where h = "heap s"])
      show "heap ?s x = heap s x" if "x \<in> set (concat (map opt_list (drop (Suc i) ds)))" for x
        using that a(3) by auto
      show "list_all2 (data_rep (heap s)) (drop (Suc i) ds) (drop (Suc i) fs)"
        using Suc.prems(4) dd by simp
    qed
    then have "wp (free_frames_from (Some b) (Suc i) n)
      (\<lambda>_ t. t = ?s\<lparr>heap := heap_off (heap ?s) (concat (map opt_list (drop (Suc i) ds)))\<rparr>) no_fault ?s"
      using Suc.prems dd a Suc.hyps(2) by (intro Suc.hyps(1)) auto
    then show ?thesis
      using Suc i dd a Some
      by (auto simp: free_frames_from.simps [of "Some b" i] wp_simps wp_frame_at heap_off_delete)
  qed
qed

lemma message_destroy_ok:
  assumes "msg_rep (heap s) a fp ds fs"
  shows "wp (message_destroy (Some (Some a)))
    (\<lambda>r t. r = Some None \<and> t = s\<lparr>heap := heap_off (heap s) (msg_addrs a fp ds)\<rparr>) no_fault s"
proof (cases fp)
  case None
  with assms show ?thesis
    by (auto simp: message_destroy_def wp_simps wp_load_msg msg_rep_def msg_addrs_def
        free_frames_from.simps [of _ 0 0] heap_off_single)
next
  case (Some b)
  then obtain pad where rep: "heap s a = Some (BMsg (Some b) (length fs))"
    "length ds = length fs" "heap s b = Some (BFrames (frame_slots ds fs @ pad))"
    "list_all2 (data_rep (heap s)) ds fs"
    "distinct (b # concat (map opt_list ds))" "a \<noteq> b" "a \<notin> set (concat (map opt_list ds))"
    "b \<notin> set (concat (map opt_list ds))"
    using assms by (auto simp: msg_rep_def msg_addrs_def)
  have fr: "wp (free_frames_from (Some b) 0 (length fs))
      (\<lambda>_ t. t = s\<lparr>heap := heap_off (heap s) (concat (map opt_list ds))\<rparr>) no_fault s"
    using free_frames_from_ok [of s b ds fs pad "length fs" 0] rep by simp
  have "wp (free_frames_from (Some b) 0 (length fs))
      (\<lambda>_. wp (bnd (free (Some b)) (\<lambda>_. bnd (free (Some a)) (\<lambda>_. ret (Some None))))
        (\<lambda>r t. r = Some None \<and> t = s\<lparr>heap := heap_off (heap s) (msg_addrs a fp ds)\<rparr>) no_fault)
      no_fault s"
    by (rule wp_mono [OF fr])
      (use rep Some in \<open>auto simp: wp_simps msg_addrs_def heap_off_def fun_eq_iff\<close>)
  then show ?thesis
    using rep Some by (simp add: message_destroy_def wp_simps wp_load_msg)
qed

section \<open>Building a message\<close>

lemma msg_addrs_alive:
  assumes "msg_rep h a fp ds fs" and "x \<in> set (msg_addrs a fp ds)"
  shows "h x \<noteq> None"
proof -
  have "h x \<noteq> None" if "x \<in> set (concat (map opt_list ds))" "list_all2 (data_rep h) ds fs"
    using that(2,1)
    by (induction rule: list_all2_induct) (auto simp: data_rep_def split: option.splits)
  with assms show ?thesis
    by (cases fp) (auto simp: msg_rep_def msg_addrs_def)
qed

lemma msg_addrs_below:
  "heap_ok s \<Longrightarrow> msg_rep (heap s) a fp ds fs \<Longrightarrow> fresh s \<le> x \<Longrightarrow> x \<notin> set (msg_addrs a fp ds)"
  using msg_addrs_alive unfolding heap_ok_def by blast

lemma message_new_ok:
  assumes "heap_ok s"
  shows "wp (message_new E) (\<lambda>r t. heap_ok t \<and> trace t = trace s \<and>
      (malloc_total E \<longrightarrow> r \<noteq> None \<and> world t = world s) \<and>
      (case r of None \<Rightarrow> heap t = heap s
       | Some a \<Rightarrow> msg_rep (heap t) a None [] [] \<and> heap_off (heap t) (msg_addrs a None []) = heap s))
    no_fault s"
  using assms
  by (auto simp: message_new_def wp_simps heap_ok_def msg_rep_def msg_addrs_def heap_off_def
      fun_eq_iff malloc_totalD split: prod.split)

lemma realloc_frames_ok:
  assumes "heap_ok s" and "msg_rep (heap s) a fp ds fs"
  shows "wp (realloc_frames E fp (Suc (length fs)))
    (\<lambda>r t. trace t = trace s \<and> (malloc_total E \<longrightarrow> r \<noteq> None \<and> world t = world s) \<and>
       (r = None \<and> heap t = heap s \<and> fresh t = fresh s \<or>
        (\<exists>x. r = Some (fresh s) \<and> fresh t = Suc (fresh s) \<and>
          heap t = (heap_off (heap s) (opt_list fp))(fresh s \<mapsto> BFrames (frame_slots ds fs @ [x])))))
    no_fault s"
proof (cases fp)
  case None
  with assms have "fs = []" "ds = []" by (auto simp: msg_rep_def)
  with None show ?thesis
    by (auto simp: realloc_frames_def wp_simps frame_slots_def malloc_totalD split: prod.split)
next
  case (Some b)
  with assms obtain pad where h: "heap s b = Some (BFrames (frame_slots ds fs @ pad))"
      and len: "length ds = length fs"
    by (auto simp: msg_rep_def)
  have "\<exists>x. take (Suc (length fs)) (frame_slots ds fs @ pad)
      @ replicate (Suc (length fs) - length (frame_slots ds fs @ pad)) None = frame_slots ds fs @ [x]"
    using len by (cases pad) auto
  then show ?thesis
    using Some h
    by (auto simp: realloc_frames_def wp_simps wp_load_frames heap_off_single malloc_totalD
        split: prod.split)
qed

text \<open>The structure with its array moved to a fresh, larger block.\<close>

lemma msg_rep_grow:
  assumes rep: "msg_rep h a fp ds fs" and new: "h b = None"
    and h': "h' = (heap_off h (opt_list fp))
      (b \<mapsto> BFrames (frame_slots ds fs @ [x]), a \<mapsto> BMsg (Some b) (length fs))"
  shows "msg_rep h' a (Some b) ds fs"
    and "heap_off h' (msg_addrs a (Some b) ds) = heap_off h (msg_addrs a fp ds)"
proof -
  have nb: "b \<notin> set (msg_addrs a fp ds)"
    using msg_addrs_alive [OF rep] new by blast
  have out: "a \<notin> set (opt_list fp)" "\<And>y. y \<in> set (concat (map opt_list ds)) \<Longrightarrow> y \<notin> set (opt_list fp)"
      "a \<notin> set (concat (map opt_list ds))"
    using rep by (auto simp: msg_rep_def msg_addrs_def)
  have "list_all2 (data_rep h') ds fs"
  proof (rule data_reps_cong)
    show "list_all2 (data_rep h) ds fs" using rep by (simp add: msg_rep_def)
    show "h' y = h y" if "y \<in> set (concat (map opt_list ds))" for y
      using that out nb unfolding h' by (auto simp: heap_off_def msg_addrs_def)
  qed
  then show "msg_rep h' a (Some b) ds fs"
    using rep nb unfolding h' by (auto simp: msg_rep_def msg_addrs_def)
  show "heap_off h' (msg_addrs a (Some b) ds) = heap_off h (msg_addrs a fp ds)"
    using new unfolding h' by (auto simp: heap_off_def msg_addrs_def fun_eq_iff)
qed

text \<open>The next slot filled in and the count raised.\<close>

lemma msg_rep_snoc:
  assumes rep: "msg_rep h a (Some b) ds fs" and new: "\<And>y. y \<in> set (opt_list d) \<Longrightarrow> h y = None"
    and blk: "data_rep h1 d f" and off: "\<And>y. y \<notin> set (opt_list d) \<Longrightarrow> h1 y = h y"
    and h': "h' = h1(b \<mapsto> BFrames (frame_slots ds fs @ [Some (d, length f)]),
                     a \<mapsto> BMsg (Some b) (Suc (length fs)))"
  shows "msg_rep h' a (Some b) (ds @ [d]) (fs @ [f])"
    and "heap_off h' (msg_addrs a (Some b) (ds @ [d])) = heap_off h (msg_addrs a (Some b) ds)"
proof -
  have nd: "y \<notin> set (msg_addrs a (Some b) ds)" if "y \<in> set (opt_list d)" for y
    using that msg_addrs_alive [OF rep, of y] new [of y] by metis
  have out: "a \<noteq> b" "a \<notin> set (concat (map opt_list ds))" "b \<notin> set (concat (map opt_list ds))"
      "length ds = length fs" "list_all2 (data_rep h) ds fs"
    using rep by (auto simp: msg_rep_def msg_addrs_def)
  have "list_all2 (data_rep h') ds fs"
  proof (rule data_reps_cong [OF _ out(5)])
    show "h' y = h y" if y: "y \<in> set (concat (map opt_list ds))" for y
    proof -
      have "y \<notin> set (opt_list d)" using nd y by (auto simp: msg_addrs_def)
      moreover have "y \<noteq> a" "y \<noteq> b" using y out by blast+
      ultimately show ?thesis using off by (simp add: h')
    qed
  qed
  moreover have "data_rep h' d f"
    by (rule data_rep_cong [OF _ blk]) (use nd in \<open>auto simp: h' msg_addrs_def\<close>)
  moreover have "distinct (msg_addrs a (Some b) (ds @ [d]))"
    using rep nd by (cases d) (auto simp: msg_rep_def msg_addrs_def)
  ultimately show "msg_rep h' a (Some b) (ds @ [d]) (fs @ [f])"
    using out unfolding msg_rep_def
    by (auto simp: h' frame_slots_snoc intro!: list_all2_appendI exI [of _ "[]"])
  show "heap_off h' (msg_addrs a (Some b) (ds @ [d])) = heap_off h (msg_addrs a (Some b) ds)"
  proof (rule ext)
    fix y
    show "heap_off h' (msg_addrs a (Some b) (ds @ [d])) y = heap_off h (msg_addrs a (Some b) ds) y"
      using new [of y] off [of y] unfolding h' by (auto simp: heap_off_def msg_addrs_def)
  qed
qed

text \<open>What \<open>message_add_frame\<close> does to a represented message, on every branch.\<close>

definition add_frame_post ::
    "'w ext \<Rightarrow> 'w st \<Rightarrow> nat \<Rightarrow> ptr \<Rightarrow> ptr list \<Rightarrow> string list \<Rightarrow> string \<Rightarrow> int \<Rightarrow> 'w st \<Rightarrow> bool" where
  "add_frame_post E s a fp ds fs data r t \<longleftrightarrow>
     heap_ok t \<and> trace t = trace s \<and> (r = 0 \<or> r = -1) \<and>
     (malloc_total E \<longrightarrow> r = 0 \<and> world t = world s) \<and>
     (\<exists>fp' ds'. msg_rep (heap t) a fp' ds' (if r = 0 then fs @ [data] else fs) \<and>
        heap_off (heap t) (msg_addrs a fp' ds') = heap_off (heap s) (msg_addrs a fp ds))"

lemma add_frame_post_same:
  assumes "heap_ok s" and "msg_rep (heap s) a fp ds fs" and "heap t = heap s" and "fresh t = fresh s"
    and "trace t = trace s" and "\<not> malloc_total E"
  shows "add_frame_post E s a fp ds fs data (-1) t"
  using assms by (auto simp: add_frame_post_def heap_ok_def)

text \<open>The part of \<open>message_add_frame\<close> after a successful \<open>realloc\<close>.\<close>

abbreviation add_frame_tail :: "'w ext \<Rightarrow> nat \<Rightarrow> nat \<Rightarrow> string \<Rightarrow> ptr \<Rightarrow> ('w st, int) prog" where
  "add_frame_tail E a n data new_frames \<equiv>
     bnd (store (Some a) (BMsg new_frames n)) (\<lambda>_.
     bnd (malloc E (length data)) (\<lambda>frame_data.
     if frame_data = None \<and> 0 < length data then ret (-1)
     else
       bnd (only_if (0 < length data)
         (bnd (read_bytes data (length data)) (\<lambda>d. store frame_data (BBytes d)))) (\<lambda>_.
       bnd (append_frame (Some a) new_frames n (frame_data, length data)) (\<lambda>_. ret 0))))"

lemma add_frame_tail_ok:
  assumes ok: "heap_ok s" and rep: "msg_rep (heap s) a fp ds fs" and b: "b = fresh s"
    and t: "trace t = trace s" "fresh t = Suc b" "malloc_total E \<longrightarrow> world t = world s"
      "heap t = (heap_off (heap s) (opt_list fp))(b \<mapsto> BFrames (frame_slots ds fs @ [x]))"
  shows "wp (add_frame_tail E a (length fs) data (Some b)) (add_frame_post E s a fp ds fs data)
    no_fault t"
proof -
  have a: "heap s a = Some (BMsg fp (length fs))" "a \<notin> set (opt_list fp)" "length ds = length fs"
    using rep by (auto simp: msg_rep_def msg_addrs_def)
  have ab: "a < b" using heap_ok_alive [OF ok a(1)] b by simp
  define h where "h = (heap t)(a \<mapsto> BMsg (Some b) (length fs))"
  have g: "msg_rep h a (Some b) ds fs"
      "heap_off h (msg_addrs a (Some b) ds) = heap_off (heap s) (msg_addrs a fp ds)"
    using msg_rep_grow [OF rep _ h_def [unfolded t(4)]] ok b by simp_all
  have live: "heap t a = Some (BMsg fp (length fs))" "h a = Some (BMsg (Some b) (length fs))"
      "h b = Some (BFrames (frame_slots ds fs @ [x]))"
    using a ab by (simp_all add: t h_def heap_off_def)
  have up: "h y = None" if "Suc b \<le> y" for y
    using that ok ab unfolding h_def t by (auto simp: heap_ok_def heap_off_def b)
  have fail: "add_frame_post E s a fp ds fs data (-1) u"
    if "heap u = h" "fresh u = Suc b" "trace u = trace s" "\<not> malloc_total E" for u
    using g up that unfolding add_frame_post_def by (auto simp: heap_ok_def)
  have fill: "wp (append_frame (Some a) (Some b) (length fs) (d, n))
      (\<lambda>_. add_frame_post E s a fp ds fs f 0) no_fault u"
    if eq: "f = data" "n = length data" and new: "\<And>y. y \<in> set (opt_list d) \<Longrightarrow> h y = None" and blk: "data_rep (heap u) d data"
      and off: "\<And>y. y \<notin> set (opt_list d) \<Longrightarrow> heap u y = h y" and fr: "Suc b \<le> fresh u"
      and ends: "\<And>y. fresh u \<le> y \<Longrightarrow> heap u y = None" and tr: "trace u = trace s"
      and wd: "malloc_total E \<longrightarrow> world u = world s" for u d f n
  proof -
    have "heap u b = h b" "heap u a = h a"
      using new off live by (metis option.distinct(1))+
    moreover have "(frame_slots ds fs @ [x])[length fs := y] = frame_slots ds fs @ [y]" for y
      using a(3) by (simp add: list_update_append)
    ultimately show ?thesis
      using live a(3) ab fr ends g(2) tr wd msg_rep_snoc [OF g(1) new blk off refl]
      unfolding append_frame_def add_frame_post_def eq
      by (auto simp: wp_simps wp_set_frame heap_ok_def)
  qed
  show ?thesis
    using live ab up t(1,2,3)
    by (cases "data = []")
      (auto simp: wp_simps h_def [symmetric] data_rep_def malloc_totalD intro!: fill fail split: prod.split)
qed

lemma message_add_frame_ok:
  fixes s :: "'a st"
  assumes ok: "heap_ok s" and rep: "msg_rep (heap s) a fp ds fs"
  shows "wp (message_add_frame E (Some a) data (length data)) (add_frame_post E s a fp ds fs data)
    no_fault s"
proof -
  have a: "heap s a = Some (BMsg fp (length fs))"
    using rep by (simp add: msg_rep_def)
  have "wp (realloc_frames E fp (Suc (length fs)))
      (\<lambda>r. wp (if r = None then ret (-1) else add_frame_tail E a (length fs) data r)
        (add_frame_post E s a fp ds fs data) no_fault) no_fault s"
  proof (rule wp_mono [OF realloc_frames_ok [OF ok rep]])
    fix r :: ptr and t :: "'a st"
    assume "trace t = trace s \<and> (malloc_total E \<longrightarrow> r \<noteq> None \<and> world t = world s) \<and>
       (r = None \<and> heap t = heap s \<and> fresh t = fresh s \<or>
        (\<exists>x. r = Some (fresh s) \<and> fresh t = Suc (fresh s) \<and>
          heap t = (heap_off (heap s) (opt_list fp))(fresh s \<mapsto> BFrames (frame_slots ds fs @ [x]))))"
    then show "wp (if r = None then ret (-1) else add_frame_tail E a (length fs) data r)
        (add_frame_post E s a fp ds fs data) no_fault t"
      using add_frame_tail_ok [OF ok rep refl] add_frame_post_same [OF ok rep]
      by (auto simp: wp_ret)
  qed auto
  then show ?thesis
    by (simp add: message_add_frame_def wp_bnd wp_load_msg a wp_if)
qed

section \<open>Receiving\<close>

fun recv_parts :: "event list \<Rightarrow> string list" where
  "recv_parts [] = []"
| "recv_parts (ZMsgRecv h rc d mr # es) = (if rc = -1 then recv_parts es else d # recv_parts es)"
| "recv_parts (_ # es) = recv_parts es"

definition balanced :: "event list \<Rightarrow> bool" where
  "balanced es \<longleftrightarrow> length (filter (\<lambda>e. e = ZMsgInit) es) = length (filter (\<lambda>e. e = ZMsgClose) es)"

lemma recv_parts_append [simp]: "recv_parts (es @ fs) = recv_parts es @ recv_parts fs"
  by (induction es rule: recv_parts.induct) auto

definition recv_post ::
    "'w st \<Rightarrow> nat \<Rightarrow> ptr \<Rightarrow> ptr list \<Rightarrow> string list \<Rightarrow> ptr \<Rightarrow> 'w st \<Rightarrow> bool" where
  "recv_post s a fp ds fs r t \<longleftrightarrow> heap_ok t \<and>
     (\<exists>es. trace t = trace s @ es \<and> balanced es \<and>
       (case r of
          None \<Rightarrow> heap t = heap_off (heap s) (msg_addrs a fp ds)
        | Some a' \<Rightarrow> a' = a \<and> recv_parts es \<noteq> [] \<and>
            (\<exists>fp' ds'. msg_rep (heap t) a fp' ds' (fs @ recv_parts es) \<and>
               heap_off (heap t) (msg_addrs a fp' ds') = heap_off (heap s) (msg_addrs a fp ds))))"

lemma heap_ok_off: "heap_ok s \<Longrightarrow> heap t = heap_off (heap s) as \<Longrightarrow> fresh t = fresh s \<Longrightarrow> heap_ok t"
  by (simp add: heap_ok_def heap_off_def)

text \<open>One error exit of the receive loop: the frame is closed and the message released.\<close>

lemma recv_give_up:
  assumes rep: "msg_rep (heap u) a fp' ds' fs'" and ok: "heap_ok u"
    and off: "heap_off (heap u) (msg_addrs a fp' ds') = heap_off (heap s) (msg_addrs a fp ds)"
    and tr: "trace u = trace s @ es" and bal: "balanced (es @ [ZMsgClose])"
  shows "wp (bnd (emit ZMsgClose) (\<lambda>_. bnd (message_destroy (Some (Some a))) (\<lambda>_. ret None)))
    (recv_post s a fp ds fs) F u"
proof -
  let ?u = "u\<lparr>trace := trace u @ [ZMsgClose]\<rparr>"
  have "wp (message_destroy (Some (Some a)))
      (\<lambda>r t. r = Some None \<and> t = ?u\<lparr>heap := heap_off (heap ?u) (msg_addrs a fp' ds')\<rparr>) no_fault ?u"
    using message_destroy_ok [of ?u a fp' ds' fs'] rep by simp
  moreover have "heap_ok (u\<lparr>trace := tr', heap := heap_off (heap s) (msg_addrs a fp ds)\<rparr>)" for tr'
    using ok unfolding off [symmetric] by (simp add: heap_ok_def heap_off_def)
  ultimately have "wp (message_destroy (Some (Some a))) (\<lambda>_. recv_post s a fp ds fs None) F ?u"
    by (elim wp_mono) (use off tr bal in \<open>auto simp: recv_post_def\<close>)
  then show ?thesis by (simp add: wp_simps)
qed

text \<open>One successful round, then the rest of the loop.\<close>

lemma recv_post_round:
  assumes rep: "heap_off (heap t) (msg_addrs a fp' ds') = heap_off (heap s) (msg_addrs a fp ds)"
    and tr: "trace t = trace s @ [ZMsgInit, ZMsgRecv h rc d mr, ZMsgClose]" and rc: "rc \<noteq> -1"
    and post: "recv_post t a fp' ds' (fs @ [d]) r v"
  shows "recv_post s a fp ds fs r v"
proof -
  obtain es where es: "trace v = trace t @ es" "balanced es"
    using post by (auto simp: recv_post_def)
  have "balanced ([ZMsgInit, ZMsgRecv h rc d mr, ZMsgClose] @ es)"
    using es(2) by (simp add: balanced_def)
  with post es(1) rep rc tr show ?thesis
    by (cases r) (auto simp: recv_post_def intro!: exI)
qed

lemma message_recv_loop_ok:
  assumes "heap_ok s" and "msg_rep (heap s) a fp ds fs"
  shows "wp (message_recv_loop E fuel h (Some a)) (recv_post s a fp ds fs) (\<lambda>f. f = OutOfFuel) s"
  using assms
proof (induction fuel arbitrary: s fp ds fs)
  case 0
  then show ?case by (simp add: wp_simps)
next
  case (Suc fuel)
  obtain rc d mr w where x: "x_msg_recv E h 0 (world s) = ((rc, d, mr), w)"
    by (metis surj_pair)
  let ?u = "s\<lparr>world := w, trace := trace s @ [ZMsgInit, ZMsgRecv h rc d mr]\<rparr>"
  have u: "heap_ok ?u" "msg_rep (heap ?u) a fp ds fs"
    using Suc.prems by (simp_all add: heap_ok_def)
  have step: "wp (if mr then message_recv_loop E fuel h (Some a) else ret (Some a))
      (recv_post s a fp ds fs) (\<lambda>f. f = OutOfFuel) (t\<lparr>trace := trace t @ [ZMsgClose]\<rparr>)"
    if post: "add_frame_post E ?u a fp ds fs d 0 t" and rc: "rc \<noteq> -1" for t
  proof -
    let ?t = "t\<lparr>trace := trace t @ [ZMsgClose]\<rparr>"
    obtain fp' ds' where t: "heap_ok ?t" "msg_rep (heap ?t) a fp' ds' (fs @ [d])"
      "heap_off (heap ?t) (msg_addrs a fp' ds') = heap_off (heap s) (msg_addrs a fp ds)"
      "trace ?t = trace s @ [ZMsgInit, ZMsgRecv h rc d mr, ZMsgClose]"
      using post by (auto simp: add_frame_post_def heap_ok_def)
    have "recv_post s a fp ds fs (Some a) ?t"
      using t rc unfolding recv_post_def
      by (intro conjI exI [of _ "[ZMsgInit, ZMsgRecv h rc d mr, ZMsgClose]"])
        (auto simp: balanced_def)
    moreover have "wp (message_recv_loop E fuel h (Some a)) (recv_post s a fp ds fs)
        (\<lambda>f. f = OutOfFuel) ?t"
      by (rule wp_mono [OF Suc.IH [OF t(1,2)] recv_post_round [OF t(3,4) rc]])
    ultimately show ?thesis by (simp add: wp_simps)
  qed
  have stop: "wp (bnd (emit ZMsgClose) (\<lambda>_. bnd (message_destroy (Some (Some a))) (\<lambda>_. ret None)))
      (recv_post s a fp ds fs) F t"
    if post: "add_frame_post E ?u a fp ds fs d (-1) t" for F t
    using post unfolding add_frame_post_def
    by (auto intro!: recv_give_up [where es = "[ZMsgInit, ZMsgRecv h rc d mr]"] simp: balanced_def)
  have err: "wp (bnd (emit ZMsgClose) (\<lambda>_. bnd (message_destroy (Some (Some a))) (\<lambda>_. ret None)))
      (recv_post s a fp ds fs) F (?u\<lparr>trace := trace ?u @ [Printed m]\<rparr>)" for F m
    using u by (intro recv_give_up [where es = "[ZMsgInit, ZMsgRecv h rc d mr, Printed m]"])
      (auto simp: balanced_def heap_ok_def)
  show ?case
  proof (cases "rc = -1")
    case True
    then show ?thesis
      using err [unfolded True] by (simp add: wp_bnd wp_emit wp_z_msg_recv x wp_if wp_report)
  next
    case False
    have "wp (message_add_frame E (Some a) d (length d))
        (\<lambda>r. wp (if r \<noteq> 0 then bnd (emit ZMsgClose) (\<lambda>_. bnd (message_destroy (Some (Some a))) (\<lambda>_. ret None))
          else bnd (emit ZMsgClose) (\<lambda>_. if mr then message_recv_loop E fuel h (Some a) else ret (Some a)))
          (recv_post s a fp ds fs) (\<lambda>f. f = OutOfFuel)) (\<lambda>f. f = OutOfFuel) ?u"
    proof (rule wp_mono [OF message_add_frame_ok [OF u]])
      fix r t
      assume p: "add_frame_post E ?u a fp ds fs d r t"
      then consider "r = 0" | "r = -1" by (auto simp: add_frame_post_def)
      then show "wp (if r \<noteq> 0 then bnd (emit ZMsgClose) (\<lambda>_. bnd (message_destroy (Some (Some a))) (\<lambda>_. ret None))
          else bnd (emit ZMsgClose) (\<lambda>_. if mr then message_recv_loop E fuel h (Some a) else ret (Some a)))
          (recv_post s a fp ds fs) (\<lambda>f. f = OutOfFuel) t"
        using p False stop step by cases (auto simp: wp_bnd [of "emit _"] wp_emit)
    qed auto
    with False show ?thesis
      by (simp add: wp_bnd wp_emit wp_z_msg_recv x wp_if)
  qed
qed

section \<open>Sending\<close>

text \<open>The parts of a trace that libzmq accepted for sending on socket \<open>h\<close>, with their flags.\<close>

fun sent_parts :: "nat \<Rightarrow> event list \<Rightarrow> (string \<times> cflags) list" where
  "sent_parts h [] = []"
| "sent_parts h (ZMsgSend h' d fl rc # es) =
     (if h' = h \<and> rc \<noteq> -1 then (d, fl) # sent_parts h es else sent_parts h es)"
| "sent_parts h (_ # es) = sent_parts h es"

lemma sent_parts_append [simp]: "sent_parts h (es @ fs) = sent_parts h es @ sent_parts h fs"
  by (induction es rule: sent_parts.induct) auto

text \<open>What a multi-part message looks like on the wire: all parts but the last announce another.\<close>

definition message_parts :: "cflags \<Rightarrow> string list \<Rightarrow> (string \<times> cflags) list" where
  "message_parts fl fs = map (\<lambda>f. (f, fl OR ZMQ_SNDMORE)) (butlast fs) @ map (\<lambda>f. (f, fl)) [last fs]"

lemma message_parts_length: "fs \<noteq> [] \<Longrightarrow> length (message_parts fl fs) = length fs"
  by (simp add: message_parts_def)

lemma message_parts_nth:
  "i < length fs \<Longrightarrow> message_parts fl fs ! i = (fs ! i, part_flags fl i (length fs))"
  by (cases fs rule: rev_cases) (auto simp: message_parts_def part_flags_def nth_append less_Suc_eq)

lemma wp_frame_bytes:
  "data_rep (heap s) d f \<Longrightarrow> wp (frame_bytes d (length f)) Q F s = Q f s"
  by (auto simp: frame_bytes_def data_rep_def wp_simps wp_load_bytes split: option.splits)

text \<open>All parts from the \<open>i\<close>-th on went out, or the call failed after some of them.\<close>

definition send_post ::
    "'w st \<Rightarrow> nat \<Rightarrow> cflags \<Rightarrow> string list \<Rightarrow> nat \<Rightarrow> int \<Rightarrow> 'w st \<Rightarrow> bool" where
  "send_post s h fl fs i r t \<longleftrightarrow> heap t = heap s \<and> fresh t = fresh s \<and>
     (\<exists>es. trace t = trace s @ es \<and> balanced es \<and>
       (r = 0 \<and> sent_parts h es = drop i (message_parts fl fs) \<or>
        r = -1 \<and> (\<exists>k. i + k < length fs \<and> sent_parts h es = take k (drop i (message_parts fl fs)))))"

lemma drop_message_parts:
  "i < length fs \<Longrightarrow> drop i (message_parts fl fs) =
     (fs ! i, part_flags fl i (length fs)) # drop (Suc i) (message_parts fl fs)"
  by (metis Cons_nth_drop_Suc length_0_conv message_parts_length message_parts_nth not_less_zero)

lemma send_post_part:
  assumes post: "send_post u h fl fs (Suc i) r t" and i: "i < length fs" and rc: "rc \<noteq> -1"
    and u: "heap u = heap s" "fresh u = fresh s" "trace u = trace s @
       [ZMsgInit, ZMsgSend h (fs ! i) (part_flags fl i (length fs)) rc, ZMsgClose]"
  shows "send_post s h fl fs i r t"
proof -
  obtain es where es: "trace t = trace u @ es" "balanced es"
      "r = 0 \<and> sent_parts h es = drop (Suc i) (message_parts fl fs) \<or>
        r = -1 \<and> (\<exists>k. Suc i + k < length fs \<and>
          sent_parts h es = take k (drop (Suc i) (message_parts fl fs)))"
    using post by (auto simp: send_post_def)
  let ?es = "[ZMsgInit, ZMsgSend h (fs ! i) (part_flags fl i (length fs)) rc, ZMsgClose] @ es"
  have "r = 0 \<and> sent_parts h ?es = drop i (message_parts fl fs) \<or>
      r = -1 \<and> (\<exists>k. i + k < length fs \<and> sent_parts h ?es = take k (drop i (message_parts fl fs)))"
    using es(3) rc by (auto simp: drop_message_parts [OF i] intro!: exI [of _ "Suc _"])
  moreover have "balanced ?es" and "trace t = trace s @ ?es"
    using es u by (simp_all add: balanced_def)
  ultimately show ?thesis
    using post u unfolding send_post_def by metis
qed

lemma message_send_from_ok:
  assumes "msg_rep (heap s) a (Some b) ds fs" and "i \<le> length fs" and "fs \<noteq> []"
  shows "wp (message_send_from E (Some b) h fl i (length fs)) (send_post s h fl fs i) no_fault s"
  using assms
proof (induction "length fs - i" arbitrary: i s)
  case 0
  then show ?case
    by (simp add: message_send_from.simps wp_simps message_parts_length balanced_def send_post_def)
next
  case (Suc k)
  then have i: "i < length fs" by simp
  obtain pad where h: "heap s b = Some (BFrames (frame_slots ds fs @ pad))"
    "length ds = length fs" "data_rep (heap s) (ds ! i) (fs ! i)"
    using Suc.prems(1) i by (auto simp: msg_rep_def list_all2_conv_all_nth)
  have "wp (message_send_from E (Some b) h fl (Suc i) (length fs)) (send_post s h fl fs i) no_fault
      (s\<lparr>world := w, trace := trace s @
         [ZMsgInit, ZMsgSend h (fs ! i) (part_flags fl i (length fs)) rc, ZMsgClose]\<rparr>)"
    (is "wp _ _ _ ?u") if rc: "rc \<noteq> -1" for w rc
  proof (rule wp_mono)
    show "wp (message_send_from E (Some b) h fl (Suc i) (length fs)) (send_post ?u h fl fs (Suc i))
        no_fault ?u"
      using Suc i by (intro Suc.hyps(1)) auto
  qed (use i rc in \<open>auto elim: send_post_part\<close>)
  then show ?case
    using i h
    by (auto simp: message_send_from.simps [of E "Some b" h fl i] wp_simps wp_frame_at wp_frame_bytes
        send_post_def balanced_def intro!: exI [of _ 0] split: prod.split)
qed

section \<open>Round trip\<close>

text \<open>
  \<open>delivers E h ps w\<close>: from world \<open>w\<close> the next receives on socket \<open>h\<close> yield the parts \<open>ps\<close>,
  each with its bytes and whether more parts follow.
\<close>

fun delivers :: "'w ext \<Rightarrow> nat \<Rightarrow> (string \<times> bool) list \<Rightarrow> 'w \<Rightarrow> bool" where
  "delivers E h [] w = True"
| "delivers E h ((d, mr) # ps) w =
     (case x_msg_recv E h 0 w of (r, w') \<Rightarrow> r = (int (length d), d, mr) \<and> delivers E h ps w')"

text \<open>How the receiver sees sent parts: the flag \<open>ZMQ_SNDMORE\<close> arrives as \<open>zmq_msg_more\<close>.\<close>

definition on_the_wire :: "(string \<times> cflags) list \<Rightarrow> (string \<times> bool) list" where
  "on_the_wire ps = map (\<lambda>(d, fl). (d, fl AND ZMQ_SNDMORE \<noteq> 0)) ps"

fun more_flags :: "string list \<Rightarrow> (string \<times> bool) list" where
  "more_flags [] = []"
| "more_flags [f] = [(f, False)]"
| "more_flags (f # fs) = (f, True) # more_flags fs"

lemma wire_message_parts: "fs \<noteq> [] \<Longrightarrow> on_the_wire (message_parts 0 fs) = more_flags fs"
  by (induction fs rule: more_flags.induct)
    (simp_all add: on_the_wire_def message_parts_def ZMQ_SNDMORE_def)

lemma message_recv_loop_total:
  assumes "malloc_total E" and "heap_ok s" and "msg_rep (heap s) a fp ds fs" and "gs \<noteq> []"
    and "length gs \<le> fuel" and "delivers E h (more_flags gs) (world s)"
  shows "wp (message_recv_loop E fuel h (Some a))
    (\<lambda>r t. r = Some a \<and> (\<exists>fp ds. msg_rep (heap t) a fp ds (fs @ gs))) no_fault s"
  using assms
proof (induction gs arbitrary: s fp ds fs fuel rule: more_flags.induct)
  case 1
  then show ?case by simp
next
  case (2 g)
  then obtain w n where x: "x_msg_recv E h 0 (world s) = ((int (length g), g, False), w)"
    and n: "fuel = Suc n"
    by (cases fuel) (auto split: prod.splits)
  let ?u = "s\<lparr>world := w, trace := trace s @ [ZMsgInit, ZMsgRecv h (int (length g)) g False]\<rparr>"
  have "wp (message_add_frame E (Some a) g (length g)) (add_frame_post E ?u a fp ds fs g) no_fault ?u"
    using "2.prems" by (intro message_add_frame_ok) (auto simp: heap_ok_def)
  then have "wp (message_add_frame E (Some a) g (length g))
      (\<lambda>r t. r = 0 \<and> (\<exists>fp ds. msg_rep (heap t) a fp ds (fs @ [g]))) no_fault ?u"
    using "2.prems"(1) by (elim wp_mono) (auto simp: add_frame_post_def)
  then show ?case
    by (simp add: n wp_bnd wp_emit wp_z_msg_recv x wp_if) (erule wp_mono, auto simp: wp_simps)
next
  case (3 g g' gs)
  then obtain w n where x: "x_msg_recv E h 0 (world s) = ((int (length g), g, True), w)"
    and n: "fuel = Suc n" and rest: "delivers E h (more_flags (g' # gs)) w"
    by (cases fuel) (auto split: prod.splits)
  let ?u = "s\<lparr>world := w, trace := trace s @ [ZMsgInit, ZMsgRecv h (int (length g)) g True]\<rparr>"
  have "wp (message_add_frame E (Some a) g (length g)) (add_frame_post E ?u a fp ds fs g) no_fault ?u"
    using "3.prems" by (intro message_add_frame_ok) (auto simp: heap_ok_def)
  then have "wp (message_add_frame E (Some a) g (length g))
      (\<lambda>r t. r = 0 \<and> wp (message_recv_loop E n h (Some a))
        (\<lambda>r t. r = Some a \<and> (\<exists>fp ds. msg_rep (heap t) a fp ds (fs @ g # g' # gs))) no_fault
        (t\<lparr>trace := trace t @ [ZMsgClose]\<rparr>)) no_fault ?u"
  proof (rule wp_mono)
    fix r t
    assume p: "add_frame_post E ?u a fp ds fs g r t"
    then obtain fp' ds' where t: "r = 0" "world t = w" "heap_ok t" "msg_rep (heap t) a fp' ds' (fs @ [g])"
      using "3.prems"(1) by (auto simp: add_frame_post_def)
    have "wp (message_recv_loop E n h (Some a))
        (\<lambda>r t. r = Some a \<and> (\<exists>fp ds. msg_rep (heap t) a fp ds ((fs @ [g]) @ g' # gs))) no_fault
        (t\<lparr>trace := trace t @ [ZMsgClose]\<rparr>)"
      using "3.prems" t rest n by (intro "3.IH") (auto simp: heap_ok_def)
    with t(1) show "r = 0 \<and> wp (message_recv_loop E n h (Some a))
        (\<lambda>r t. r = Some a \<and> (\<exists>fp ds. msg_rep (heap t) a fp ds (fs @ g # g' # gs))) no_fault
        (t\<lparr>trace := trace t @ [ZMsgClose]\<rparr>)"
      by simp
  qed auto
  then show ?case
    by (simp add: n wp_bnd wp_emit wp_z_msg_recv x wp_if) (erule wp_mono, auto simp: wp_simps)
qed

lemma message_recv_total:
  assumes "malloc_total E" and "heap_ok s" and "gs \<noteq> []" and "length gs \<le> fuel"
    and "delivers E h (more_flags gs) (world s)"
  shows "wp (message_recv E fuel h)
    (\<lambda>r t. \<exists>a fp ds. r = Some a \<and> msg_rep (heap t) a fp ds gs) no_fault s"
proof -
  have "wp (message_new E) (\<lambda>r. wp (if r = None then ret None else message_recv_loop E fuel h r)
      (\<lambda>r t. \<exists>a fp ds. r = Some a \<and> msg_rep (heap t) a fp ds gs) no_fault) no_fault s"
    by (rule wp_mono [OF message_new_ok [OF assms(2)]])
      (use assms in \<open>auto simp: wp_simps intro!: wp_mono [OF message_recv_loop_total], blast\<close>)
  then show ?thesis by (simp add: message_recv_def wp_simps)
qed

section \<open>Properties of messages\<close>

text \<open>
  C25. Adding a frame to a well-formed message appends exactly the given bytes and returns 0, or
  returns -1 with the frames unchanged when an allocation fails; either way the message stays
  well-formed and nothing outside its own blocks is changed or leaked.
\<close>

theorem message_add_frame_appends:
  assumes "heap_ok s" and "msg_rep (heap s) a fp ds fs"
  shows "wp (message_add_frame E (Some a) data (length data))
    (\<lambda>r t. heap_ok t \<and> (r = 0 \<or> r = -1) \<and>
       (\<exists>fp' ds'. msg_rep (heap t) a fp' ds' (if r = 0 then fs @ [data] else fs) \<and>
          heap_off (heap t) (msg_addrs a fp' ds') = heap_off (heap s) (msg_addrs a fp ds)))
    no_fault s"
  by (rule wp_mono [OF message_add_frame_ok [OF assms]]) (simp_all add: add_frame_post_def)

theorem message_add_frame_appends_witness:
  "\<exists>t. message_add_frame sim_ext (Some 0) ''hi'' 2
      (sim_state empty_script\<lparr>heap := [0 \<mapsto> BMsg None 0], fresh := 1\<rparr>) = Inr (0, t)"
proof -
  let ?s = "sim_state empty_script\<lparr>heap := [0 \<mapsto> BMsg None 0], fresh := 1\<rparr>"
  have ok: "heap_ok ?s" and rep: "msg_rep (heap ?s) 0 None [] []"
    by (simp_all add: heap_ok_def msg_rep_def msg_addrs_def)
  from wp_runs [OF message_add_frame_appends [OF ok rep, of sim_ext "''hi''"]]
  obtain r t where run: "message_add_frame sim_ext (Some 0) ''hi'' 2 ?s = Inr (r, t)"
    by (auto simp: numeral_2_eq_2)
  moreover have "wp (message_add_frame sim_ext (Some 0) ''hi'' 2) (\<lambda>r t. r = 0) no_fault ?s"
    using message_add_frame_ok [OF ok rep, of sim_ext "''hi''"]
    by (auto simp: add_frame_post_def numeral_2_eq_2 elim: wp_mono)
  ultimately show ?thesis by (auto dest: wp_InrD)
qed

text \<open>
  C26. \<open>message_destroy\<close> releases every block of a well-formed message, each exactly once, and
  nothing else, and leaves the caller's variable NULL.
\<close>

theorem message_destroy_releases:
  assumes "msg_rep (heap s) a fp ds fs"
  shows "message_destroy (Some (Some a)) s =
    Inr (Some None, s\<lparr>heap := heap_off (heap s) (msg_addrs a fp ds)\<rparr>)"
  using wp_runs [OF message_destroy_ok [OF assms]] by auto

theorem message_destroy_releases_witness:
  "message_destroy (Some (Some 0)) (sim_state empty_script\<lparr>heap :=
      [0 \<mapsto> BMsg (Some 1) 1, 1 \<mapsto> BFrames [Some (Some 2, 2)], 2 \<mapsto> BBytes ''hi'', 3 \<mapsto> BRaw 7]\<rparr>) =
   Inr (Some None, sim_state empty_script\<lparr>heap := [3 \<mapsto> BRaw 7]\<rparr>)"
proof -
  let ?s = "sim_state empty_script\<lparr>heap :=
      [0 \<mapsto> BMsg (Some 1) 1, 1 \<mapsto> BFrames [Some (Some 2, 2)], 2 \<mapsto> BBytes ''hi'', 3 \<mapsto> BRaw 7]\<rparr>"
  have "msg_rep (heap ?s) 0 (Some 1) [Some 2] [''hi'']"
    by (simp add: msg_rep_def msg_addrs_def data_rep_def frame_slots_def)
  moreover have "heap_off (heap ?s) (msg_addrs 0 (Some 1) [Some 2]) = [3 \<mapsto> BRaw 7]"
    by (rule ext) (simp add: heap_off_def msg_addrs_def)
  ultimately show ?thesis
    using message_destroy_releases [of ?s 0 "Some 1" "[Some 2]" "[''hi'']"] by simp
qed

text \<open>
  C23. Receiving never touches memory it does not own and never leaks: on every path each
  libzmq frame it initialises is closed again; a failure gives NULL with the heap exactly as it
  was before; a success gives a well-formed message whose frames are the parts libzmq
  delivered, in order, and no other new block. The only way not to return is a peer that
  announces parts for ever.
\<close>

theorem message_recv_no_leak:
  assumes "heap_ok s"
  shows "wp (message_recv E fuel h)
    (\<lambda>r t. heap_ok t \<and> (\<exists>es. trace t = trace s @ es \<and> balanced es \<and>
       (case r of
          None \<Rightarrow> heap t = heap s
        | Some a \<Rightarrow> recv_parts es \<noteq> [] \<and> (\<exists>fp ds. msg_rep (heap t) a fp ds (recv_parts es) \<and>
            heap_off (heap t) (msg_addrs a fp ds) = heap s))))
    (\<lambda>f. f = OutOfFuel) s" (is "wp _ ?Q _ _")
proof -
  have "wp (message_new E) (\<lambda>r. wp (if r = None then ret None else message_recv_loop E fuel h r)
      ?Q (\<lambda>f. f = OutOfFuel)) (\<lambda>f. f = OutOfFuel) s"
  proof (rule wp_mono [OF message_new_ok [OF assms]])
    fix r t
    assume n: "heap_ok t \<and> trace t = trace s \<and> (malloc_total E \<longrightarrow> r \<noteq> None \<and> world t = world s) \<and>
      (case r of None \<Rightarrow> heap t = heap s
       | Some a \<Rightarrow> msg_rep (heap t) a None [] [] \<and> heap_off (heap t) (msg_addrs a None []) = heap s)"
    show "wp (if r = None then ret None else message_recv_loop E fuel h r) ?Q (\<lambda>f. f = OutOfFuel) t"
    proof (cases r)
      case None
      with n show ?thesis by (auto simp: wp_simps balanced_def)
    next
      case (Some a)
      with n have "wp (message_recv_loop E fuel h (Some a)) (recv_post t a None [] []) (\<lambda>f. f = OutOfFuel) t"
        by (intro message_recv_loop_ok) auto
      then have "wp (message_recv_loop E fuel h (Some a)) ?Q (\<lambda>f. f = OutOfFuel) t"
      proof (rule wp_mono)
        fix r' v
        assume "recv_post t a None [] [] r' v"
        with n Some show "?Q r' v" by (cases r') (auto simp: recv_post_def)
      qed
      with Some show ?thesis by simp
    qed
  qed auto
  then show ?thesis by (simp add: message_recv_def wp_simps)
qed

theorem message_recv_no_leak_witness:
  "\<exists>a t. message_recv sim_ext 3 5 (sim_state (empty_script\<lparr>frames_in := [(''a'', True), (''b'', False)]\<rparr>))
     = Inr (Some a, t) \<and> heap_ok t"
proof -
  let ?s = "sim_state (empty_script\<lparr>frames_in := [(''a'', True), (''b'', False)]\<rparr>)"
  have "wp (message_recv sim_ext 3 5) (\<lambda>r t. \<exists>a fp ds. r = Some a \<and> msg_rep (heap t) a fp ds [''a'', ''b''])
      no_fault ?s"
    by (rule message_recv_total) simp_all
  then obtain a t where "message_recv sim_ext 3 5 ?s = Inr (Some a, t)"
    by (auto dest: wp_runs)
  with message_recv_no_leak [OF sim_state_ok, of sim_ext 3 5] show ?thesis
    by (auto dest: wp_InrD)
qed

text \<open>
  C24. Sending a well-formed non-empty message hands libzmq its frames in order, each with the
  caller's flags, and \<open>ZMQ_SNDMORE\<close> added on all but the last; it returns 0 when all of them were
  accepted and -1 after a proper prefix otherwise; it changes no memory and closes every frame.
\<close>

theorem message_send_parts:
  assumes "msg_rep (heap s) a fp ds fs" and "fs \<noteq> []"
  shows "wp (message_send E (Some a) h fl)
    (\<lambda>r t. heap t = heap s \<and> (\<exists>es. trace t = trace s @ es \<and> balanced es \<and>
       (r = 0 \<and> sent_parts h es = message_parts fl fs \<or>
        r = -1 \<and> (\<exists>k < length fs. sent_parts h es = take k (message_parts fl fs))))) no_fault s"
proof -
  obtain b where b: "fp = Some b" using assms by (cases fp) (auto simp: msg_rep_def)
  have "wp (message_send_from E fp h fl 0 (length fs)) (send_post s h fl fs 0) no_fault s"
    using message_send_from_ok [of s a b ds fs 0] assms unfolding b by simp
  moreover have "heap s a = Some (BMsg fp (length fs))" using assms by (simp add: msg_rep_def)
  ultimately show ?thesis
    using assms(2)
    by (simp add: message_send_def wp_simps wp_load_msg) (erule wp_mono, auto simp: send_post_def)
qed

theorem message_send_parts_witness:
  "\<exists>r t. message_send sim_ext (Some 0) 4 0 (sim_state empty_script\<lparr>heap :=
      [0 \<mapsto> BMsg (Some 1) 1, 1 \<mapsto> BFrames [Some (Some 2, 2)], 2 \<mapsto> BBytes ''hi'']\<rparr>) = Inr (r, t)"
proof -
  let ?s = "sim_state empty_script\<lparr>heap :=
      [0 \<mapsto> BMsg (Some 1) 1, 1 \<mapsto> BFrames [Some (Some 2, 2)], 2 \<mapsto> BBytes ''hi'']\<rparr>"
  have "msg_rep (heap ?s) 0 (Some 1) [Some 2] [''hi'']"
    by (simp add: msg_rep_def msg_addrs_def data_rep_def frame_slots_def)
  from wp_runs [OF message_send_parts [OF this, of sim_ext 4 0]]
  show ?thesis by blast
qed

text \<open>
  C22. Round trip: if \<open>message_send\<close> returned 0 and a receiver's libzmq delivers the parts that
  were sent, then \<open>message_recv\<close> there, with fuel for as many parts, terminates with a message
  of exactly the same frames.
\<close>

theorem message_round_trip:
  assumes rep: "msg_rep (heap s) a fp ds fs" and sent: "message_send E (Some a) h 0 s = Inr (0, s')"
    and tr: "trace s' = trace s @ es" and mem: "malloc_total E'" "heap_ok u"
    and net: "delivers E' h' (on_the_wire (sent_parts h es)) (world u)" and fuel: "length fs \<le> fuel"
  shows "\<exists>a' fp' ds' t. message_recv E' fuel h' u = Inr (Some a', t) \<and> msg_rep (heap t) a' fp' ds' fs"
proof -
  have ne: "fs \<noteq> []"
  proof
    assume "fs = []"
    with rep have "message_send E (Some a) h 0 s = Inr (-1, s)"
      by (simp add: message_send_def load_msg_def load_def msg_rep_def run_simps)
    with sent show False by simp
  qed
  from wp_InrD [OF message_send_parts [OF rep ne] sent] tr
  have "sent_parts h es = message_parts 0 fs" by auto
  with net have "delivers E' h' (more_flags fs) (world u)"
    by (simp add: wire_message_parts [OF ne])
  from message_recv_total [OF mem ne fuel this] show ?thesis
    by (auto dest!: wp_runs)
qed

theorem message_round_trip_witness:
  "\<exists>a fp ds t. message_recv sim_ext 1 9 (sim_state (empty_script\<lparr>frames_in := [(''hi'', False)]\<rparr>))
     = Inr (Some a, t) \<and> msg_rep (heap t) a fp ds [''hi'']"
proof -
  let ?s = "sim_state empty_script\<lparr>heap :=
      [0 \<mapsto> BMsg (Some 1) 1, 1 \<mapsto> BFrames [Some (Some 2, 2)], 2 \<mapsto> BBytes ''hi'']\<rparr>"
  let ?u = "sim_state (empty_script\<lparr>frames_in := [(''hi'', False)]\<rparr>)"
  have rep: "msg_rep (heap ?s) 0 (Some 1) [Some 2] [''hi'']"
    by (simp add: msg_rep_def msg_addrs_def data_rep_def frame_slots_def)
  have "wp (message_send sim_ext (Some 0) 4 0)
      (\<lambda>r t. r = 0 \<and> trace t = trace ?s @ [ZMsgInit, ZMsgSend 4 ''hi'' 0 2, ZMsgClose]) no_fault ?s"
    by (simp add: message_send_def message_send_from.simps wp_simps load_msg_def frame_at_def
        load_frames_def frame_bytes_def load_bytes_def part_flags_def)
  then obtain s' where s': "message_send sim_ext (Some 0) 4 0 ?s = Inr (0, s')"
      "trace s' = trace ?s @ [ZMsgInit, ZMsgSend 4 ''hi'' 0 2, ZMsgClose]"
    by (auto dest: wp_runs)
  show ?thesis
    using message_round_trip [OF rep s'(1) s'(2) sim_malloc_total, of ?u 9 1]
    by (simp add: on_the_wire_def)
qed

end
