(* ===== verification/Sockets.thy ===== *)
theory Sockets
  imports Messages
begin

text \<open>
  \<open>utils/zmq_sockets.c\<close>: the typed wrappers around libzmq sockets. The nine socket types get
  their operations from the same macros, so each macro is one definition with the socket type as
  a parameter, and two tables record which operations the source file instantiates and which the
  header declares for each type. A wrapper lives on the heap and holds the raw handle. Where a
  macro prints on a null wrapper and then goes on to dereference it, so does the definition.
\<close>

section \<open>Names and tables\<close>

definition kind_name :: "socket_kind \<Rightarrow> string" where
  "kind_name k = (case k of
     socket_sub \<Rightarrow> ''socket_sub'' | socket_pub \<Rightarrow> ''socket_pub'' | socket_req \<Rightarrow> ''socket_req''
   | socket_rep \<Rightarrow> ''socket_rep'' | socket_pair \<Rightarrow> ''socket_pair'' | socket_push \<Rightarrow> ''socket_push''
   | socket_pull \<Rightarrow> ''socket_pull'' | socket_router \<Rightarrow> ''socket_router''
   | socket_dealer \<Rightarrow> ''socket_dealer'')"

datatype sock_op =
    Op_new | Op_destroy | Op_get_raw | Op_connect | Op_bind | Op_subscribe | Op_unsubscribe
  | Op_recv | Op_recv_string | Op_message_recv | Op_send | Op_send_string | Op_message_send
  | Op_set_id

text \<open>The macro instances of the source file, in its order.\<close>

fun instantiated_ops :: "socket_kind \<Rightarrow> sock_op list" where
  "instantiated_ops socket_sub = [Op_new, Op_destroy, Op_get_raw, Op_connect, Op_bind, Op_subscribe,
     Op_unsubscribe, Op_recv, Op_recv_string, Op_message_recv, Op_set_id]"
| "instantiated_ops socket_pub = [Op_new, Op_destroy, Op_get_raw, Op_bind, Op_connect, Op_send,
     Op_send_string, Op_message_send, Op_set_id]"
| "instantiated_ops socket_req = [Op_new, Op_destroy, Op_get_raw, Op_connect, Op_send, Op_send_string,
     Op_message_send, Op_recv, Op_recv_string, Op_message_recv, Op_set_id]"
| "instantiated_ops socket_rep = [Op_new, Op_destroy, Op_get_raw, Op_bind, Op_recv, Op_recv_string,
     Op_message_recv, Op_send, Op_send_string, Op_message_send, Op_set_id]"
| "instantiated_ops socket_pair = [Op_new, Op_destroy, Op_get_raw, Op_bind, Op_connect, Op_send,
     Op_recv_string, Op_message_recv, Op_recv, Op_send_string, Op_message_send, Op_set_id]"
| "instantiated_ops _ = [Op_new, Op_destroy, Op_get_raw, Op_bind, Op_connect, Op_send,
     Op_send_string, Op_message_send, Op_recv, Op_recv_string, Op_message_recv, Op_set_id]"

text \<open>The declarations of the header, in its order.\<close>

fun declared_ops :: "socket_kind \<Rightarrow> sock_op list" where
  "declared_ops socket_sub = [Op_new, Op_destroy, Op_get_raw, Op_connect, Op_bind, Op_subscribe,
     Op_unsubscribe, Op_recv, Op_recv_string, Op_message_recv, Op_set_id]"
| "declared_ops socket_pub = [Op_new, Op_destroy, Op_get_raw, Op_bind, Op_connect, Op_send,
     Op_send_string, Op_message_send, Op_set_id]"
| "declared_ops socket_req = [Op_new, Op_destroy, Op_get_raw, Op_connect, Op_send, Op_send_string,
     Op_message_send, Op_recv, Op_recv_string, Op_message_recv, Op_set_id]"
| "declared_ops socket_rep = [Op_new, Op_destroy, Op_get_raw, Op_bind, Op_recv, Op_recv_string,
     Op_message_recv, Op_send, Op_send_string, Op_message_send, Op_set_id]"
| "declared_ops _ = [Op_new, Op_destroy, Op_get_raw, Op_bind, Op_connect, Op_send, Op_send_string,
     Op_message_send, Op_recv, Op_recv_string, Op_message_recv, Op_set_id]"

section \<open>The operations\<close>

text \<open>The four bytes of \<open>int zero = 0\<close>.\<close>

definition zero_linger :: string where
  "zero_linger = replicate 4 NUL"

definition socket_new :: "'w ext \<Rightarrow> socket_kind \<Rightarrow> ptr \<Rightarrow> ('w st, ptr) prog" where
  "socket_new E k zmq_context =
     (if zmq_context = None then ret None
      else
        bnd (malloc E 8) (\<lambda>self.
        if self = None then
          bnd (report E (''E: allocate memory for '' @ kind_name k @ '' failed: '')) (\<lambda>_. ret None)
        else
          bnd (z_socket E k) (\<lambda>raw. case raw of
            None \<Rightarrow>
              bnd (report E (''E: create socket for '' @ kind_name k @ '' failed: '')) (\<lambda>_.
              bnd (free self) (\<lambda>_. ret None))
          | Some h \<Rightarrow> bnd (store self (BSock h)) (\<lambda>_. ret self))))"

text \<open>
  \<open>destroy\<close> takes the address of the caller's variable: \<open>None\<close> is the null address, \<open>Some p\<close> a
  variable holding \<open>p\<close>; the result is the variable afterwards.
\<close>

definition socket_destroy :: "'w ext \<Rightarrow> ptr option \<Rightarrow> ('w st, ptr option) prog" where
  "socket_destroy E self_p =
     (case self_p of
        None \<Rightarrow> ret None
      | Some None \<Rightarrow> ret (Some None)
      | Some (Some a) \<Rightarrow>
          bnd (load_sock (Some a)) (\<lambda>h.
          bnd (z_setsockopt E h ZMQ_LINGER zero_linger) (\<lambda>_.
          bnd (z_close E h) (\<lambda>_.
          bnd (free (Some a)) (\<lambda>_. ret (Some None))))))"

definition socket_get_raw :: "ptr \<Rightarrow> ('w st, nat option) prog" where
  "socket_get_raw self =
     (if self = None then ret None else bnd (load_sock self) (\<lambda>h. ret (Some h)))"

definition socket_connect :: "'w ext \<Rightarrow> socket_kind \<Rightarrow> ptr \<Rightarrow> string \<Rightarrow> ('w st, int) prog" where
  "socket_connect E k self ep =
     bnd (only_if (self = None)
       (report E (''E: socket connect for '' @ kind_name k @ '' failed socket is NULL: ''))) (\<lambda>_.
     bnd (load_sock self) (\<lambda>h.
     bnd (z_connect E h ep) (\<lambda>rc.
     bnd (only_if (rc = -1)
       (report E (''E: socket connect for '' @ kind_name k @ '' failed: ''))) (\<lambda>_. ret rc))))"

definition socket_bind :: "'w ext \<Rightarrow> socket_kind \<Rightarrow> ptr \<Rightarrow> string \<Rightarrow> ('w st, int) prog" where
  "socket_bind E k self ep =
     bnd (only_if (self = None)
       (report E (''E: socket bind for '' @ kind_name k @ '' failed socket is NULL: ''))) (\<lambda>_.
     bnd (load_sock self) (\<lambda>h.
     bnd (z_bind E h ep) (\<lambda>rc.
     bnd (only_if (rc = -1)
       (report E (''E: socket bind for '' @ kind_name k @ '' failed: ''))) (\<lambda>_. ret rc))))"

definition socket_recv ::
    "'w ext \<Rightarrow> socket_kind \<Rightarrow> ptr \<Rightarrow> string \<Rightarrow> nat \<Rightarrow> cflags \<Rightarrow> ('w st, int \<times> string) prog" where
  "socket_recv E k self buf len flags =
     bnd (only_if (self = None)
       (report E (''E: '' @ kind_name k @ ''_recv for '' @ kind_name k @ '' failed socket is NULL: ''))) (\<lambda>_.
     bnd (load_sock self) (\<lambda>h.
     bnd (z_recv E h buf len flags) (\<lambda>(rc, buf').
     bnd (only_if (rc = -1)
       (report E (''E: '' @ kind_name k @ ''_recv for '' @ kind_name k @ '' failed: ''))) (\<lambda>_.
     ret (rc, buf')))))"

definition socket_send ::
    "'w ext \<Rightarrow> socket_kind \<Rightarrow> ptr \<Rightarrow> string \<Rightarrow> nat \<Rightarrow> cflags \<Rightarrow> ('w st, int) prog" where
  "socket_send E k self buf len flags =
     bnd (only_if (self = None)
       (report E (''E: '' @ kind_name k @ ''_send for '' @ kind_name k @ '' failed socket is NULL: ''))) (\<lambda>_.
     bnd (load_sock self) (\<lambda>h.
     bnd (read_bytes buf len) (\<lambda>d.
     bnd (z_send E h d flags) (\<lambda>rc.
     bnd (only_if (rc = -1)
       (report E (''E: '' @ kind_name k @ ''_send for '' @ kind_name k @ '' failed: ''))) (\<lambda>_. ret rc)))))"

text \<open>The topic is a C string: its bytes without the terminator.\<close>

definition socket_sub_subscribe :: "'w ext \<Rightarrow> ptr \<Rightarrow> string \<Rightarrow> ('w st, int) prog" where
  "socket_sub_subscribe E self topic =
     bnd (only_if (self = None)
       (report E (''E: socket_sub_subscribe on '' @ topic @ ''  failed socket is NULL: ''))) (\<lambda>_.
     bnd (load_sock self) (\<lambda>h.
     bnd (z_setsockopt E h ZMQ_SUBSCRIBE topic) (\<lambda>rc.
     bnd (only_if (rc = -1)
       (report E (''E: socket_sub_subscribe on '' @ topic @ ''  failed: ''))) (\<lambda>_. ret rc))))"

definition socket_sub_unsubscribe :: "'w ext \<Rightarrow> ptr \<Rightarrow> string \<Rightarrow> ('w st, int) prog" where
  "socket_sub_unsubscribe E self topic =
     bnd (only_if (self = None)
       (report E (''E: socket_sub_unsubscribe on '' @ topic @ ''  failed socket is NULL: ''))) (\<lambda>_.
     bnd (load_sock self) (\<lambda>h.
     bnd (z_setsockopt E h ZMQ_UNSUBSCRIBE topic) (\<lambda>rc.
     bnd (only_if (rc = -1)
       (report E (''E: socket_sub_unsubscribe on '' @ topic @ ''  failed: ''))) (\<lambda>_. ret rc))))"

definition socket_set_id :: "'w ext \<Rightarrow> socket_kind \<Rightarrow> ptr \<Rightarrow> string \<Rightarrow> ('w st, int) prog" where
  "socket_set_id E k self identity =
     (if self = None then
        bnd (report E (''E: set socket id '' @ identity @ '' for '' @ kind_name k
               @ '' failed socket is NULL: '')) (\<lambda>_. ret (-1))
      else
        bnd (load_sock self) (\<lambda>h.
        bnd (z_setsockopt E h ZMQ_IDENTITY identity) (\<lambda>rc.
        bnd (only_if (rc = -1)
          (report E (''E: set socket id '' @ identity @ '' for '' @ kind_name k @ '' failed: ''))) (\<lambda>_.
        ret rc))))"

text \<open>\<open>socket_destroy_helper\<close>: on a raw socket.\<close>

definition socket_destroy_helper :: "'w ext \<Rightarrow> nat option \<Rightarrow> ('w st, unit) prog" where
  "socket_destroy_helper E raw_socket =
     (case raw_socket of None \<Rightarrow> ret ()
      | Some h \<Rightarrow> bnd (z_setsockopt E h ZMQ_LINGER zero_linger) (\<lambda>_. z_close E h))"

section \<open>Single frames\<close>

text \<open>
  The result of \<open>recv_frame_as_string\<close> and whether more frames follow, which the code stores
  through \<open>out_more\<close> when the pointer is not null; on failure it stores nothing (\<open>None\<close>). The
  \<open>malloc\<close> is not checked.
\<close>

definition recv_frame_as_string :: "'w ext \<Rightarrow> nat \<Rightarrow> ('w st, ptr \<times> bool option) prog" where
  "recv_frame_as_string E socket =
     bnd (emit ZMsgInit) (\<lambda>_.
     bnd (z_msg_recv E socket 0) (\<lambda>(rc, d, mr).
     if rc = -1 then
       bnd (report E ''E: recv_frame_as_string failed: '') (\<lambda>_.
       bnd (emit ZMsgClose) (\<lambda>_. ret (None, None)))
     else
       bnd (malloc E (length d + 1)) (\<lambda>str.
       bnd (store str (BBytes (d @ [NUL]))) (\<lambda>_.
       bnd (emit ZMsgClose) (\<lambda>_. ret (str, Some mr))))))"

text \<open>\<open>zmq_msg_init_size\<close> is not checked here, so a failure uses an uninitialised
  message; the string is given without its terminator.\<close>

definition send_frame_string :: "'w ext \<Rightarrow> nat \<Rightarrow> string \<Rightarrow> cflags \<Rightarrow> ('w st, int) prog" where
  "send_frame_string E socket str flags =
     bnd (z_msg_init_size E (length str)) (\<lambda>ini.
     if ini \<noteq> 0 then fail DeadPointer
     else
       bnd (z_msg_send E socket str flags) (\<lambda>rc.
       bnd (only_if (rc = -1) (report E ''E: send_frame_string failed: '')) (\<lambda>_.
       bnd (emit ZMsgClose) (\<lambda>_. ret rc))))"

text \<open>The buffer, and the values stored through \<open>out_size\<close> and \<open>out_more\<close>.\<close>

definition recv_frame_bytes :: "'w ext \<Rightarrow> nat \<Rightarrow> ('w st, ptr \<times> nat \<times> bool option) prog" where
  "recv_frame_bytes E socket =
     bnd (emit ZMsgInit) (\<lambda>_.
     bnd (z_msg_recv E socket 0) (\<lambda>(rc, d, mr).
     if rc = -1 then bnd (emit ZMsgClose) (\<lambda>_. ret (None, 0, None))
     else
       bnd (malloc E (length d)) (\<lambda>buffer.
       if buffer = None then bnd (emit ZMsgClose) (\<lambda>_. ret (None, 0, None))
       else
         bnd (store buffer (BBytes d)) (\<lambda>_.
         bnd (emit ZMsgClose) (\<lambda>_. ret (buffer, length d, Some mr))))))"

definition send_frame_bytes :: "'w ext \<Rightarrow> nat \<Rightarrow> string \<Rightarrow> nat \<Rightarrow> cflags \<Rightarrow> ('w st, int) prog" where
  "send_frame_bytes E socket data len flags =
     bnd (z_msg_init_size E len) (\<lambda>ini.
     if ini \<noteq> 0 then ret (-1)
     else
       bnd (read_bytes data len) (\<lambda>d.
       bnd (z_msg_send E socket d flags) (\<lambda>rc.
       bnd (emit ZMsgClose) (\<lambda>_. ret rc))))"

text \<open>
  The string wrappers. \<open>recv_string\<close> passes the address of its \<open>flags\<close> parameter as \<open>out_more\<close>,
  so the flags never reach libzmq.
\<close>

definition socket_recv_string :: "'w ext \<Rightarrow> ptr \<Rightarrow> cflags \<Rightarrow> ('w st, ptr) prog" where
  "socket_recv_string E self flags =
     bnd (load_sock self) (\<lambda>h. bnd (recv_frame_as_string E h) (\<lambda>(p, out_more). ret p))"

definition socket_send_string :: "'w ext \<Rightarrow> ptr \<Rightarrow> string \<Rightarrow> cflags \<Rightarrow> ('w st, int) prog" where
  "socket_send_string E self str flags = bnd (load_sock self) (\<lambda>h. send_frame_string E h str flags)"

definition socket_message_recv :: "'w ext \<Rightarrow> nat \<Rightarrow> ptr \<Rightarrow> ('w st, ptr) prog" where
  "socket_message_recv E fuel self = bnd (load_sock self) (\<lambda>h. message_recv E fuel h)"

definition socket_message_send :: "'w ext \<Rightarrow> ptr \<Rightarrow> ptr \<Rightarrow> cflags \<Rightarrow> ('w st, int) prog" where
  "socket_message_send E self msg flags = bnd (load_sock self) (\<lambda>h. message_send E msg h flags)"

section \<open>Contracts on a live socket\<close>

named_theorems socket_contracts "preconditions of the wrappers on a live socket"

definition failure_note :: "'w ext \<Rightarrow> 'w \<Rightarrow> int \<Rightarrow> string \<Rightarrow> event list" where
  "failure_note E w rc m = (if rc = -1 then [Printed (m @ x_strerror E w @ [CHR 0x0A])] else [])"

lemma sock_at_not_null: "sock_at s p h \<Longrightarrow> p \<noteq> None"
  by (auto simp: sock_at_def)

lemma io_on_failure_note [simp]: "io_on h (failure_note E w rc m) = []"
  by (simp add: failure_note_def)

lemma sockets_failure_note [simp]:
  "sockets_opened (failure_note E w rc m) = []" "sockets_closed (failure_note E w rc m) = []"
  by (simp_all add: failure_note_def)

lemma wp_socket_connect [socket_contracts]:
  assumes "sock_at s p h"
  shows "wp (socket_connect E k p ep) Q F s = (case x_connect E h ep (world s) of (rc, w) \<Rightarrow>
    Q rc (s\<lparr>world := w, trace := trace s @ ZConnect h ep rc #
      failure_note E w rc (''E: socket connect for '' @ kind_name k @ '' failed: '')\<rparr>))"
  using assms
  by (simp add: socket_connect_def wp_simps wp_load_sock_at sock_at_not_null failure_note_def
      split: prod.split)

lemma wp_socket_bind [socket_contracts]:
  assumes "sock_at s p h"
  shows "wp (socket_bind E k p ep) Q F s = (case x_bind E h ep (world s) of (rc, w) \<Rightarrow>
    Q rc (s\<lparr>world := w, trace := trace s @ ZBind h ep rc #
      failure_note E w rc (''E: socket bind for '' @ kind_name k @ '' failed: '')\<rparr>))"
  using assms
  by (simp add: socket_bind_def wp_simps wp_load_sock_at sock_at_not_null failure_note_def
      split: prod.split)

lemma wp_socket_send [socket_contracts]:
  assumes "sock_at s p h"
  shows "wp (socket_send E k p buf n fl) Q F s =
    (if n \<le> length buf then case x_send E h (take n buf) fl (world s) of (rc, w) \<Rightarrow>
       Q rc (s\<lparr>world := w, trace := trace s @ ZSend h (take n buf) fl rc #
         failure_note E w rc (''E: '' @ kind_name k @ ''_send for '' @ kind_name k @ '' failed: '')\<rparr>)
     else F OutOfBounds)"
  using assms
  by (simp add: socket_send_def wp_simps wp_load_sock_at sock_at_not_null failure_note_def
      split: prod.split)

lemma wp_socket_recv [socket_contracts]:
  assumes "sock_at s p h"
  shows "wp (socket_recv E k p buf n fl) Q F s =
    (case x_recv E h n fl (world s) of ((rc, d), w) \<Rightarrow>
       if length d \<le> length buf then
         Q (rc, d @ drop (length d) buf) (s\<lparr>world := w, trace := trace s @ ZRecv h rc d #
           failure_note E w rc (''E: '' @ kind_name k @ ''_recv for '' @ kind_name k @ '' failed: '')\<rparr>)
       else F OutOfBounds)"
  using assms
  by (simp add: socket_recv_def wp_simps wp_load_sock_at sock_at_not_null failure_note_def
      split: prod.split)

lemma wp_socket_sub_subscribe [socket_contracts]:
  assumes "sock_at s p h"
  shows "wp (socket_sub_subscribe E p topic) Q F s =
    (case x_setsockopt E h ZMQ_SUBSCRIBE topic (world s) of (rc, w) \<Rightarrow>
       Q rc (s\<lparr>world := w, trace := trace s @ ZOpt h ZMQ_SUBSCRIBE topic rc #
         failure_note E w rc (''E: socket_sub_subscribe on '' @ topic @ ''  failed: '')\<rparr>))"
  using assms
  by (simp add: socket_sub_subscribe_def wp_simps wp_load_sock_at sock_at_not_null failure_note_def
      split: prod.split)

lemma wp_socket_sub_unsubscribe [socket_contracts]:
  assumes "sock_at s p h"
  shows "wp (socket_sub_unsubscribe E p topic) Q F s =
    (case x_setsockopt E h ZMQ_UNSUBSCRIBE topic (world s) of (rc, w) \<Rightarrow>
       Q rc (s\<lparr>world := w, trace := trace s @ ZOpt h ZMQ_UNSUBSCRIBE topic rc #
         failure_note E w rc (''E: socket_sub_unsubscribe on '' @ topic @ ''  failed: '')\<rparr>))"
  using assms
  by (simp add: socket_sub_unsubscribe_def wp_simps wp_load_sock_at sock_at_not_null failure_note_def
      split: prod.split)

lemma wp_socket_get_raw [socket_contracts]:
  "sock_at s p h \<Longrightarrow> wp (socket_get_raw p) Q F s = Q (Some h) s"
  by (simp add: socket_get_raw_def wp_simps wp_load_sock_at sock_at_not_null)

lemma wp_socket_destroy [socket_contracts]:
  "heap s a = Some (BSock h) \<Longrightarrow> wp (socket_destroy E (Some (Some a))) Q F s =
     (case x_setsockopt E h ZMQ_LINGER zero_linger (world s) of (rc, w) \<Rightarrow>
       Q (Some None) (s\<lparr>world := x_close E h w,
         trace := trace s @ [ZOpt h ZMQ_LINGER zero_linger rc, ZClose h], heap := (heap s)(a := None)\<rparr>))"
  by (simp add: socket_destroy_def wp_simps wp_load_sock
      split: prod.split)

lemma wp_socket_destroy_null [socket_contracts]:
  "wp (socket_destroy E (Some None)) Q F s = Q (Some None) s"
  by (simp add: socket_destroy_def wp_simps)

text \<open>A null wrapper: the report is printed, then the wrapper is dereferenced.\<close>

lemma wp_null_wrapper:
  "wp (socket_connect E k None ep) Q F s = F NullPointer" "wp (socket_bind E k None ep) Q F s = F NullPointer"
  by (simp_all add: socket_connect_def socket_bind_def load_sock_def report_def wp_simps only_if_def)

lemma wp_socket_new:
  "wp (socket_new E k (Some c)) Q F s =
     (case x_malloc E 8 (world s) of (ok, w) \<Rightarrow>
        if \<not> ok then Q None (s\<lparr>world := w, trace := trace s @
          [Printed (''E: allocate memory for '' @ kind_name k @ '' failed: '' @ x_strerror E w @ [CHR 0x0A])]\<rparr>)
        else (case x_socket E k w of
            (None, w') \<Rightarrow> Q None (s\<lparr>fresh := Suc (fresh s), world := w', trace := trace s @ [ZOpen k None,
              Printed (''E: create socket for '' @ kind_name k @ '' failed: '' @ x_strerror E w' @ [CHR 0x0A])],
              heap := (heap s)(fresh s := None)\<rparr>)
          | (Some h, w') \<Rightarrow> Q (Some (fresh s)) (s\<lparr>fresh := Suc (fresh s), world := w',
              trace := trace s @ [ZOpen k (Some h)], heap := (heap s)(fresh s \<mapsto> BSock h)\<rparr>)))"
proof -
  obtain ok w where m: "x_malloc E 8 (world s) = (ok, w)" by fastforce
  obtain r w' where r: "x_socket E k w = (r, w')" by fastforce
  show ?thesis
    by (cases r) (simp_all add: socket_new_def wp_simps m r)
qed

section \<open>Properties of the wrappers\<close>

text \<open>
  C37. Life cycle: creating a socket and destroying it again leaves the heap as it was, on every
  path. If creation fails the result is NULL and no handle is open; if it succeeds, the one
  handle that was opened is closed, after its linger period has been set to zero.
\<close>

theorem socket_life_cycle:
  assumes "heap_ok s"
  shows "wp (bnd (socket_new E k (Some c)) (\<lambda>p. bnd (socket_destroy E (Some p)) (\<lambda>v. ret (p, v))))
    (\<lambda>(p, v) t. heap t = heap s \<and> v = Some None \<and>
       (if p = None then \<forall>h. ZOpen k (Some h) \<notin> set (drop (length (trace s)) (trace t))
        else \<exists>h rc. trace t = trace s @
               [ZOpen k (Some h), ZOpt h ZMQ_LINGER zero_linger rc, ZClose h])) no_fault s"
  using assms
  by (auto simp: wp_simps wp_socket_new wp_socket_destroy wp_socket_destroy_null fun_eq_iff
      split: prod.split option.split)

theorem socket_life_cycle_witness:
  "\<exists>r t. bnd (socket_new sim_ext socket_pair (Some 1))
      (\<lambda>p. bnd (socket_destroy sim_ext (Some p)) (\<lambda>v. ret (p, v))) (sim_state empty_script) = Inr (r, t)
    \<and> heap t = Map.empty"
  using wp_runs [OF socket_life_cycle [OF sim_state_ok, of sim_ext socket_pair 1 empty_script]]
  by (auto split: prod.splits)

text \<open>
  Destroying through the same variable a second time does nothing: the first call leaves
  NULL in it, and a NULL variable or a null address is ignored.
\<close>

theorem socket_destroy_idempotent:
  assumes "heap s a = Some (BSock h)"
  shows "wp (bnd (socket_destroy E (Some (Some a))) (\<lambda>v. bnd (gets id) (\<lambda>s1.
      bnd (socket_destroy E v) (\<lambda>v'. ret (s1, v, v')))))
    (\<lambda>(s1, v, v') t. t = s1 \<and> v' = v \<and> heap t a = None) no_fault s"
  using assms
  by (simp add: wp_simps wp_socket_destroy wp_socket_destroy_null
      split: prod.split)

theorem socket_destroy_idempotent_witness:
  "\<exists>r t. bnd (socket_destroy sim_ext (Some (Some 0))) (\<lambda>v. bnd (gets id) (\<lambda>s1.
      bnd (socket_destroy sim_ext v) (\<lambda>v'. ret (s1, v, v'))))
      (sim_state empty_script\<lparr>heap := [0 \<mapsto> BSock 3]\<rparr>) = Inr (r, t) \<and> heap t 0 = None"
  using wp_runs [OF socket_destroy_idempotent [of "sim_state empty_script\<lparr>heap := [0 \<mapsto> BSock 3]\<rparr>" 0 3 sim_ext]]
  by (auto split: prod.splits)

text \<open>
  A frame received as a string comes back as a fresh block that holds exactly the frame's
  bytes and a terminating NUL, and is the only block allocated; on a receive error the result is
  NULL and nothing is allocated. The libzmq frame is closed on every path that returns. The one
  way to fault is the unchecked \<open>malloc\<close>.
\<close>

theorem recv_frame_as_string_spec:
  "wp (recv_frame_as_string E h)
    (\<lambda>(p, out_more) t. \<exists>rc d mr es. trace t = trace s @ ZMsgInit # ZMsgRecv h rc d mr # es @ [ZMsgClose] \<and>
       (if rc = -1 then p = None \<and> out_more = None \<and> heap t = heap s
        else p = Some (fresh s) \<and> out_more = Some mr \<and>
             heap t = (heap s)(fresh s \<mapsto> BBytes (d @ [NUL])) \<and> es = []))
    (\<lambda>f. f = NullPointer \<and> \<not> malloc_law E) s"
  by (auto simp: recv_frame_as_string_def wp_simps dest: malloc_lawD split: prod.split)

text \<open>
  \<open>recv_string\<close> ignores its flags: the call behaves the same whatever they are, and libzmq
  is always asked for a blocking receive (a caller that passes \<open>ZMQ_DONTWAIT\<close> blocks).
\<close>

theorem recv_string_ignores_flags:
  "socket_recv_string E p fl = socket_recv_string E p 0 \<and>
   (sock_at s p h \<longrightarrow> wp (socket_recv_string E p fl)
      (\<lambda>_ t. \<exists>r w es. x_msg_recv E h 0 (world s) = (r, w) \<and>
         trace t = trace s @ ZMsgInit # ZMsgRecv h (fst r) (fst (snd r)) (snd (snd r)) # es)
      (\<lambda>f. f = NullPointer) s)"
  by (auto simp: socket_recv_string_def recv_frame_as_string_def wp_simps wp_load_sock_at
      split: prod.split)

theorem recv_string_ignores_flags_witness:
  "sock_at (sim_state empty_script\<lparr>heap := [0 \<mapsto> BSock 3]\<rparr>) (Some 0) 3 \<and>
   (\<exists>t. socket_recv_string sim_ext (Some 0) ZMQ_DONTWAIT
      (sim_state (empty_script\<lparr>frames_in := [(''a'', False)]\<rparr>)\<lparr>heap := [0 \<mapsto> BSock 3], fresh := 1\<rparr>) = Inr (Some 1, t))"
proof -
  let ?s = "sim_state (empty_script\<lparr>frames_in := [(''a'', False)]\<rparr>)\<lparr>heap := [0 \<mapsto> BSock 3], fresh := 1\<rparr>"
  have "socket_recv_string sim_ext (Some 0) ZMQ_DONTWAIT ?s = socket_recv_string sim_ext (Some 0) 0 ?s"
    using recv_string_ignores_flags [of sim_ext "Some 0" ZMQ_DONTWAIT ?s 3] by simp
  moreover have "wp (socket_recv_string sim_ext (Some 0) 0) (\<lambda>r t. r = Some 1) no_fault ?s"
    by (simp add: socket_recv_string_def recv_frame_as_string_def wp_simps wp_load_sock)
  ultimately show ?thesis by (auto simp: sock_at_def dest!: wp_runs)
qed

text \<open>
  The header and the source agree: for every socket type the operations the header declares
  are exactly those the macros instantiate, each once.
\<close>

theorem declared_ops_instantiated:
  "set (declared_ops k) = set (instantiated_ops k) \<and> distinct (instantiated_ops k)"
  by (cases k) auto

end
