(* ===== verification/Common.thy ===== *)
theory Common
  imports Sockets
begin

text \<open>
  \<open>client/chat_client_common.c\<close> and \<open>.h\<close>: the addresses, commands and control messages the
  threads share, and the two ways they log: to the terminal (\<open>log_app_print\<close>, the UI and the
  main thread) and through a PUSH socket (\<open>log_app\<close>, a static function with the same body in
  the controller and in the receiver). The preconditions of both follow.
\<close>

section \<open>Addresses, commands, messages\<close>

definition INPROC_SHUTDOWN_ADDR :: string where "INPROC_SHUTDOWN_ADDR = ''inproc://shutdown''"
definition CHAT_SERVER_SUB_ADDRESS :: string where "CHAT_SERVER_SUB_ADDRESS = ''tcp://localhost:5556''"
definition CHAT_SERVER_REQ_ADDRESS :: string where "CHAT_SERVER_REQ_ADDRESS = ''tcp://localhost:5555''"
definition CONTROLLER_RECEIVER_COMMAND_ADDRESS :: string where
  "CONTROLLER_RECEIVER_COMMAND_ADDRESS = ''inproc://controller-receiver''"
definition CONROLLER_UI_COMMAND_ADDRESS :: string where
  "CONROLLER_UI_COMMAND_ADDRESS = ''inproc://controller-ui''"
definition CONTROLLER_UI_NOTIFICATION_ADDRESS :: string where
  "CONTROLLER_UI_NOTIFICATION_ADDRESS = ''inproc://ui-notifications''"
definition APP_LOGS_ADDRESS :: string where "APP_LOGS_ADDRESS = ''inproc://app_logs''"

definition CHAT_COMMAND_QUIT :: string where "CHAT_COMMAND_QUIT = ''/quit''"
definition CHAT_COMMAND_ROOMS :: string where "CHAT_COMMAND_ROOMS = ''/rooms''"
definition CHAT_COMMAND_JOIN :: string where "CHAT_COMMAND_JOIN = ''/join''"
definition CHAT_COMMAND_LEAVE :: string where "CHAT_COMMAND_LEAVE = ''/leave''"
definition CHAT_COMMAND_MSG :: string where "CHAT_COMMAND_MSG = ''/msg''"
definition CHAT_COMMAND_DM :: string where "CHAT_COMMAND_DM = ''/dm''"

definition CHAT_MESSAGE_KILL_UI :: string where "CHAT_MESSAGE_KILL_UI = ''KILL_UI''"
definition CHAT_MESSAGE_KILL_RECEIVER :: string where "CHAT_MESSAGE_KILL_RECEIVER = ''KILL_RECEIVER''"
definition CHAT_MESSAGE_KILL_CONTROLLER :: string where
  "CHAT_MESSAGE_KILL_CONTROLLER = ''KILL_CONTROLLER''"
definition CHAT_MESSAGE_SEND_ACK :: string where "CHAT_MESSAGE_SEND_ACK = ''[ACK] message sent''"
definition CHAT_TOPIC_GENERAL :: string where "CHAT_TOPIC_GENERAL = ''room:general''"

text \<open>The formats with one \<open>%s\<close>.\<close>

definition CHAT_MESSAGE_JOIN_ROOM :: "string \<Rightarrow> string" where
  "CHAT_MESSAGE_JOIN_ROOM room = ''+room:'' @ room"
definition CHAT_MESSAGE_LEAVE_ROOM :: "string \<Rightarrow> string" where
  "CHAT_MESSAGE_LEAVE_ROOM room = ''-room:'' @ room"
definition CHAT_TOPIC_USER :: "string \<Rightarrow> string" where
  "CHAT_TOPIC_USER user = ''user:'' @ user"

section \<open>Logging\<close>

text \<open>
  The argument of both functions is the text that the format and its arguments make. It passes
  through two local arrays.
\<close>

definition log_app_print :: "'w ext \<Rightarrow> string \<Rightarrow> ('w st, unit) prog" where
  "log_app_print E msg =
     bnd (local_array E 1024) (\<lambda>body0.
     bnd (snprintf_at body0 0 1024 msg) (\<lambda>(body, _).
     bnd (local_array E 1100) (\<lambda>full0.
     bnd (cstr_at body 0) (\<lambda>b.
     bnd (snprintf_at full0 0 1100 b) (\<lambda>(full_log, _).
     bnd (cstr_at full_log 0) (\<lambda>f. printf (''[LOG]'' @ f)))))))"

definition log_app :: "'w ext \<Rightarrow> ptr \<Rightarrow> string \<Rightarrow> ('w st, unit) prog" where
  "log_app E socket_push_logs msg =
     bnd (local_array E 1024) (\<lambda>body0.
     bnd (snprintf_at body0 0 1024 msg) (\<lambda>(body, _).
     bnd (local_array E 1100) (\<lambda>full0.
     bnd (cstr_at body 0) (\<lambda>b.
     bnd (snprintf_at full0 0 1100 b) (\<lambda>(full_log, _).
     bnd (cstr_at full_log 0) (\<lambda>f.
     bnd (socket_send E socket_push socket_push_logs full_log (length f) ZMQ_DONTWAIT) (\<lambda>_.
     ret ())))))))"

text \<open>A log message that ends in \<open>%s\<close> and a newline, with \<open>strerror(errno)\<close>.\<close>

definition log_error :: "'w ext \<Rightarrow> ptr \<Rightarrow> string \<Rightarrow> ('w st, unit) prog" where
  "log_error E socket_push_logs msg =
     bnd (gets world) (\<lambda>w. log_app E socket_push_logs (msg @ x_strerror E w @ [CHR 0x0A]))"

text \<open>\<open>perror\<close>.\<close>

definition perror :: "'w ext \<Rightarrow> string \<Rightarrow> ('w st, unit) prog" where
  "perror E m =
     bnd (gets world) (\<lambda>w. emit (PrintedErr (m @ '': '' @ x_strerror E w @ [CHR 0x0A])))"

text \<open>The argument structure of a thread: the libzmq context and the array with the user name.\<close>

definition load_args :: "ptr \<Rightarrow> ('w st, ptr \<times> string) prog" where
  "load_args arg =
     bnd (load arg) (\<lambda>b. case b of BArgs context username \<Rightarrow> ret (context, username) | _ \<Rightarrow> fail DeadPointer)"

text \<open>
  A NULL socket in a poll item makes libzmq poll the descriptor, which is 0; after a poll,
  \<open>readable rv i\<close> is the test of \<open>items[i].revents\<close>.
\<close>

definition poll_item :: "nat option \<Rightarrow> pollitem" where
  "poll_item raw = (case raw of None \<Rightarrow> PollFd 0 | Some h \<Rightarrow> PollSocket h)"

definition readable :: "bool list \<Rightarrow> nat \<Rightarrow> bool" where
  "readable rv i \<longleftrightarrow> i < length rv \<and> rv ! i"

section \<open>Preconditions of the log functions\<close>

lemma length_local_array [simp]: "length (take n (xs @ replicate n c)) = n"
  by simp

lemma cs_short: "length x \<le> n \<Longrightarrow> cs (take n (cs x)) = cs x"
  using cs_length [of x] by simp

lemma wp_local_arrayI: "(\<And>b. length b = n \<Longrightarrow> Q b s) \<Longrightarrow> wp (local_array E n) Q F s"
  by (simp add: wp_local_array)

lemma wp_log_text:
  assumes "\<And>b. has_cstr b 0 \<Longrightarrow> cs b = cs (take 1023 msg) \<Longrightarrow> Q b s"
  shows "wp (local_array E 1024) (\<lambda>body0. wp (snprintf_at body0 0 1024 msg) (\<lambda>(body, _).
      wp (local_array E 1100) (\<lambda>full0. wp (cstr_at body 0) (\<lambda>b.
      wp (snprintf_at full0 0 1100 b) (\<lambda>(full_log, _). Q full_log) F) F) F) F) F s"
proof (rule wp_local_arrayI, rule wp_snprintf_whole, assumption, simp, unfold case_prod_conv, rule wp_local_arrayI)
  fix body full0 :: string
  assume b: "has_cstr body 0" "cs body = cs (take (1024 - 1) msg)" and f: "length full0 = 1100"
  have "wp (snprintf_at full0 0 1100 (cs body)) (\<lambda>(full_log, _). Q full_log) F s"
  proof (rule wp_snprintf_whole [OF f], simp, unfold case_prod_conv)
    fix b' :: string
    assume b': "has_cstr b' 0" "cs b' = cs (take (1100 - 1) (cs body))"
    from b(2) have "cs b' = cs (take 1023 msg)"
      using b'(2) cs_short [of "take 1023 msg" 1099] by simp
    with b'(1) show "Q b' s" by (rule assms)
  qed
  with b show "wp (cstr_at body 0) (\<lambda>b. wp (snprintf_at full0 0 1100 b)
      (\<lambda>(full_log, _). Q full_log) F) F s"
    by (simp add: wp_cstr_whole)
qed

lemma wp_log_app:
  assumes "sock_at s p h"
    and "\<And>rc w. x_send E h (cs (take 1023 msg)) ZMQ_DONTWAIT (world s) = (rc, w) \<Longrightarrow>
      Q () (s\<lparr>world := w, trace := trace s @ ZSend h (cs (take 1023 msg)) ZMQ_DONTWAIT rc #
         failure_note E w rc (''E: '' @ kind_name socket_push @ ''_send for '' @ kind_name socket_push @ '' failed: '')\<rparr>)"
  shows "wp (log_app E p msg) Q F s"
  unfolding log_app_def wp_bnd case_prod_beta
proof (rule wp_log_text [unfolded case_prod_beta])
  fix b :: string
  assume b: "has_cstr b 0" "cs b = cs (take 1023 msg)"
  define m where "m = cs (take 1023 msg)"
  have "take (length m) b = m" "length m \<le> length b"
    using b(2) cs_length [of b] take_length_cs [of b] by (simp_all add: m_def)
  then show "wp (cstr_at b 0) (\<lambda>f. wp (socket_send E socket_push p b (length f) ZMQ_DONTWAIT)
      (\<lambda>_. wp (ret ()) Q F) F) F s"
    using assms(2) b
    by (simp only: wp_cstr_whole wp_socket_send [OF assms(1)] wp_ret m_def [symmetric] if_True
        split: prod.split) simp
qed

lemma wp_log_app_print:
  assumes "Q () (s\<lparr>trace := trace s @ [Printed (''[LOG]'' @ cs (take 1023 msg))]\<rparr>)"
  shows "wp (log_app_print E msg) Q F s"
  unfolding log_app_print_def wp_bnd case_prod_beta
  by (rule wp_log_text [unfolded case_prod_beta]) (simp only: wp_cstr_whole wp_printf assms)

end
