(* ===== verification/Dialogue.thy ===== *)
theory Dialogue
  imports Common
begin

text \<open>
  The calculus in which the handlers of the threads are verified. The assertion \<open>seen_off cl\<close> fixes
  the heap and, for every socket but the one used for logging, the exchange with libzmq since a
  reference point of the trace; no socket was opened since, and those closed are \<open>cl\<close>, in this
  order (\<open>seen\<close>: none). Each operation has one rule (collection \<open>seen_rules\<close>), used
  from the first statement of a handler to its last; the premises speak of the heap only, so
  they stay valid along the way.
\<close>

section \<open>The assertion\<close>

definition sock_in :: "(nat \<rightharpoonup> block) \<Rightarrow> ptr \<Rightarrow> nat \<Rightarrow> bool" where
  "sock_in H p h \<longleftrightarrow> (\<exists>a. p = Some a \<and> H a = Some (BSock h))"

definition seen_off ::
    "nat list \<Rightarrow> nat \<Rightarrow> (nat \<rightharpoonup> block) \<Rightarrow> event list \<Rightarrow> (nat \<Rightarrow> event list) \<Rightarrow> 'w st \<Rightarrow> bool" where
  "seen_off cl lg H tr io s \<longleftrightarrow> heap_ok s \<and> heap s = H \<and>
     (\<exists>es. trace s = tr @ es \<and> (\<forall>h. h \<noteq> lg \<longrightarrow> io_on h es = io h) \<and>
        sockets_opened es = [] \<and> sockets_closed es = cl)"

abbreviation seen ::
    "nat \<Rightarrow> (nat \<rightharpoonup> block) \<Rightarrow> event list \<Rightarrow> (nat \<Rightarrow> event list) \<Rightarrow> 'w st \<Rightarrow> bool" where
  "seen \<equiv> seen_off []"

lemmas seen_def = seen_off_def

named_theorems seen_rules "one rule for each operation a handler uses"

lemma sock_in_update [simp]: "sock_in H p h \<Longrightarrow> H a = None \<Longrightarrow> sock_in (H(a \<mapsto> b)) p h"
  by (auto simp: sock_in_def)

lemma seen_sock_at: "seen_off cl lg H tr io s \<Longrightarrow> sock_in H p h \<Longrightarrow> sock_at s p h"
  by (auto simp: seen_def sock_in_def sock_at_def)

lemma seen_start: "heap_ok s \<Longrightarrow> seen lg (heap s) (trace s) (\<lambda>_. []) s"
  by (simp add: seen_def)

lemma seen_step:
  assumes "seen_off cl lg H tr io s"
    and "heap t = heap s" "fresh t = fresh s"
    and "trace t = trace s @ es" "sockets_opened es = []" "sockets_closed es = []"
    and "\<And>h. h \<noteq> lg \<Longrightarrow> io_on h es = new h"
  shows "seen_off cl lg H tr (\<lambda>h. io h @ new h) t"
  using assms unfolding seen_def heap_ok_def by fastforce

lemma seen_quiet:
  assumes "seen_off cl lg H tr io s" "heap t = heap s" "fresh t = fresh s"
    and "trace t = trace s @ es" "sockets_opened es = []" "sockets_closed es = []"
    and "\<And>h. h \<noteq> lg \<Longrightarrow> io_on h es = []"
  shows "seen_off cl lg H tr io t"
  using seen_step [OF assms(1-6), of "\<lambda>_. []"] assms(7) by simp

lemma seen_one:
  assumes "seen_off cl lg H tr io s" "heap t = heap s" "fresh t = fresh s"
    and "trace t = trace s @ e # failure_note E w rc m" "handle_of e = Some h" "h \<noteq> lg" "e \<noteq> ZClose h"
  shows "seen_off cl lg H tr (io(h := io h @ [e])) t"
proof -
  have "opens_of e = []" "closes_of e = []" using assms(5,7) by (cases e; simp)+
  then have "seen_off cl lg H tr (\<lambda>h'. io h' @ (if h' = h then [e] else [])) t"
    using assms by (intro seen_step [OF assms(1-4)]) auto
  moreover have "(\<lambda>h'. io h' @ (if h' = h then [e] else [])) = io(h := io h @ [e])" by auto
  ultimately show ?thesis by simp
qed

section \<open>Rules\<close>

lemma seen_log [seen_rules]:
  assumes "seen_off cl lg H tr io s" "sock_in H p lg" "\<And>t. seen_off cl lg H tr io t \<Longrightarrow> Q () t"
  shows "wp (log_app E p msg) Q F s"
  by (rule wp_log_app [OF seen_sock_at [OF assms(1,2)]], rule assms(3), rule seen_quiet [OF assms(1)]) simp+

lemma seen_log_error [seen_rules]:
  assumes "seen_off cl lg H tr io s" "sock_in H p lg" "\<And>t. seen_off cl lg H tr io t \<Longrightarrow> Q () t"
  shows "wp (log_error E p msg) Q F s"
  unfolding log_error_def wp_bnd wp_gets by (rule seen_log [OF assms(1,2)], rule assms(3))

lemma seen_send [seen_rules]:
  assumes "seen_off cl lg H tr io s" "sock_in H p h" "h \<noteq> lg" "n \<le> length buf"
    and "\<And>rc t. seen_off cl lg H tr (io(h := io h @ [ZSend h (take n buf) fl rc])) t \<Longrightarrow> Q rc t"
  shows "wp (socket_send E k p buf n fl) Q F s"
  using assms(3,4)
  by (auto simp: wp_socket_send [OF seen_sock_at [OF assms(1,2)]] split: prod.split
      intro!: assms(5) seen_one [OF assms(1)])

lemma seen_send_exact:
  assumes "seen_off cl lg H tr io s" "sock_in H p h" "h \<noteq> lg" "n \<le> length buf"
    and "\<And>rc w t. x_send E h (take n buf) fl (world s) = (rc, w) \<Longrightarrow>
      seen_off cl lg H tr (io(h := io h @ [ZSend h (take n buf) fl rc])) t \<Longrightarrow> Q rc t"
  shows "wp (socket_send E k p buf n fl) Q F s"
  using assms(3,4)
  by (auto simp: wp_socket_send [OF seen_sock_at [OF assms(1,2)]] split: prod.split
      intro!: assms(5) seen_one [OF assms(1)])

lemma seen_recv [seen_rules]:
  assumes "seen_off cl lg H tr io s" "sock_in H p h" "h \<noteq> lg" "recv_law E" "n \<le> length buf"
    and "\<And>t w. x_recv E h n fl (world s) = ((-1, []), w) \<Longrightarrow>
      seen_off cl lg H tr (io(h := io h @ [ZRecv h (-1) []])) t \<Longrightarrow> Q (-1, buf) t"
    and "\<And>m t w. x_recv E h n fl (world s) = ((int (length m), take n m), w) \<Longrightarrow>
      seen_off cl lg H tr (io(h := io h @ [ZRecv h (int (length m)) (take n m)])) t \<Longrightarrow>
      Q (int (length m), take n m @ drop (min (length m) n) buf) t"
  shows "wp (socket_recv E k p buf n fl) Q F s"
proof -
  obtain rc d w where x: "x_recv E h n fl (world s) = ((rc, d), w)"
    by (metis surj_pair)
  let ?note = "failure_note E w rc (''E: '' @ kind_name k @ ''_recv for '' @ kind_name k @ '' failed: '')"
  let ?t = "s\<lparr>world := w, trace := trace s @ ZRecv h rc d # ?note\<rparr>"
  have t: "seen_off cl lg H tr (io(h := io h @ [ZRecv h rc d])) ?t"
    using assms(3) by (intro seen_one [OF assms(1)]) simp_all
  from assms(4) x have "Q (rc, d @ drop (length d) buf) ?t"
  proof (cases rule: recv_lawE)
    case 1
    then show ?thesis using assms(6) [of w ?t] t x by simp
  next
    case (2 m)
    then show ?thesis using assms(7) [of m w ?t] t x by simp
  qed
  then show ?thesis
    using x recv_law_length [OF assms(4) x] assms(5)
    by (simp add: wp_socket_recv [OF seen_sock_at [OF assms(1,2)]])
qed

lemma seen_subscribe [seen_rules]:
  assumes "seen_off cl lg H tr io s" "sock_in H p h" "h \<noteq> lg"
    and "\<And>rc t. seen_off cl lg H tr (io(h := io h @ [ZOpt h ZMQ_SUBSCRIBE topic rc])) t \<Longrightarrow> Q rc t"
  shows "wp (socket_sub_subscribe E p topic) Q F s"
  using assms(3)
  by (auto simp: wp_socket_sub_subscribe [OF seen_sock_at [OF assms(1,2)]] split: prod.split
      intro!: assms(4) seen_one [OF assms(1)])

lemma seen_unsubscribe [seen_rules]:
  assumes "seen_off cl lg H tr io s" "sock_in H p h" "h \<noteq> lg"
    and "\<And>rc t. seen_off cl lg H tr (io(h := io h @ [ZOpt h ZMQ_UNSUBSCRIBE topic rc])) t \<Longrightarrow> Q rc t"
  shows "wp (socket_sub_unsubscribe E p topic) Q F s"
  using assms(3)
  by (auto simp: wp_socket_sub_unsubscribe [OF seen_sock_at [OF assms(1,2)]] split: prod.split
      intro!: assms(4) seen_one [OF assms(1)])

lemma seen_poll [seen_rules]:
  assumes "seen_off cl lg H tr io s" "\<And>rc rv t. seen_off cl lg H tr io t \<Longrightarrow> Q (rc, rv) t"
  shows "wp (z_poll E items tm) Q F s"
  by (auto simp: wp_z_poll split: prod.split intro!: assms(2) seen_quiet [OF assms(1)])

lemma seen_ask [seen_rules]:
  assumes "seen_off cl lg H tr io s" "\<And>r t. seen_off cl lg H tr io t \<Longrightarrow> Q r t"
  shows "wp (ask f) Q F s"
  by (auto simp: wp_ask split: prod.split intro!: assms(2) seen_quiet [OF assms(1), where es = "[]"])

lemma seen_print [seen_rules]:
  assumes "seen_off cl lg H tr io s" "\<And>t. seen_off cl lg H tr io t \<Longrightarrow> Q () t"
  shows "wp (printf msg) Q F s"
  by (auto simp: wp_printf intro!: assms(2) seen_quiet [OF assms(1), where es = "[Printed msg]"])

lemma seen_gets [seen_rules]:
  assumes "seen_off cl lg H tr io s" "\<And>r. seen_off cl lg H tr io s \<Longrightarrow> Q r s"
  shows "wp (gets g) Q F s"
  by (simp add: wp_gets assms)

lemma seen_unpack_exact:
  assumes "seen_off cl lg H tr io s" "\<And>t w w'. x_unpack E d w = (None, w') \<Longrightarrow> seen_off cl lg H tr io t \<Longrightarrow> Q None t"
    and "\<And>a e t w w'. x_unpack E d w = (Some e, w') \<Longrightarrow> H a = None \<Longrightarrow>
      seen_off cl lg (H(a \<mapsto> BEnv e)) tr io t \<Longrightarrow> Q (Some a) t"
  shows "wp (pb_unpack E d) Q F s"
proof -
  have n: "Q None (s\<lparr>world := w\<rparr>)" if "x_unpack E d (world s) = (None, w)" for w
    by (rule assms(2) [OF that], rule seen_quiet [OF assms(1), where es = "[]"]) simp_all
  have "Q (Some (fresh s)) (s\<lparr>world := w, heap := (heap s)(fresh s \<mapsto> BEnv e), fresh := Suc (fresh s)\<rparr>)"
    if "x_unpack E d (world s) = (Some e, w)" for w e
    using assms(1) that by (intro assms(3) [OF that]) (auto simp: seen_def heap_ok_def)
  with n show ?thesis by (auto simp: wp_pb_unpack split: prod.split option.split)
qed

lemma seen_unpack [seen_rules]:
  assumes "seen_off cl lg H tr io s" "\<And>t. seen_off cl lg H tr io t \<Longrightarrow> Q None t"
    and "\<And>a e t w w'. x_unpack E d w = (Some e, w') \<Longrightarrow> H a = None \<Longrightarrow>
      seen_off cl lg (H(a \<mapsto> BEnv e)) tr io t \<Longrightarrow> Q (Some a) t"
  shows "wp (pb_unpack E d) Q F s"
  by (rule seen_unpack_exact [OF assms(1)]) (rule assms(2,3); assumption)+

lemma seen_load_env [seen_rules]:
  assumes "seen_off cl lg H tr io s" "H a = Some (BEnv e)" "seen_off cl lg H tr io s \<Longrightarrow> Q e s"
  shows "wp (load_env (Some a)) Q F s"
  using assms by (subst wp_load_env) (auto simp: seen_def)

lemma seen_free [seen_rules]:
  assumes "seen_off cl lg H tr io s" "H a = Some b" "\<And>t. seen_off cl lg (H(a := None)) tr io t \<Longrightarrow> Q () t"
  shows "wp (free (Some a)) Q F s"
proof -
  have "Q () (s\<lparr>heap := (heap s)(a := None)\<rparr>)"
    using assms(1) by (intro assms(3)) (auto simp: seen_def heap_ok_def)
  then show ?thesis using assms(1,2) by (simp add: wp_free seen_def)
qed

lemma seen_cstr [seen_rules]:
  assumes "has_cstr b k \<Longrightarrow> Q (cs (drop k b)) s" "\<not> has_cstr b k \<Longrightarrow> F OutOfBounds"
  shows "wp (cstr_at b k) Q F s"
  using assms by (simp add: wp_cstr_at cs_def)

lemma seenD:
  assumes "seen_off cl lg H tr io t"
  shows "heap t = H \<and> heap_ok t \<and> (\<exists>es. trace t = tr @ es \<and> (\<forall>h. h \<noteq> lg \<longrightarrow> io_on h es = io h) \<and>
    sockets_opened es = [] \<and> sockets_closed es = cl)"
  using assms by (auto simp: seen_def)

lemma heap_restored [simp]: "H a = None \<Longrightarrow> H(a := None) = H"
  by auto

definition closes :: "nat \<Rightarrow> event list \<Rightarrow> event list \<Rightarrow> bool" where
  "closes h es es' \<longleftrightarrow> (\<exists>rc. es' = es @ [ZOpt h ZMQ_LINGER zero_linger rc, ZClose h])"

lemma seen_destroy:
  assumes "seen_off cl lg H tr io s" "H a = Some (BSock h)" "h \<noteq> lg"
    and "\<And>rc t. seen_off (cl @ [h]) lg (H(a := None)) tr
      (io(h := io h @ [ZOpt h ZMQ_LINGER zero_linger rc, ZClose h])) t \<Longrightarrow> Q (Some None) t"
  shows "wp (socket_destroy E (Some (Some a))) Q F s"
proof -
  have "heap s a = Some (BSock h)" using assms(1,2) by (simp add: seen_def)
  then show ?thesis
    apply (simp add: wp_socket_destroy split: prod.split)
    apply (intro allI impI assms(4))
    using assms(1,3) unfolding seen_def heap_ok_def by auto
qed

text \<open>The socket for the logs is closed last.\<close>

lemma seen_destroy_logs:
  assumes "seen_off cl lg H tr io s" "sock_in H p lg"
    and "\<And>t. seen_off (cl @ [lg]) lg (H(the p := None)) tr io t \<Longrightarrow> Q (Some None) t"
  shows "wp (socket_destroy E (Some p)) Q F s"
proof -
  obtain a where p: "p = Some a" "H a = Some (BSock lg)" using assms(2) by (auto simp: sock_in_def)
  then have "heap s a = Some (BSock lg)" using assms(1) by (simp add: seen_def)
  then show ?thesis
    unfolding p(1)
    apply (simp add: wp_socket_destroy split: prod.split)
    apply (intro allI impI assms(3) [unfolded p(1), simplified])
    using assms(1) unfolding seen_def heap_ok_def by auto
qed

definition sent :: "nat \<Rightarrow> string list \<Rightarrow> event list \<Rightarrow> bool" where
  "sent h ds es \<longleftrightarrow> (\<exists>rcs. length rcs = length ds \<and> es = map2 (\<lambda>d rc. ZSend h d 0 rc) ds rcs)"

lemma sent_simps [simp]:
  "sent h [] []" "sent h [d] [ZSend h d 0 rc]"
  by (simp_all add: sent_def exI [of _ "[rc]"])

definition only_sends :: "nat \<Rightarrow> event list \<Rightarrow> bool" where
  "only_sends h es \<longleftrightarrow> (\<exists>ds. sent h ds es)"

lemma only_sends_simps [simp]: "only_sends h []"
  unfolding only_sends_def by (rule exI [of _ "[]"]) simp

lemma sent_append:
  assumes "sent h ds es" "sent h ds' es'"
  shows "sent h (ds @ ds') (es @ es')"
proof -
  from assms obtain rcs rcs' where "length rcs = length ds" "es = map2 (\<lambda>d rc. ZSend h d 0 rc) ds rcs"
      "length rcs' = length ds'" "es' = map2 (\<lambda>d rc. ZSend h d 0 rc) ds' rcs'"
    unfolding sent_def by blast
  then show ?thesis unfolding sent_def by (intro exI [of _ "rcs @ rcs'"]) simp
qed

lemma only_sends_append: "only_sends h es \<Longrightarrow> sent h ds es' \<Longrightarrow> only_sends h (es @ es')"
  unfolding only_sends_def using sent_append by blast

lemma seen_send_cs:
  assumes "seen_off cl lg H tr io s" "sock_in H p h" "h \<noteq> lg"
    and "\<And>rc t. seen_off cl lg H tr (io(h := io h @ [ZSend h (cs buf) fl rc])) t \<Longrightarrow> Q rc t"
  shows "wp (socket_send E k p buf (length (cs buf)) fl) Q F s"
  by (rule seen_send [OF assms(1-3) cs_length]) (use assms(4) in simp)

text \<open>
  The three threads read the shutdown channel with the same code; \<open>L\<close> is the log call of the
  thread, \<open>ok\<close> its code for going on.
\<close>

lemma seen_shutdown:
  assumes "recv_law E" "sock_in H p hs" "hs \<noteq> lg" "seen_off cl lg H tr io s"
    and log: "\<And>io' Q t. seen_off cl lg H tr io' t \<Longrightarrow> (\<And>u. seen_off cl lg H tr io' u \<Longrightarrow> Q () u) \<Longrightarrow> wp L Q F t"
  shows "wp (bnd (socket_recv E socket_sub p (replicate 64 NUL) 63 0) (\<lambda>(bytes, shutdown_msg).
     if bytes > 0 then
       let bytes = (if bytes \<ge> 64 then 63 else bytes) in
       bnd (poke shutdown_msg bytes NUL) (\<lambda>shutdown_msg.
       bnd (cstr_at shutdown_msg 0) (\<lambda>m.
       if m = CHAT_MESSAGE_KILL_CONTROLLER then bnd L (\<lambda>_. ret (-1)) else ret ok))
     else ret ok))
    (\<lambda>r t. \<exists>n d w. x_recv E hs 63 0 (world s) = ((n, d), w) \<and>
       seen_off cl lg H tr (io(hs := io hs @ [ZRecv hs n d])) t \<and>
       r = (if 0 < n \<and> cs d = CHAT_MESSAGE_KILL_CONTROLLER then -1 else ok)) F s"
  unfolding wp_seq
proof (rule seen_recv [OF assms(4,2,3,1)], goal_cases)
  case 1
  then show ?case by simp
next
  case (2 t w)
  then show ?case by (auto simp: wp_ret)
next
  case (3 m t w)
  define k where "k = min (length m) 63"
  let ?buf = "take 63 m @ drop (min (length m) 63) (replicate 64 NUL)"
  have t: "seen_off cl lg H tr (io(hs := io hs @ [ZRecv hs (int (length m)) (take 63 m)])) t" by (rule 3(2))
  show ?case
  proof (cases "m = []")
    case True
    then show ?thesis using t 3(1) by (auto simp: wp_ret)
  next
    case False
    have buf: "?buf[k := NUL] = take 63 m @ NUL # replicate (63 - k) NUL" "k < length ?buf"
    proof -
      have "drop (min (length m) 63) (replicate 64 NUL) = NUL # replicate (63 - k) NUL"
        by (simp add: k_def replicate_Suc [symmetric] Suc_diff_le del: replicate_Suc)
      then have b: "?buf = take 63 m @ NUL # replicate (63 - k) NUL" by simp
      have l: "length (take 63 m) = k" by (simp add: k_def min.commute)
      show "?buf[k := NUL] = take 63 m @ NUL # replicate (63 - k) NUL" "k < length ?buf"
        unfolding b using l by (simp_all only: list_update_append less_irrefl if_False diff_self_eq_0
            list_update_code length_append length_Cons)
    qed
    have bytes: "(if 64 \<le> int (length m) then 63 else int (length m)) = int k"
      by (simp add: k_def min_def)
    have "wp (poke ?buf (int k) NUL) (\<lambda>b. wp (cstr_at b 0) (\<lambda>x.
        wp (if x = CHAT_MESSAGE_KILL_CONTROLLER then bnd L (\<lambda>_. ret (-1)) else ret ok)
        (\<lambda>r t. \<exists>n d w. x_recv E hs 63 0 (world s) = ((n, d), w) \<and>
           seen_off cl lg H tr (io(hs := io hs @ [ZRecv hs n d])) t \<and>
           r = (if 0 < n \<and> cs d = CHAT_MESSAGE_KILL_CONTROLLER then -1 else ok)) F) F) F t"
      unfolding wp_poke nat_int buf(1) using buf(2)
      by (simp only: of_nat_0_le_iff simp_thms if_True, intro wp_cstr_wholeI)
        (use t False 3(1) in \<open>auto simp: has_cstr_def wp_seq wp_ret intro!: log\<close>)
    moreover have "(0 < int (length m)) = True" using False by simp
    ultimately show ?thesis
      by (simp only: case_prod_conv if_True Let_def bytes wp_seq)
  qed
qed

end
