(* ===== verification/Controller.thy ===== *)
theory Controller
  imports Dialogue
begin

text \<open>
  \<open>client/chat_client_controller.c\<close>: the thread that talks to the server over the REQ socket on
  behalf of the UI. It logs in, then serves three events in a loop: the shutdown channel, a
  command of the UI, and a two-second timeout that sends a heartbeat; it logs out on the way out.
\<close>

section \<open>Return codes and texts\<close>

definition OK_ZMQ :: int where "OK_ZMQ = 0"
definition OK_ZMQ_QUIT :: int where "OK_ZMQ_QUIT = 1001"
definition ERROR_ZMQ_GENERAL :: int where "ERROR_ZMQ_GENERAL = -1"
definition ERROR_ZMQ_REQ_SEND :: int where "ERROR_ZMQ_REQ_SEND = -1001"

lemmas codes = OK_ZMQ_def OK_ZMQ_QUIT_def ERROR_ZMQ_GENERAL_def ERROR_ZMQ_REQ_SEND_def

text \<open>The texts for the UI, those that are not ASCII in the UTF-8 of the source file.\<close>

definition TXT_ROOMS_HEADER :: "nat \<Rightarrow> string" where
  "TXT_ROOMS_HEADER n = ''--- Lista Pokoj'' @ [CHR 0xC3, CHR 0xB3] @ ''w ('' @ show_nat n @ '') ---'' @ [CHR 0x0A]"
definition TXT_ROOMS_FAILED :: string where
  "TXT_ROOMS_FAILED = ''could not get rooms list''"
definition TXT_LEAVE_FAILED :: string where
  "TXT_LEAVE_FAILED = ''error leaving room''"
definition TXT_JOIN_FAILED :: string where
  "TXT_JOIN_FAILED = ''B'' @ [CHR 0xC5, CHR 0x82, CHR 0xC4, CHR 0x85] @ ''d do'' @ [CHR 0xC5, CHR 0x82, CHR 0xC4, CHR 0x85] @ ''czania do pokoju.''"
definition TXT_MSG_FAILED :: string where
  "TXT_MSG_FAILED = ''[ERR] B'' @ [CHR 0xC5, CHR 0x82, CHR 0xC4, CHR 0x85] @ ''d wysy'' @ [CHR 0xC5, CHR 0x82] @ ''ania wiadomo'' @ [CHR 0xC5, CHR 0x9B] @ ''ci''"
definition TXT_MSG_USAGE :: string where
  "TXT_MSG_USAGE = ''U'' @ [CHR 0xC5, CHR 0xBC] @ ''ycie: /msg <nazwa_pokoju> <tre'' @ [CHR 0xC5, CHR 0x9B, CHR 0xC4, CHR 0x87] @ ''>''"
definition TXT_DM_SENT :: string where
  "TXT_DM_SENT = ''[ACK] Wiadomo'' @ [CHR 0xC5, CHR 0x9B, CHR 0xC4, CHR 0x87] @ '' prywatna wys'' @ [CHR 0xC5, CHR 0x82] @ ''ana''"
definition TXT_DM_FAILED :: string where
  "TXT_DM_FAILED = ''[ERR] B'' @ [CHR 0xC5, CHR 0x82, CHR 0xC4, CHR 0x85] @ ''d wysy'' @ [CHR 0xC5, CHR 0x82] @ ''ania DM''"
definition TXT_DM_USAGE :: string where
  "TXT_DM_USAGE = ''U'' @ [CHR 0xC5, CHR 0xBC] @ ''ycie: /dm <u'' @ [CHR 0xC5, CHR 0xBC] @ ''ytkownik> <tre'' @ [CHR 0xC5, CHR 0x9B, CHR 0xC4, CHR 0x87] @ ''>''"

text \<open>\<open>char buf[n] = "..."\<close>.\<close>

definition c_array :: "nat \<Rightarrow> string \<Rightarrow> string" where
  "c_array n lit = lit @ replicate (n - length lit) NUL"

section \<open>One request, one reply\<close>

definition send_and_recv_env :: "'w ext \<Rightarrow> ptr \<Rightarrow> envelope \<Rightarrow> ptr \<Rightarrow> ('w st, ptr) prog" where
  "send_and_recv_env E socket_req_chat env socket_push_logs =
     bnd (malloc E (x_packed_size E env)) (\<lambda>envelope_buffer.
     bnd (pb_pack E env envelope_buffer (x_packed_size E env)) (\<lambda>_.
     bnd (load_bytes envelope_buffer) (\<lambda>bytes.
     bnd (socket_send E socket_req socket_req_chat bytes (x_packed_size E env) 0) (\<lambda>rc.
     bnd (free envelope_buffer) (\<lambda>_.
     if rc < 0 then
       bnd (log_error E socket_push_logs (''[ZMQClient][controller thread][send_and_recv_env] error sending message: '')) (\<lambda>_. ret None)
     else
       bnd (local_array E 4096) (\<lambda>received_buffer.
       bnd (socket_recv E socket_req socket_req_chat received_buffer 4096 0) (\<lambda>(n, received_buffer).
       if n < 0 then
         bnd (log_error E socket_push_logs (''[ZMQClient][controller thread][send_and_recv_env] error receiving message: '')) (\<lambda>_. ret None)
       else
         bnd (read_bytes received_buffer (nat n)) (\<lambda>d. pb_unpack E d))))))))"

section \<open>Commands\<close>

text \<open>
  \<open>handle_room_list\<close>. The offset is an \<open>int\<close>, the remaining size \<open>sizeof(out_buf) - offset\<close>
  a \<open>size_t\<close>, so it wraps when the offset has passed the end.
\<close>

definition room_line :: "room_info \<Rightarrow> string" where
  "room_line r = '' * room: #'' @ pad_right 10 (cs (room_info_name r)) @ '' | members: ''
     @ show_int (sint (room_info_member_count r)) @ [CHR 0x0A]"

fun room_lines :: "room_info list \<Rightarrow> string \<Rightarrow> int \<Rightarrow> ('s, string \<times> int) prog" where
  "room_lines [] out_buf offset = ret (out_buf, offset)"
| "room_lines (r # rs) out_buf offset =
     bnd (snprintf_at out_buf (nat offset) (nat ((1024 - offset) mod 2 ^ 64)) (room_line r))
       (\<lambda>(out_buf, n). room_lines rs out_buf (offset + n))"

definition handle_room_list :: "'w ext \<Rightarrow> ptr \<Rightarrow> ptr \<Rightarrow> ptr \<Rightarrow> ('w st, int) prog" where
  "handle_room_list E socket_req_chat socket_pair_ui_command socket_push_logs =
     bnd (log_app E socket_push_logs (''[ZMQClient][controller thread] sending room list request'' @ [CHR 0x0A])) (\<lambda>_.
     bnd (send_and_recv_env E socket_req_chat
       \<lparr>message_id = ''cmd-rooms'', payload = LIST_ROOMS_REQ LIST_ROOMS_REQUEST_INIT\<rparr> socket_push_logs) (\<lambda>res_env.
     bnd (log_app E socket_push_logs (''[ZMQClient][controller thread] received room list response'' @ [CHR 0x0A])) (\<lambda>_.
     if res_env \<noteq> None then
       bnd (load_env res_env) (\<lambda>env.
       bnd (case payload env of
              LIST_ROOMS_RESP resp \<Rightarrow>
                bnd (snprintf_at (c_array 1024 TXT_ROOMS_FAILED) 0 1024
                  (TXT_ROOMS_HEADER (length (list_resp_rooms resp)))) (\<lambda>(out_buf, offset).
                bnd (log_app E socket_push_logs (''[ZMQClient][controller thread] received rooms number: '' @
                  show_nat (length (list_resp_rooms resp)) @ [CHR 0x0A])) (\<lambda>_.
                bnd (room_lines (list_resp_rooms resp) out_buf offset) (\<lambda>(out_buf, _). ret out_buf)))
            | _ \<Rightarrow> ret (c_array 1024 TXT_ROOMS_FAILED)) (\<lambda>out_buf.
       bnd (cstr_at out_buf 0) (\<lambda>text.
       bnd (log_app E socket_push_logs (''[ZMQClient][controller thread] forward room list to UI: '' @ text @ [CHR 0x0A])) (\<lambda>_.
       bnd (socket_send E socket_pair socket_pair_ui_command out_buf (length text) 0) (\<lambda>_.
       bnd (free res_env) (\<lambda>_. ret OK_ZMQ))))))
     else
       bnd (log_error E socket_push_logs (''[ZMQClient][controller thread][handle_rooms_request][REQ][CHAT] error sending message : '')) (\<lambda>_.
       ret ERROR_ZMQ_REQ_SEND))))"

definition handle_room_join ::
    "'w ext \<Rightarrow> ptr \<Rightarrow> ptr \<Rightarrow> ptr \<Rightarrow> string \<Rightarrow> string \<Rightarrow> ptr \<Rightarrow> ('w st, int) prog" where
  "handle_room_join E socket_req_chat socket_pair_receiver_ctrl socket_pair_ui_command line username
     socket_push_logs =
     bnd (cstr_at line 6) (\<lambda>room_name.
     bnd (send_and_recv_env E socket_req_chat
       \<lparr>message_id = ''cmd-join'', payload = JOIN_ROOM_REQ
          \<lparr>join_req_room_name = room_name, join_req_username = username\<rparr>\<rparr> socket_push_logs) (\<lambda>res_env.
     if res_env \<noteq> None then
       bnd (load_env res_env) (\<lambda>env.
       bnd (case payload env of
              ACK ack \<Rightarrow>
                bnd (snprintf_at (c_array 256 TXT_JOIN_FAILED) 0 256
                  (''[SERWER]: '' @ cs (ack_message ack))) (\<lambda>(out_buf, _).
                bnd (local_array E 128) (\<lambda>ctrl_cmd.
                bnd (snprintf_at ctrl_cmd 0 128 (CHAT_MESSAGE_JOIN_ROOM room_name)) (\<lambda>(ctrl_cmd, _).
                bnd (cstr_at ctrl_cmd 0) (\<lambda>c.
                bnd (socket_send E socket_pair socket_pair_receiver_ctrl ctrl_cmd (length c) 0) (\<lambda>rc.
                bnd (only_if (rc < 0) (log_error E socket_push_logs
                  (''[ZMQClient][controller thread][handle_room_join_request][PAIR][receiver] error sending message: ''))) (\<lambda>_.
                ret out_buf))))))
            | _ \<Rightarrow> ret (c_array 256 TXT_JOIN_FAILED)) (\<lambda>out_buf.
       bnd (cstr_at out_buf 0) (\<lambda>reply.
       bnd (socket_send E socket_pair socket_pair_ui_command out_buf (length reply) 0) (\<lambda>rc.
       bnd (only_if (rc < 0) (log_error E socket_push_logs
         (''[ZMQClient][controller thread][handle_room_join_request][PAIR][ui] error sending message: ''))) (\<lambda>_.
       bnd (free res_env) (\<lambda>_. ret OK_ZMQ))))))
     else
       bnd (log_error E socket_push_logs (''[ZMQClient][controller thread][handle_room_join_request][REQ][CHAT] error sending message : '')) (\<lambda>_.
       ret ERROR_ZMQ_REQ_SEND)))"

definition handle_room_leave ::
    "'w ext \<Rightarrow> ptr \<Rightarrow> ptr \<Rightarrow> ptr \<Rightarrow> string \<Rightarrow> string \<Rightarrow> ptr \<Rightarrow> ('w st, int) prog" where
  "handle_room_leave E socket_req_chat socket_pair_receiver_ctrl socket_pair_ui_command line username
     socket_push_logs =
     bnd (cstr_at line 7) (\<lambda>room_name.
     bnd (send_and_recv_env E socket_req_chat
       \<lparr>message_id = ''cmd-leave'', payload = LEAVE_ROOM_REQ
          \<lparr>leave_req_room_name = room_name, leave_req_username = username\<rparr>\<rparr> socket_push_logs) (\<lambda>res_env.
     if res_env \<noteq> None then
       bnd (load_env res_env) (\<lambda>env.
       bnd (case payload env of
              ACK ack \<Rightarrow>
                bnd (snprintf_at (c_array 256 TXT_LEAVE_FAILED) 0 256
                  (''[SERWER]: '' @ cs (ack_message ack))) (\<lambda>(out_buf, _).
                bnd (local_array E 128) (\<lambda>ctrl_cmd.
                bnd (snprintf_at ctrl_cmd 0 128 (CHAT_MESSAGE_LEAVE_ROOM room_name)) (\<lambda>(ctrl_cmd, _).
                bnd (cstr_at ctrl_cmd 0) (\<lambda>c.
                bnd (socket_send E socket_pair socket_pair_receiver_ctrl ctrl_cmd (length c) 0) (\<lambda>_.
                ret out_buf)))))
            | _ \<Rightarrow> ret (c_array 256 TXT_LEAVE_FAILED)) (\<lambda>out_buf.
       bnd (cstr_at out_buf 0) (\<lambda>reply.
       bnd (socket_send E socket_pair socket_pair_ui_command out_buf (length reply) 0) (\<lambda>_.
       bnd (free res_env) (\<lambda>_. ret OK_ZMQ)))))
     else
       bnd (log_error E socket_push_logs (''[ZMQClient][controller thread][handle_room_leave_request] error sending message: '')) (\<lambda>_.
       ret ERROR_ZMQ_REQ_SEND)))"

text \<open>The texts sent from a string literal end in the NUL of the literal.\<close>

definition send_text :: "'w ext \<Rightarrow> ptr \<Rightarrow> string \<Rightarrow> nat \<Rightarrow> ('w st, int) prog" where
  "send_text E p lit len = socket_send E socket_pair p (lit @ [NUL]) len 0"

definition handle_message_room ::
    "'w ext \<Rightarrow> ptr \<Rightarrow> ptr \<Rightarrow> string \<Rightarrow> string \<Rightarrow> ptr \<Rightarrow> ('w st, int) prog" where
  "handle_message_room E socket_req_chat socket_pair_ui_command line username socket_push_logs =
     bnd (cstr_at line 5) (\<lambda>rest.
     bnd (case split_token rest of
            (Some room_name, Some content) \<Rightarrow>
              bnd (send_and_recv_env E socket_req_chat
                \<lparr>message_id = ''cmd-msg'', payload = ROOM_MSG (ROOM_MESSAGE_INIT
                   \<lparr>room_msg_room_name := room_name, room_msg_sender_username := username,
                    room_msg_content := content\<rparr>)\<rparr> socket_push_logs) (\<lambda>res_env.
              if res_env \<noteq> None then
                bnd (send_text E socket_pair_ui_command CHAT_MESSAGE_SEND_ACK
                  (length CHAT_MESSAGE_SEND_ACK)) (\<lambda>_. free res_env)
              else
                bnd (log_error E socket_push_logs (''[ZMQClient][controller thread][handle_message_room_request] error sending message: '')) (\<lambda>_.
                bnd (send_text E socket_pair_ui_command TXT_MSG_FAILED 31) (\<lambda>_. ret ())))
          | _ \<Rightarrow> bnd (send_text E socket_pair_ui_command TXT_MSG_USAGE 35) (\<lambda>_. ret ())) (\<lambda>_.
     ret OK_ZMQ))"

definition handle_message_direct ::
    "'w ext \<Rightarrow> ptr \<Rightarrow> ptr \<Rightarrow> string \<Rightarrow> string \<Rightarrow> ptr \<Rightarrow> ('w st, int) prog" where
  "handle_message_direct E socket_req_chat socket_pair_ui_command line username socket_push_logs =
     bnd (cstr_at line 4) (\<lambda>rest.
     bnd (case split_token rest of
            (Some target, Some content) \<Rightarrow>
              bnd (send_and_recv_env E socket_req_chat
                \<lparr>message_id = ''cmd-dm'', payload = DIRECT_MSG (DIRECT_MESSAGE_INIT
                   \<lparr>direct_msg_recipient_username := target, direct_msg_sender_username := username,
                    direct_msg_content := content\<rparr>)\<rparr> socket_push_logs) (\<lambda>res_env.
              if res_env \<noteq> None then
                bnd (send_text E socket_pair_ui_command TXT_DM_SENT 32) (\<lambda>_. free res_env)
              else
                bnd (log_error E socket_push_logs (''[ZMQClient][controller thread][handle_message_direct_request] error sending message: '')) (\<lambda>_.
                bnd (send_text E socket_pair_ui_command TXT_DM_FAILED 23) (\<lambda>_. ret ())))
          | _ \<Rightarrow> bnd (send_text E socket_pair_ui_command TXT_DM_USAGE 32) (\<lambda>_. ret ())) (\<lambda>_.
     ret OK_ZMQ))"

section \<open>Session\<close>

text \<open>
  \<open>clean_up\<close>. The definition names its third and fourth parameter the other way round than the
  prototype; both are destroyed, so only the order differs.
\<close>

definition clean_up :: "'w ext \<Rightarrow> ptr \<Rightarrow> ptr \<Rightarrow> ptr \<Rightarrow> ptr \<Rightarrow> ('w st, unit) prog" where
  "clean_up E socket_sub_shutdown socket_req_chat socket_pair_ui_command socket_pair_receiver_ctrl =
     bnd (socket_destroy E (Some socket_sub_shutdown)) (\<lambda>_.
     bnd (socket_destroy E (Some socket_req_chat)) (\<lambda>_.
     bnd (socket_destroy E (Some socket_pair_ui_command)) (\<lambda>_.
     bnd (socket_destroy E (Some socket_pair_receiver_ctrl)) (\<lambda>_. ret ()))))"

definition logout :: "'w ext \<Rightarrow> ptr \<Rightarrow> string \<Rightarrow> ptr \<Rightarrow> ('w st, int) prog" where
  "logout E socket_req_chat username socket_push_logs =
     bnd (log_app E socket_push_logs (''[ZMQClient][controller thread] logout'' @ [CHR 0x0A])) (\<lambda>_.
     bnd (send_and_recv_env E socket_req_chat
       \<lparr>message_id = ''cmd-logout'', payload = LOGOUT_REQ \<lparr>logout_req_username = username\<rparr>\<rparr>
       socket_push_logs) (\<lambda>res_env.
     bnd (if res_env = None then ret False
          else bnd (load_env res_env) (\<lambda>env. ret (case payload env of ACK _ \<Rightarrow> True | _ \<Rightarrow> False))) (\<lambda>acked.
     if acked then
       bnd (log_app E socket_push_logs (''[ZMQClient][controller thread][logout] Server acknowledged leave general.'' @ [CHR 0x0A])) (\<lambda>_.
       bnd (free res_env) (\<lambda>_. ret OK_ZMQ))
     else
       bnd (log_error E socket_push_logs (''[ZMQClient][controller thread][logout] error sending message: '')) (\<lambda>_.
       ret ERROR_ZMQ_REQ_SEND))))"

definition handle_shutdown_message :: "'w ext \<Rightarrow> ptr \<Rightarrow> ptr \<Rightarrow> ('w st, int) prog" where
  "handle_shutdown_message E socket_sub_shutdown socket_push_logs =
     bnd (socket_recv E socket_sub socket_sub_shutdown (replicate 64 NUL) 63 0) (\<lambda>(bytes, shutdown_msg).
     if bytes > 0 then
       let bytes = (if bytes \<ge> 64 then 63 else bytes) in
       bnd (poke shutdown_msg bytes NUL) (\<lambda>shutdown_msg.
       bnd (cstr_at shutdown_msg 0) (\<lambda>m.
       if m = CHAT_MESSAGE_KILL_CONTROLLER then
         bnd (log_app E socket_push_logs (''[ZMQClient][controller thread] received KILL signal. shutting down cleanly...'' @ [CHR 0x0A])) (\<lambda>_.
         ret (-1))
       else ret OK_ZMQ))
     else ret OK_ZMQ)"

text \<open>The timestamp is \<open>(int64_t)time(NULL) * 1000\<close>.\<close>

definition send_ping_message :: "'w ext \<Rightarrow> ptr \<Rightarrow> string \<Rightarrow> ptr \<Rightarrow> ('w st, int) prog" where
  "send_ping_message E socket_req_chat username socket_push_logs =
     bnd (ask (x_time E)) (\<lambda>now.
     bnd (log_app E socket_push_logs (''[ZMQClient][controller thread][ping] sending...'' @ [CHR 0x0A])) (\<lambda>_.
     bnd (send_and_recv_env E socket_req_chat
       \<lparr>message_id = ''heartbeat-ping'', payload = HEARTBEAT
          \<lparr>heartbeat_username = username, heartbeat_timestamp = word_of_int now * 1000\<rparr>\<rparr>
       socket_push_logs) (\<lambda>resp.
     if resp \<noteq> None then
       bnd (log_app E socket_push_logs (''[ZMQClient][controller thread][ping] pong received...'' @ [CHR 0x0A])) (\<lambda>_.
       bnd (free resp) (\<lambda>_. ret OK_ZMQ))
     else
       bnd (log_error E socket_push_logs (''[ZMQClient][controller thread][ping] error sending message: '')) (\<lambda>_.
       ret ERROR_ZMQ_REQ_SEND))))"

definition handle_message_ui ::
    "'w ext \<Rightarrow> ptr \<Rightarrow> ptr \<Rightarrow> ptr \<Rightarrow> string \<Rightarrow> ptr \<Rightarrow> ('w st, int) prog" where
  "handle_message_ui E socket_req_chat socket_pair_receiver_ctrl socket_pair_ui_command username
     socket_push_logs =
     bnd (local_array E 512) (\<lambda>cmd_buf.
     bnd (socket_recv E socket_pair socket_pair_ui_command cmd_buf 511 0) (\<lambda>(bytes, cmd_buf).
     if bytes \<le> 0 then ret ERROR_ZMQ_GENERAL
     else
       bnd (poke cmd_buf bytes NUL) (\<lambda>cmd_buf.
       bnd (cstr_at cmd_buf 0) (\<lambda>cmd.
       if cmd = CHAT_COMMAND_QUIT then
         bnd (log_app E socket_push_logs (''[ZMQClient][controller thread] receive '' @ [CHR 0x27] @ ''quit'' @ [CHR 0x27] @ '' command'' @ [CHR 0x0A])) (\<lambda>_.
         ret OK_ZMQ_QUIT)
       else if cmd = CHAT_COMMAND_ROOMS then
         handle_room_list E socket_req_chat socket_pair_ui_command socket_push_logs
       else if strncmp_eq cmd CHAT_COMMAND_JOIN 5 then
         handle_room_join E socket_req_chat socket_pair_receiver_ctrl socket_pair_ui_command cmd_buf
           username socket_push_logs
       else if strncmp_eq cmd CHAT_COMMAND_LEAVE 6 then
         handle_room_leave E socket_req_chat socket_pair_receiver_ctrl socket_pair_ui_command cmd_buf
           username socket_push_logs
       else if strncmp_eq cmd CHAT_COMMAND_MSG 4 then
         handle_message_room E socket_req_chat socket_pair_ui_command cmd_buf username socket_push_logs
       else if strncmp_eq cmd CHAT_COMMAND_DM 3 then
         handle_message_direct E socket_req_chat socket_pair_ui_command cmd_buf username socket_push_logs
       else
         send_text E socket_pair_ui_command ''Nieznana komenda.'' 17))))"

definition send_login_request ::
    "'w ext \<Rightarrow> ptr \<Rightarrow> ptr \<Rightarrow> ptr \<Rightarrow> ptr \<Rightarrow> string \<Rightarrow> ptr \<Rightarrow> ('w st, int) prog" where
  "send_login_request E socket_sub_shutdown socket_req_chat socket_pair_receiver_ctrl
     socket_pair_ui_command username socket_push_logs =
     bnd (send_and_recv_env E socket_req_chat
       \<lparr>message_id = ''req-login'', payload = LOGIN_REQ
          \<lparr>login_req_username = username, login_req_client_version = ''1.0.0''\<rparr>\<rparr> socket_push_logs) (\<lambda>resp.
     bnd (if resp = None then ret False
          else bnd (load_env resp) (\<lambda>env. ret (case payload env of
            LOGIN_RESP r \<Rightarrow> login_resp_status r = STATUS_OK | _ \<Rightarrow> False))) (\<lambda>accepted.
     if \<not> accepted then
       bnd (log_app E socket_push_logs (''[ZMQClient][controller thread][login] login failed!'' @ [CHR 0x0A])) (\<lambda>_.
       bnd (clean_up E socket_sub_shutdown socket_req_chat socket_pair_receiver_ctrl
         socket_pair_ui_command) (\<lambda>_. ret ERROR_ZMQ_REQ_SEND))
     else bnd (free resp) (\<lambda>_. ret OK_ZMQ)))"

section \<open>The thread\<close>

text \<open>What the loop uses: the five wrappers, the poll items and the user name.\<close>

record ctl_env =
  c_shutdown :: ptr
  c_req :: ptr
  c_receiver :: ptr
  c_ui :: ptr
  c_logs :: ptr
  c_items :: "pollitem list"
  c_username :: string

text \<open>The body of the main loop; the result says whether to go round again.\<close>

definition controller_step :: "'w ext \<Rightarrow> ctl_env \<Rightarrow> ('w st, bool) prog" where
  "controller_step E c =
     bnd (log_app E (c_logs c) (''[ZMQClient][controller thread] waiting...'' @ [CHR 0x0A])) (\<lambda>_.
     bnd (z_poll E (c_items c) 2000) (\<lambda>(rc, revents).
     if rc < 0 then
       bnd (gets (\<lambda>s. x_eintr E (world s))) (\<lambda>interrupted.
       if interrupted then ret True
       else bnd (log_app E (c_logs c) (''[ZMQClient][controller thread] zmq_poll error'')) (\<lambda>_. ret False))
     else
       bnd (if readable revents 0 then handle_shutdown_message E (c_shutdown c) (c_logs c)
            else ret OK_ZMQ) (\<lambda>stop.
       if stop < 0 then ret False
       else if readable revents 1 then
         bnd (handle_message_ui E (c_req c) (c_receiver c) (c_ui c) (c_username c) (c_logs c)) (\<lambda>result.
         if result < 0 then ret False
         else if result = OK_ZMQ_QUIT then ret False
         else ret True)
       else if rc = 0 then
         bnd (send_ping_message E (c_req c) (c_username c) (c_logs c)) (\<lambda>_. ret True)
       else ret True)))"

text \<open>
  The statements after the sockets have been set up: from the login to the loop (\<open>None\<close> is the
  early return after a refused login), and after the loop.
\<close>

definition controller_begin :: "'w ext \<Rightarrow> ptr \<Rightarrow> ptr \<Rightarrow> ptr \<Rightarrow> ptr \<Rightarrow> ptr \<Rightarrow> string \<Rightarrow> ('w st, ctl_env option) prog" where
  "controller_begin E socket_sub_shutdown socket_req_chat socket_pair_receiver_ctrl
     socket_pair_ui_command socket_push_logs user_array =
     bnd (cstr_at user_array 0) (\<lambda>username.
     bnd (send_login_request E socket_sub_shutdown socket_req_chat socket_pair_receiver_ctrl
       socket_pair_ui_command username socket_push_logs) (\<lambda>r.
     if r < 0 then ret None
     else
       bnd (log_app E socket_push_logs (''[ZMQClient][controller thread] login success as '' @ [CHR 0x27] @ username @ [CHR 0x27] @ ''!'' @ [CHR 0x0A])) (\<lambda>_.
       bnd (socket_get_raw socket_sub_shutdown) (\<lambda>raw0.
       bnd (socket_get_raw socket_pair_ui_command) (\<lambda>raw1.
       bnd (log_app E socket_push_logs (''[ZMQClient][controller thread] loop start!'' @ [CHR 0x0A])) (\<lambda>_.
       ret (Some \<lparr>c_shutdown = socket_sub_shutdown, c_req = socket_req_chat,
                c_receiver = socket_pair_receiver_ctrl, c_ui = socket_pair_ui_command,
                c_logs = socket_push_logs, c_items = [poll_item raw0, poll_item raw1],
                c_username = username\<rparr>)))))))"

definition controller_end :: "'w ext \<Rightarrow> ctl_env \<Rightarrow> ('w st, unit) prog" where
  "controller_end E c =
     bnd (logout E (c_req c) (c_username c) (c_logs c)) (\<lambda>_.
     bnd (clean_up E (c_shutdown c) (c_req c) (c_receiver c) (c_ui c)) (\<lambda>_.
     bnd (log_app E (c_logs c) (''[ZMQClient][controller thread] exit'' @ [CHR 0x0A])) (\<lambda>_.
     bnd (socket_destroy E (Some (c_logs c))) (\<lambda>_. ret ()))))"

definition controller_session ::
    "'w ext \<Rightarrow> nat \<Rightarrow> ptr \<Rightarrow> ptr \<Rightarrow> ptr \<Rightarrow> ptr \<Rightarrow> ptr \<Rightarrow> string \<Rightarrow> ('w st, unit) prog" where
  "controller_session E fuel socket_sub_shutdown socket_req_chat socket_pair_receiver_ctrl
     socket_pair_ui_command socket_push_logs user_array =
     bnd (controller_begin E socket_sub_shutdown socket_req_chat socket_pair_receiver_ctrl
       socket_pair_ui_command socket_push_logs user_array) (\<lambda>session.
     case session of None \<Rightarrow> ret ()
     | Some c \<Rightarrow> bnd (forever fuel (controller_step E c)) (\<lambda>_. controller_end E c))"

definition routine_chat_controller :: "'w ext \<Rightarrow> nat \<Rightarrow> ptr \<Rightarrow> ('w st, unit) prog" where
  "routine_chat_controller E fuel arg =
     bnd (load_args arg) (\<lambda>(context, user_array).
     bnd (socket_new E socket_push context) (\<lambda>socket_push_logs.
     bnd (socket_connect E socket_push socket_push_logs APP_LOGS_ADDRESS) (\<lambda>rc.
     if rc \<noteq> 0 then
       bnd (perror E (''[ZMQClient][controller thread] connect inproc://app_log error'')) (\<lambda>_.
       bnd (socket_destroy E (Some socket_push_logs)) (\<lambda>_. ret ()))
     else
     bnd (log_app E socket_push_logs (''[ZMQClient][controller thread] start socket_req_chat_routine'' @ [CHR 0x0A])) (\<lambda>_.
     bnd (socket_new E socket_sub context) (\<lambda>socket_sub_shutdown.
     bnd (socket_connect E socket_sub socket_sub_shutdown INPROC_SHUTDOWN_ADDR) (\<lambda>rc.
     if rc = -1 then
       bnd (log_error E socket_push_logs (''[ZMQClient][controller thread] shutdown socket connect failed: '')) (\<lambda>_.
       clean_up E socket_sub_shutdown None None None)
     else
     bnd (socket_sub_subscribe E socket_sub_shutdown []) (\<lambda>rc.
     if rc \<noteq> 0 then
       bnd (log_error E socket_push_logs (''[ZMQClient][controller thread] shutdown socket subscribe failed: '')) (\<lambda>_.
       clean_up E socket_sub_shutdown None None None)
     else
     bnd (socket_new E socket_req context) (\<lambda>socket_req_chat.
     bnd (socket_connect E socket_req socket_req_chat CHAT_SERVER_REQ_ADDRESS) (\<lambda>rc.
     if rc \<noteq> 0 then
       bnd (log_app E socket_push_logs (''[ZMQClient][controller thread] REQ connection error'')) (\<lambda>_.
       clean_up E socket_sub_shutdown socket_req_chat None None)
     else
     bnd (socket_new E socket_pair context) (\<lambda>socket_pair_receiver_ctrl.
     bnd (socket_bind E socket_pair socket_pair_receiver_ctrl CONTROLLER_RECEIVER_COMMAND_ADDRESS) (\<lambda>rc.
     if rc \<noteq> 0 then
       bnd (log_app E socket_push_logs (''[ZMQClient][controller thread] bind inproc://receiver-control error'')) (\<lambda>_.
       clean_up E socket_sub_shutdown socket_req_chat socket_pair_receiver_ctrl None)
     else
     bnd (socket_new E socket_pair context) (\<lambda>socket_pair_ui_command.
     bnd (socket_bind E socket_pair socket_pair_ui_command CONROLLER_UI_COMMAND_ADDRESS) (\<lambda>rc.
     if rc \<noteq> 0 then
       bnd (log_app E socket_push_logs (''[ZMQClient][controller thread] bind inproc://command-socket error'')) (\<lambda>_.
       clean_up E socket_sub_shutdown socket_req_chat socket_pair_receiver_ctrl socket_pair_ui_command)
     else
       controller_session E fuel socket_sub_shutdown socket_req_chat socket_pair_receiver_ctrl
         socket_pair_ui_command socket_push_logs user_array)))))))))))))"

end
