(* ===== verification/Controller_Commands.thy ===== *)
theory Controller_Commands
  imports Controller Sample_World
begin

text \<open>
  What the controller thread guarantees: each request on the REQ socket is followed by its
  reply, each command of the UI is answered exactly once or ends the thread, nothing leaks,
  and the loop ends when the shutdown message arrives.
\<close>

section \<open>More rules\<close>

definition laws :: "'w ext \<Rightarrow> bool" where
  "laws E \<longleftrightarrow> recv_law E \<and> pack_law E"

text \<open>
  How the controller can fault: by an access outside an array, or, as it never checks \<open>malloc\<close>,
  by using a null pointer when an allocation fails.
\<close>

definition ctl_fault :: "'w ext \<Rightarrow> fault \<Rightarrow> bool" where
  "ctl_fault E f \<longleftrightarrow> f = OutOfBounds \<or> f = NullPointer \<and> \<not> malloc_law E"

lemma ctl_fault_simps [simp]:
  "ctl_fault E OutOfBounds" "\<not> malloc_law E \<Longrightarrow> ctl_fault E NullPointer"
  "ctl_fault E OutOfFuel = False" "malloc_law E \<Longrightarrow> ctl_fault E f = (f = OutOfBounds)"
  by (simp_all add: ctl_fault_def)

lemma seen_malloc:
  assumes "seen lg H tr io s" "\<And>t. \<not> malloc_law E \<Longrightarrow> Q None t"
    and "\<And>a t. H a = None \<Longrightarrow> seen lg (H(a \<mapsto> BRaw n)) tr io t \<Longrightarrow> Q (Some a) t"
  shows "wp (malloc E n) Q F s"
proof -
  have "Q (Some (fresh s)) (s\<lparr>world := w, heap := (heap s)(fresh s \<mapsto> BRaw n), fresh := Suc (fresh s)\<rparr>)" for w
    using assms(1) by (intro assms(3)) (auto simp: seen_def heap_ok_def)
  then show ?thesis
    using assms(2) by (auto simp: wp_malloc dest: malloc_lawD split: prod.split)
qed

lemma seen_store [seen_rules]:
  assumes "seen lg H tr io s" "H a = Some b'" "\<And>t. seen lg (H(a \<mapsto> b)) tr io t \<Longrightarrow> Q () t"
  shows "wp (store (Some a) b) Q F s"
proof -
  have "Q () (s\<lparr>heap := (heap s)(a \<mapsto> b)\<rparr>)"
    using assms(1,2) by (intro assms(3)) (auto simp: seen_def heap_ok_def)
  then show ?thesis using assms(1,2) by (simp add: wp_store seen_def)
qed

lemma seen_pack [seen_rules]:
  assumes "seen lg H tr io s" "pack_law E" "H a = Some b"
    and "\<And>t. seen lg (H(a \<mapsto> BBytes (x_pack E e))) tr io t \<Longrightarrow> Q () t"
  shows "wp (pb_pack E e (Some a) (x_packed_size E e)) Q F s"
  using assms(2) seen_store [OF assms(1,3), of "BBytes (x_pack E e)" Q] assms(4)
  by (simp add: wp_pb_pack pack_law_def)

lemma seen_load_bytes [seen_rules]:
  assumes "seen lg H tr io s" "H a = Some (BBytes d)" "seen lg H tr io s \<Longrightarrow> Q d s"
  shows "wp (load_bytes (Some a)) Q F s"
  using assms by (subst wp_load_bytes) (auto simp: seen_def)

section \<open>One request, one reply\<close>

text \<open>
  What one call of \<open>send_and_recv_env\<close> does on the REQ socket, and its result: the packed request
  is sent; if that succeeds, one reply is received, and if that succeeds too, the result is what
  the bytes of the reply decode to.
\<close>

definition exchange :: "'w ext \<Rightarrow> nat \<Rightarrow> envelope \<Rightarrow> event list \<Rightarrow> envelope option \<Rightarrow> bool" where
  "exchange E h env es res \<longleftrightarrow> (\<exists>w rc w'. x_send E h (x_pack E env) 0 w = (rc, w') \<and>
     (if rc < 0 then es = [ZSend h (x_pack E env) 0 rc] \<and> res = None
      else \<exists>u n d u'. x_recv E h 4096 0 u = ((n, d), u') \<and> n \<le> 4096 \<and>
        es = [ZSend h (x_pack E env) 0 rc, ZRecv h n d] \<and>
        (if n < 0 then res = None else n = int (length d) \<and> (\<exists>v v'. x_unpack E d v = (res, v')))))"

lemma send_and_recv_env_ok:
  fixes E :: "'w ext" and s :: "'w st"
  assumes "seen lg H tr io s" "laws E" "sock_in H p h" "sock_in H l lg" "h \<noteq> lg"
    and oob: "\<not> fits E 4096 \<Longrightarrow> F OutOfBounds"
    and none: "\<And>es t. exchange E h env es None \<Longrightarrow> seen lg H tr (io(h := io h @ es)) t \<Longrightarrow> Q None t"
    and some: "\<And>es a e t. exchange E h env es (Some e) \<Longrightarrow> H a = None \<Longrightarrow>
      seen lg (H(a \<mapsto> BEnv e)) tr (io(h := io h @ es)) t \<Longrightarrow> Q (Some a) t"
    and nomem: "\<not> malloc_law E \<Longrightarrow> F NullPointer"
  shows "wp (send_and_recv_env E p env l) Q F s"
proof -
  from assms(2) have E: "recv_law E" "pack_law E" by (simp_all add: laws_def)
  then have len: "x_packed_size E env = length (x_pack E env)" by (simp add: pack_law_def)
  have after: "wp (if rc < 0 then bnd (log_error E l m) (\<lambda>_. ret None)
      else bnd (local_array E 4096) (\<lambda>buf. bnd (socket_recv E socket_req p buf 4096 0) (\<lambda>(n, buf).
        if n < 0 then bnd (log_error E l m') (\<lambda>_. ret None)
        else bnd (read_bytes buf (nat n)) (\<lambda>d. pb_unpack E d)))) Q F t"
    if t: "seen lg H tr (io(h := io h @ [ZSend h (x_pack E env) 0 rc])) t"
      and x: "x_send E h (x_pack E env) 0 w = (rc, w')" for rc m m' w w' and t :: "'w st"
  proof (cases "rc < 0")
    case True
    then have "exchange E h env [ZSend h (x_pack E env) 0 rc] None" using x by (auto simp: exchange_def)
    with True show ?thesis
      by (simp only: if_True wp_bnd wp_ret) (rule seen_log_error [OF t assms(4)], erule (1) none)
  next
    case False
    let ?ev = "\<lambda>n d. [ZSend h (x_pack E env) 0 rc, ZRecv h n d]"
    have replied: "exchange E h env (?ev n d) res" if "x_recv E h 4096 0 u = ((n, d), u')" "n \<le> 4096"
      "if n < 0 then res = None else n = int (length d) \<and> (\<exists>v v'. x_unpack E d v = (res, v'))" for n d u u' res
      using x False that unfolding exchange_def by auto
    show ?thesis
      unfolding if_not_P [OF False] wp_bnd
    proof (rule wp_local_arrayI, rule seen_recv [OF t assms(3,5) E(1)], goal_cases)
      case (1 buf)
      then show ?case by simp
    next
      case (2 buf v u)
      from 2(3) have v: "seen lg H tr (io(h := io h @ ?ev (-1) [])) v" by simp
      have "exchange E h env (?ev (-1) []) None" using 2(2) by (intro replied) auto
      then have "wp (log_error E l m') (\<lambda>_. Q None) F v"
        by (intro seen_log_error [OF v assms(4)]) (rule none)
      then show ?case by (simp add: wp_simps)
    next
      case (3 buf d v u)
      show ?case
      proof (cases "length d \<le> 4096")
        case True
        have v: "seen lg H tr (io(h := io h @ ?ev (int (length d)) d)) v"
          using 3(3) True by simp
        have ex: "exchange E h env (?ev (int (length d)) d) res" if "x_unpack E d z = (res, z')" for res z z'
          using 3(2) True that by (intro replied) auto
        have "wp (pb_unpack E d) Q F v"
          by (rule seen_unpack_exact [OF v]) (auto intro: none some ex)
        then show ?thesis using True 3(1) by (simp add: wp_bnd wp_read_bytes)
      next
        case False
        with 3(2) have "\<not> fits E 4096" by (auto dest!: fitsD)
        then show ?thesis using False 3(1) oob by (simp add: wp_bnd wp_read_bytes)
      qed
    qed
  qed
  have null: "wp (pb_pack E env None (x_packed_size E env)) Q' F t" if "\<not> malloc_law E" for Q' and t :: "'w st"
    using nomem that len by (simp add: wp_pb_pack wp_store)
  show ?thesis
    unfolding send_and_recv_env_def wp_bnd
    by (rule seen_malloc [OF assms(1)], erule null, rule seen_pack [OF _ E(2)], assumption, rule fun_upd_same,
        rule seen_load_bytes, assumption, rule fun_upd_same, rule seen_send_exact [where h = h], assumption, simp add: assms(3),
        rule assms(5), simp add: len, rule seen_free, assumption, rule fun_upd_same, rule after)
      (simp_all add: len)
qed

section \<open>The commands\<close>

text \<open>The sockets of the controller are alive, with distinct handles.\<close>

definition ctl_at :: "(nat \<rightharpoonup> block) \<Rightarrow> ctl_env \<Rightarrow> nat \<Rightarrow> nat \<Rightarrow> nat \<Rightarrow> nat \<Rightarrow> nat \<Rightarrow> bool" where
  "ctl_at H c lg hs hr hc hu \<longleftrightarrow>
     sock_in H (c_logs c) lg \<and> sock_in H (c_shutdown c) hs \<and> sock_in H (c_req c) hr \<and>
     sock_in H (c_receiver c) hc \<and> sock_in H (c_ui c) hu \<and> distinct [lg, hs, hr, hc, hu]"

lemma c_array_facts:
  assumes "nul_free lit" "length lit < n"
  shows "length (c_array n lit) = n" "has_cstr (c_array n lit) 0" "cs (c_array n lit) = lit"
proof -
  from assms(2) have a: "c_array n lit = lit @ NUL # replicate (n - length lit - 1) NUL"
    by (simp add: c_array_def replicate_Suc [symmetric] Suc_diff_Suc del: replicate_Suc)
  show "length (c_array n lit) = n" using assms(2) by (simp add: c_array_def)
  show "has_cstr (c_array n lit) 0" by (simp add: a has_cstr_def)
  show "cs (c_array n lit) = lit" using assms(1) by (simp add: a cs_id)
qed

lemma nul_free_literals [simp]:
  "nul_free TXT_JOIN_FAILED" "nul_free TXT_LEAVE_FAILED" "nul_free TXT_ROOMS_FAILED"
  "nul_free ''[SERWER]: ''" "nul_free ''+room:''" "nul_free ''-room:''"
  by (simp_all add: nul_free_def NUL_def TXT_JOIN_FAILED_def TXT_LEAVE_FAILED_def TXT_ROOMS_FAILED_def)

lemma seen_send_text [seen_rules]:
  assumes "seen lg H tr io s" "sock_in H p h" "h \<noteq> lg" "n \<le> Suc (length lit)"
    and "\<And>rc t. seen lg H tr (io(h := io h @ [ZSend h (take n (lit @ [NUL])) 0 rc])) t \<Longrightarrow> Q rc t"
  shows "wp (send_text E p lit n) Q F s"
  unfolding send_text_def by (rule seen_send [OF assms(1-3)]) (use assms(4,5) in auto)

text \<open>The instruction to the receiver thread and the answer to the UI that a reply leads to.\<close>

definition instruction :: "string \<Rightarrow> envelope \<Rightarrow> string list" where
  "instruction cmd e = (case payload e of ACK a \<Rightarrow> [take 127 cmd] | _ \<Rightarrow> [])"

definition answer :: "string \<Rightarrow> envelope \<Rightarrow> string" where
  "answer otherwise e =
     (case payload e of ACK a \<Rightarrow> take 255 (''[SERWER]: '' @ cs (ack_message a)) | _ \<Rightarrow> otherwise)"

definition room_change where
  "room_change E lg H tr io hr hc hu env cmd otherwise r t \<longleftrightarrow>
     (\<exists>rq res. exchange E hr env rq res \<and>
       (case res of
          None \<Rightarrow> r = ERROR_ZMQ_REQ_SEND \<and> seen lg H tr (io(hr := io hr @ rq)) t
        | Some e \<Rightarrow> r = OK_ZMQ \<and> (\<exists>ctl ui. sent hc (instruction cmd e) ctl \<and> sent hu [answer otherwise e] ui \<and>
            seen lg H tr (io(hr := io hr @ rq, hc := io hc @ ctl, hu := io hu @ ui)) t)))"

lemma room_change_none:
  assumes "exchange E hr env rq None" "seen lg H tr (io(hr := io hr @ rq)) t"
  shows "room_change E lg H tr io hr hc hu env cmd otherwise ERROR_ZMQ_REQ_SEND t"
  unfolding room_change_def
  by (rule exI [of _ rq], rule exI [of _ None]) (simp add: assms)

lemma room_change_some:
  assumes "exchange E hr env rq (Some e)" "sent hc (instruction cmd e) ctl" "sent hu [answer otherwise e] ui"
    and "seen lg H tr (io(hr := io hr @ rq, hc := io hc @ ctl, hu := io hu @ ui)) t"
  shows "room_change E lg H tr io hr hc hu env cmd otherwise OK_ZMQ t"
  unfolding room_change_def
  by (rule exI [of _ rq], rule exI [of _ "Some e"]) (use assms in auto)

lemma nul_free_formats [simp]:
  "nul_free x \<Longrightarrow> nul_free (''[SERWER]: '' @ x)"
  "nul_free x \<Longrightarrow> nul_free (CHAT_MESSAGE_JOIN_ROOM x)" "nul_free x \<Longrightarrow> nul_free (CHAT_MESSAGE_LEAVE_ROOM x)"
  by (simp_all add: CHAT_MESSAGE_JOIN_ROOM_def CHAT_MESSAGE_LEAVE_ROOM_def NUL_def)

lemma cs_server: "cs (take (256 - 1) (''[SERWER]: '' @ cs m)) = take 255 (''[SERWER]: '' @ cs m)"
proof -
  have "256 - 1 = (255 :: nat)" by simp
  then show ?thesis by (metis cs_id nul_free_take nul_free_formats(1) cs_nul_free)
qed

text \<open>The text for the UI is formatted and the receiver has its instruction.\<close>

definition answer_ready where
  "answer_ready lg H tr io hc cmd otherwise e out v \<longleftrightarrow>
     has_cstr out 0 \<and> cs out = answer otherwise e \<and>
     (\<exists>ctl. sent hc (instruction cmd e) ctl \<and> seen lg H tr (io(hc := io hc @ ctl)) v)"

lemma ready_log:
  assumes "answer_ready lg H tr io hc cmd otherwise e out v" "sock_in H p lg"
    and "\<And>t. answer_ready lg H tr io hc cmd otherwise e out t \<Longrightarrow> Q () t"
  shows "wp (only_if b (log_error E p msg)) Q F v"
proof -
  from assms(1) obtain ctl where r: "has_cstr out 0" "cs out = answer otherwise e"
      "sent hc (instruction cmd e) ctl" and v: "seen lg H tr (io(hc := io hc @ ctl)) v"
    by (auto simp: answer_ready_def)
  have "wp (log_error E p msg) Q F v"
    by (rule seen_log_error [OF v assms(2)], rule assms(3)) (use r in \<open>auto simp: answer_ready_def\<close>)
  then show ?thesis using assms(1,3) by (simp add: wp_only_if)
qed

lemma seen_only_if_log:
  assumes "seen lg H tr io s" "sock_in H p lg" "\<And>t. seen lg H tr io t \<Longrightarrow> Q () t"
  shows "wp (only_if b (log_error E p msg)) Q F s"
  using assms by (auto simp: wp_only_if intro: seen_log_error [OF assms(1,2)])

lemma ready_otherwise:
  assumes "\<forall>a. payload e \<noteq> ACK a" "seen lg H tr io t" "nul_free otherwise" "length otherwise < 256"
    and "answer_ready lg H tr io hc cmd otherwise e (c_array 256 otherwise) t \<Longrightarrow> K (c_array 256 otherwise) t"
  shows "wp (ret (c_array 256 otherwise)) K F t"
proof -
  have "sent hc (instruction cmd e) []" "seen lg H tr (io(hc := io hc @ [])) t"
    using assms(1,2) by (simp_all add: instruction_def split: payload.split)
  then have "answer_ready lg H tr io hc cmd otherwise e (c_array 256 otherwise) t"
    unfolding answer_ready_def using assms(1,3,4)
    by (auto simp: c_array_facts answer_def split: payload.split)
  then show ?thesis by (simp add: wp_ret assms(5))
qed

lemma ready_ack:
  assumes "payload e = ACK ack" "seen lg H tr io t" "sock_in H p hc" "hc \<noteq> lg"
    and "nul_free cmd" "nul_free otherwise" "length otherwise < 256"
    and K: "\<And>b rc t. answer_ready lg H tr io hc cmd otherwise e b t \<Longrightarrow> K b rc t"
  shows "wp (snprintf_at (c_array 256 otherwise) 0 256 (''[SERWER]: '' @ cs (ack_message ack))) (\<lambda>r.
      wp (local_array E 128) (\<lambda>c. wp (snprintf_at c 0 128 cmd) (\<lambda>c.
      wp (cstr_at (fst c) 0) (\<lambda>x. wp (socket_send E socket_pair p (fst c) (length x) 0) (K (fst r)) F) F) F) F) F t"
proof -
  have ready: "answer_ready lg H tr io hc cmd otherwise e b u"
    if "has_cstr b 0" "cs b = take 255 (''[SERWER]: '' @ cs (ack_message ack))"
      "seen lg H tr (io(hc := io hc @ [ZSend hc d 0 rc])) u" "d = take 127 cmd" for b d rc and u
    unfolding answer_ready_def using that(3) assms(1) that(1,2) unfolding that(4)
    by (intro conjI exI [of _ "[ZSend hc (take 127 cmd) 0 rc]"])
       (simp_all only: answer_def instruction_def payload.case sent_simps)
  show ?thesis
    apply (rule wp_snprintf_whole)
      apply (simp add: c_array_facts assms)
     apply simp
    apply (simp only: fst_conv)
    apply (rule wp_local_arrayI, rule wp_snprintf_whole, assumption, simp, simp only: fst_conv)
    apply (rule wp_cstr_wholeI, assumption)
    apply (rule seen_send_cs [OF assms(2-4)])
    apply (rule K, rule ready)
       apply assumption
      apply (erule trans, rule cs_server)
     apply assumption
    apply (simp add: cs_id assms)
    done
qed

lemma ready_answer:
  assumes "answer_ready lg (H(a \<mapsto> BEnv e)) tr (io(hr := io hr @ rq)) hc cmd otherwise e out v"
    and "exchange E hr env rq (Some e)" "H a = None"
    and "sock_in H p hu" "hu \<noteq> lg" "hr \<noteq> hu" "hc \<noteq> hu" "hr \<noteq> hc"
    and k: "\<And>rc t io'. seen lg (H(a \<mapsto> BEnv e)) tr io' t \<Longrightarrow>
      (\<And>t. seen lg (H(a \<mapsto> BEnv e)) tr io' t \<Longrightarrow>
        wp (free (Some a)) (\<lambda>_. room_change E lg H tr io hr hc hu env cmd otherwise OK_ZMQ) F t) \<Longrightarrow> K rc t"
  shows "wp (cstr_at out 0) (\<lambda>reply. wp (socket_send E socket_pair p out (length reply) 0) K F) F v"
proof -
  from assms(1) obtain ctl where r: "has_cstr out 0" "cs out = answer otherwise e"
      "sent hc (instruction cmd e) ctl"
      and v: "seen lg (H(a \<mapsto> BEnv e)) tr ((io(hr := io hr @ rq))(hc := (io(hr := io hr @ rq)) hc @ ctl)) v"
    by (auto simp: answer_ready_def)
  show ?thesis
  proof (rule wp_cstr_wholeI [OF r(1)], rule seen_send_cs [OF v _ assms(5)], goal_cases)
    case 1
    then show ?case using assms(3,4) by simp
  next
    case (2 rc t)
    show ?case
    proof (rule k [OF 2], erule seen_free, rule fun_upd_same, goal_cases)
      case (1 t u)
      then show ?case
        using r(2) assms(3,6,7,8) by (intro room_change_some [OF assms(2) r(3), of hu _ "[ZSend hu (cs out) 0 rc]"]) simp_all
    qed
  qed
qed

lemma ctl_atD:
  assumes "ctl_at H c lg hs hr hc hu"
  shows "sock_in H (c_logs c) lg" "sock_in H (c_shutdown c) hs" "sock_in H (c_req c) hr"
    "sock_in H (c_receiver c) hc" "sock_in H (c_ui c) hu"
    "lg \<noteq> hs" "hr \<noteq> lg" "hc \<noteq> lg" "hu \<noteq> lg" "hr \<noteq> hc" "hr \<noteq> hu" "hc \<noteq> hu" "hs \<noteq> hr" "hs \<noteq> hc" "hs \<noteq> hu"
  using assms by (auto simp: ctl_at_def)

lemma instruction_answer_simps:
  "payload e = ACK a \<Longrightarrow> instruction cmd e = [take 127 cmd]"
  "payload e = ACK a \<Longrightarrow> answer otherwise e = take 255 (''[SERWER]: '' @ cs (ack_message a))"
  "\<forall>a. payload e \<noteq> ACK a \<Longrightarrow> instruction cmd e = []"
  "\<forall>a. payload e \<noteq> ACK a \<Longrightarrow> answer otherwise e = otherwise"
  by (simp_all add: instruction_def answer_def split: payload.split)

lemma wp_case_ack:
  assumes "\<And>a. p = ACK a \<Longrightarrow> wp (f a) Q F s" "\<forall>a. p \<noteq> ACK a \<Longrightarrow> wp g Q F s"
  shows "wp (case p of ACK a \<Rightarrow> f a | _ \<Rightarrow> g) Q F s"
  using assms by (cases p) auto

lemma TXT_length: "length TXT_JOIN_FAILED < 256" "length TXT_LEAVE_FAILED < 256" "length TXT_ROOMS_FAILED < 1024"
  by (simp_all add: TXT_JOIN_FAILED_def TXT_LEAVE_FAILED_def TXT_ROOMS_FAILED_def)

lemma handle_room_join_ok:
  fixes E :: "'w ext"
  assumes "laws E" "ctl_at H c lg hs hr hc hu" "seen lg H tr io s"
    and oob: "\<not> has_cstr line 6 \<or> \<not> fits E 4096 \<Longrightarrow> F OutOfBounds"
    and nomem: "\<not> malloc_law E \<Longrightarrow> F NullPointer"
  shows "wp (handle_room_join E (c_req c) (c_receiver c) (c_ui c) line user (c_logs c))
    (room_change E lg H tr io hr hc hu \<lparr>message_id = ''cmd-join'', payload = JOIN_ROOM_REQ
         \<lparr>join_req_room_name = cs (drop 6 line), join_req_username = user\<rparr>\<rparr>
       (CHAT_MESSAGE_JOIN_ROOM (cs (drop 6 line))) TXT_JOIN_FAILED) F s"
    (is "wp _ (room_change _ _ _ _ _ _ _ _ ?env ?cmd _) _ _")
proof -
  note S = ctl_atD [OF assms(2)]
  show ?thesis
    unfolding handle_room_join_def wp_bnd
  proof (rule seen_cstr, rule send_and_recv_env_ok [OF assms(3,1) S(3,1,7)], goal_cases)
    case (2 rq t)
    show ?case
      by (simp add: wp_simps) (rule seen_log_error [OF 2(3) S(1)], rule room_change_none [OF 2(2)])
  next
    case (3 rq a e t)
    have S': "sock_in (H(a \<mapsto> BEnv e)) (c_logs c) lg" "sock_in (H(a \<mapsto> BEnv e)) (c_receiver c) hc"
      using S 3(3) by simp_all
    show ?case
      apply (simp only: option.simps not_False_eq_True if_True wp_seq wp_ret case_prod_beta)
      apply (rule seen_load_env [OF 3(4) fun_upd_same])
      apply (rule wp_case_ack)
       apply (simp only: wp_seq wp_ret case_prod_beta)
       apply (rule ready_ack [OF _ 3(4) S'(2) S(8)], assumption, simp, simp, rule TXT_length)
       apply (erule ready_log [OF _ S'(1)])
       apply (erule ready_answer [OF _ 3(2,3) S(5,9,11,12,10)])
       apply (erule seen_only_if_log [OF _ S'(1)], assumption)
      apply (rule ready_otherwise [OF _ 3(4)], assumption, simp, rule TXT_length)
      apply (erule ready_answer [OF _ 3(2,3) S(5,9,11,12,10)])
      apply (erule seen_only_if_log [OF _ S'(1)], assumption)
      done
  qed (use oob nomem in auto)
qed

lemma handle_room_leave_ok:
  fixes E :: "'w ext"
  assumes "laws E" "ctl_at H c lg hs hr hc hu" "seen lg H tr io s"
    and oob: "\<not> has_cstr line 7 \<or> \<not> fits E 4096 \<Longrightarrow> F OutOfBounds"
    and nomem: "\<not> malloc_law E \<Longrightarrow> F NullPointer"
  shows "wp (handle_room_leave E (c_req c) (c_receiver c) (c_ui c) line user (c_logs c))
    (room_change E lg H tr io hr hc hu \<lparr>message_id = ''cmd-leave'', payload = LEAVE_ROOM_REQ
         \<lparr>leave_req_room_name = cs (drop 7 line), leave_req_username = user\<rparr>\<rparr>
       (CHAT_MESSAGE_LEAVE_ROOM (cs (drop 7 line))) TXT_LEAVE_FAILED) F s"
proof -
  note S = ctl_atD [OF assms(2)]
  show ?thesis
    unfolding handle_room_leave_def wp_bnd
  proof (rule seen_cstr, rule send_and_recv_env_ok [OF assms(3,1) S(3,1,7)], goal_cases)
    case (2 rq t)
    show ?case
      by (simp add: wp_simps) (rule seen_log_error [OF 2(3) S(1)], rule room_change_none [OF 2(2)])
  next
    case (3 rq a e t)
    have S': "sock_in (H(a \<mapsto> BEnv e)) (c_receiver c) hc"
      using S 3(3) by simp
    show ?case
      apply (simp only: option.simps not_False_eq_True if_True wp_seq wp_ret case_prod_beta)
      apply (rule seen_load_env [OF 3(4) fun_upd_same])
      apply (rule wp_case_ack)
       apply (simp only: wp_seq wp_ret case_prod_beta)
       apply (rule ready_ack [OF _ 3(4) S' S(8)], assumption, simp, rule nul_free_literals, rule TXT_length)
       apply (erule ready_answer [OF _ 3(2,3) S(5,9,11,12,10)], assumption)
      apply (rule ready_otherwise [OF _ 3(4)], assumption, rule nul_free_literals, rule TXT_length)
      apply (erule ready_answer [OF _ 3(2,3) S(5,9,11,12,10)], assumption)
      done
  qed (use oob nomem in auto)
qed

text \<open>The text of a room list: the header, one line for each room, cut off at 1023 bytes.\<close>

definition room_list_text :: "room_info list \<Rightarrow> string" where
  "room_list_text rooms = TXT_ROOMS_HEADER (length rooms) @ concat (map room_line rooms)"

text \<open>How far the offset has moved before the last room is formatted.\<close>

definition room_list_fits :: "room_info list \<Rightarrow> bool" where
  "room_list_fits rooms \<longleftrightarrow> rooms = [] \<or>
     length (TXT_ROOMS_HEADER (length rooms) @ concat (map room_line (butlast rooms))) \<le> 1024"

lemma nul_free_numbers [simp]: "nul_free (show_nat n)" "nul_free (show_int i)" "nul_free s \<Longrightarrow> nul_free (pad_right n s)"
proof -
  show n: "nul_free (show_nat n)" for n
  proof (induction n rule: show_nat.induct)
    case (1 n)
    have "nul_free [digit_char d]" if "d < 10" for d
    proof -
      have "of_char (digit_char d) = (48 + d :: nat)" using that by (simp add: digit_char_def)
      moreover have "of_char NUL = (0 :: nat)" by (simp add: NUL_def)
      ultimately show ?thesis by auto
    qed
    then show ?case using 1 by (subst show_nat.simps) simp
  qed
  show "nul_free (show_int i)"
    by (simp add: show_int_def n) (simp add: NUL_def)
  show "nul_free s \<Longrightarrow> nul_free (pad_right n s)"
    by (auto simp: pad_right_def nul_free_def NUL_def)
qed

lemma nul_free_room_line [simp]: "nul_free (room_line r)"
  unfolding room_line_def by (simp, simp add: NUL_def)

lemma nul_free_header [simp]: "nul_free (TXT_ROOMS_HEADER n)"
  unfolding TXT_ROOMS_HEADER_def by (simp, simp add: NUL_def)

text \<open>An array that holds the beginning of a text that was formatted piece by piece.\<close>

definition holds_text :: "string \<Rightarrow> string \<Rightarrow> bool" where
  "holds_text buf T \<longleftrightarrow> length buf = 1024 \<and> has_cstr buf 0 \<and> cs buf = take 1023 T \<and> nul_free T"

lemma snprintf_next_run:
  assumes "holds_text buf T" "nul_free x" "length T \<le> 1024"
  obtains b where "snprintf_at buf (nat (int (length T))) (nat ((1024 - int (length T)) mod 2 ^ 64)) x s
      = Inr ((b, int (length x)), s)" "holds_text b (T @ x)"
proof (cases "length T = 1024")
  case True
  with assms have "holds_text buf (T @ x)" by (simp add: holds_text_def)
  moreover have "snprintf_at buf (nat (int (length T))) (nat ((1024 - int (length T)) mod 2 ^ 64)) x s
      = Inr ((buf, int (length x)), s)"
    using True assms(1) by (simp add: snprintf_at_def run_simps holds_text_def)
  ultimately show ?thesis using that by blast
next
  case False
  define k where "k = length T"
  have k: "k \<le> 1023" using False assms(3) by (simp add: k_def)
  then have sz: "nat ((1024 - int k) mod 2 ^ 64) = 1024 - k" by simp
  have T: "take k buf = T"
    using assms(1) k take_length_cs [of buf] by (simp add: holds_text_def k_def)
  let ?b = "T @ take (1023 - k) x @ NUL # drop (Suc (k + min (length x) (1023 - k))) buf"
  have len: "length buf = 1024" using assms(1) by (simp add: holds_text_def)
  then have "snprintf_at buf k (1024 - k) x s = Inr ((?b, int (length x)), s)"
    using k T by (cases "length x \<le> 1023 - k") (simp_all add: snprintf_at_def write_at_def run_simps min_def)
  moreover have "holds_text ?b (T @ x)"
  proof -
    have "cs ?b = T @ take (1023 - k) x"
      using assms(1,2) cs_terminated [of "T @ take (1023 - k) x"]
      by (simp add: cs_id holds_text_def)
    moreover have "take 1023 (T @ x) = T @ take (1023 - k) x" using k by (simp add: k_def)
    moreover have "length ?b = 1024"
      using len k by (cases "length x \<le> 1023 - k") (simp_all add: k_def)
    ultimately show ?thesis using assms(1,2) by (simp add: holds_text_def has_cstr_def)
  qed
  ultimately show ?thesis using that sz by (simp add: k_def)
qed

lemma room_lines_ok:
  assumes "holds_text buf T"
  shows "wp (room_lines rs buf (int (length T)))
    (\<lambda>(out, _) t. t = s \<and> holds_text out (T @ concat (map room_line rs)) \<and>
       (rs = [] \<or> length (T @ concat (map room_line (butlast rs))) \<le> 1024))
    (\<lambda>f. f = OutOfBounds \<and> rs \<noteq> [] \<and> 1024 < length (T @ concat (map room_line (butlast rs)))) s"
  using assms
proof (induction rs arbitrary: buf T)
  case Nil
  then show ?case by (simp add: wp_simps)
next
  case (Cons r rs)
  have bl: "length (T @ concat (map room_line (butlast (r # rs)))) =
      (if rs = [] then length T else length ((T @ room_line r) @ concat (map room_line (butlast rs))))"
    by simp
  show ?case
  proof (cases "length T \<le> 1024")
    case True
    obtain b where b: "snprintf_at buf (nat (int (length T))) (nat ((1024 - int (length T)) mod 2 ^ 64)) (room_line r) s
        = Inr ((b, int (length (room_line r))), s)" "holds_text b (T @ room_line r)"
      by (rule snprintf_next_run [OF Cons.prems nul_free_room_line True])
    have run: "wp (snprintf_at buf (nat (int (length T))) (nat ((1024 - int (length T)) mod 2 ^ 64)) (room_line r)) Q F s
        = Q (b, int (length (room_line r))) s" for Q F
      using b(1) by (simp add: wp_def)
    have step: "wp (room_lines (r # rs) buf (int (length T))) Q F s =
        wp (room_lines rs b (int (length (T @ room_line r)))) Q F s" for Q F
      by (simp only: room_lines.simps wp_bnd run case_prod_conv length_append of_nat_add)
    have "wp (room_lines rs b (int (length (T @ room_line r))))
      (\<lambda>(out, _) t. t = s \<and> holds_text out ((T @ room_line r) @ concat (map room_line rs)) \<and>
         (rs = [] \<or> length ((T @ room_line r) @ concat (map room_line (butlast rs))) \<le> 1024))
      (\<lambda>f. f = OutOfBounds \<and> rs \<noteq> [] \<and> 1024 < length ((T @ room_line r) @ concat (map room_line (butlast rs)))) s"
      by (rule Cons.IH [OF b(2)])
    then show ?thesis
      unfolding step bl using True by (elim wp_mono) (auto split: if_splits)
  next
    case False
    moreover have "length buf = 1024" using Cons.prems by (simp add: holds_text_def)
    ultimately have "snprintf_at buf (nat (int (length T))) n (room_line r) s = Inl OutOfBounds" for n
      by (simp add: snprintf_at_def run_simps)
    then show ?thesis using False unfolding bl by (simp add: wp_def run_simps)
  qed
qed

text \<open>What the UI is told after \<open>/rooms\<close>.\<close>

definition list_answer :: "envelope \<Rightarrow> string" where
  "list_answer e = (case payload e of
     LIST_ROOMS_RESP resp \<Rightarrow> take 1023 (room_list_text (list_resp_rooms resp))
   | _ \<Rightarrow> TXT_ROOMS_FAILED)"

definition list_fits :: "envelope \<Rightarrow> bool" where
  "list_fits e \<longleftrightarrow> (case payload e of
     LIST_ROOMS_RESP resp \<Rightarrow> room_list_fits (list_resp_rooms resp) | _ \<Rightarrow> True)"

definition rooms_listed where
  "rooms_listed E lg H tr io hr hu r t \<longleftrightarrow>
     (\<exists>rq res. exchange E hr \<lparr>message_id = ''cmd-rooms'', payload = LIST_ROOMS_REQ LIST_ROOMS_REQUEST_INIT\<rparr> rq res \<and>
       (case res of
          None \<Rightarrow> r = ERROR_ZMQ_REQ_SEND \<and> seen lg H tr (io(hr := io hr @ rq)) t
        | Some e \<Rightarrow> r = OK_ZMQ \<and> list_fits e \<and>
            (\<exists>rc. seen lg H tr (io(hr := io hr @ rq, hu := io hu @ [ZSend hu (list_answer e) 0 rc])) t)))"

lemma wp_case_list_resp:
  assumes "\<And>a. p = LIST_ROOMS_RESP a \<Longrightarrow> wp (f a) Q F s" "\<forall>a. p \<noteq> LIST_ROOMS_RESP a \<Longrightarrow> wp g Q F s"
  shows "wp (case p of LIST_ROOMS_RESP a \<Rightarrow> f a | _ \<Rightarrow> g) Q F s"
  using assms by (cases p) auto

lemma handle_room_list_ok:
  fixes E :: "'w ext"
  assumes "laws E" "ctl_at H c lg hs hr hc hu" "seen lg H tr io s"
    and oob: "\<not> fits E 4096 \<Longrightarrow> F OutOfBounds"
    and big: "\<And>e d w w'. x_unpack E d w = (Some e, w') \<Longrightarrow> \<not> list_fits e \<Longrightarrow> F OutOfBounds"
    and nomem: "\<not> malloc_law E \<Longrightarrow> F NullPointer"
  shows "wp (handle_room_list E (c_req c) (c_ui c) (c_logs c)) (rooms_listed E lg H tr io hr hu) F s"
proof -
  note S = ctl_atD [OF assms(2)]
  show ?thesis
    unfolding handle_room_list_def wp_bnd
  proof (rule seen_log [OF assms(3) S(1)], rule send_and_recv_env_ok [OF _ assms(1) S(3,1,7)], assumption, rule oob, assumption, goal_cases)
    case (1 t rq u)
    have "rooms_listed E lg H tr io hr hu ERROR_ZMQ_REQ_SEND v"
      if "seen lg H tr (io(hr := io hr @ rq)) v" for v
      unfolding rooms_listed_def using 1(2) that by (intro exI [of _ rq] exI [of _ None]) simp
    then show ?case
      by (intro seen_log [OF 1(3) S(1)]) (simp add: wp_simps, erule seen_log_error [OF _ S(1)])
  next
    case (2 t rq a e u)
    have S': "sock_in (H(a \<mapsto> BEnv e)) (c_logs c) lg" "sock_in (H(a \<mapsto> BEnv e)) (c_ui c) hu"
      using S 2(3) by simp_all
    have listed: "rooms_listed E lg H tr io hr hu OK_ZMQ v"
      if "seen lg H tr (io(hr := io hr @ rq, hu := io hu @ [ZSend hu (list_answer e) 0 rc])) v" "list_fits e" for v rc
      unfolding rooms_listed_def using 2(2) that by (intro exI [of _ rq] exI [of _ "Some e"]) auto
    have finish: "wp (cstr_at out 0) (\<lambda>text. wp (log_app E (c_logs c) (msg text)) (\<lambda>_.
        wp (socket_send E socket_pair (c_ui c) out (length text) 0) (\<lambda>_.
        wp (free (Some a)) (\<lambda>_. rooms_listed E lg H tr io hr hu OK_ZMQ) F) F) F) F v"
      if "seen lg (H(a \<mapsto> BEnv e)) tr (io(hr := io hr @ rq)) v" "has_cstr out 0" "cs out = list_answer e" "list_fits e"
      for v out msg
      apply (rule wp_cstr_wholeI [OF that(2)])
      apply (rule seen_log [OF that(1) S'(1)])
      apply (erule seen_send_cs [OF _ S'(2) S(9)])
      apply (erule seen_free, rule fun_upd_same)
      apply (rule listed)
      using S 2(3) that(3,4) by simp_all
    have overflow: "F OutOfBounds" if "payload e = LIST_ROOMS_RESP resp" "list_resp_rooms resp \<noteq> []"
      "1024 < length (TXT_ROOMS_HEADER (length (list_resp_rooms resp)) @
         concat (map room_line (butlast (list_resp_rooms resp))))" for resp
    proof -
      from 2(2) obtain d w w' where "x_unpack E d w = (Some e, w')" by (auto simp: exchange_def split: if_splits)
      then show ?thesis by (rule big) (use that in \<open>auto simp: list_fits_def room_list_fits_def\<close>)
    qed
    have header: "has_cstr b 0 \<Longrightarrow> length b = 1024 \<Longrightarrow> cs b = cs (take (1024 - 1) T) \<Longrightarrow> nul_free T \<Longrightarrow>
        holds_text b T" for b T
      by (simp add: holds_text_def cs_id)
    show ?case
      apply (rule seen_log [OF 2(4) S'(1)])
      apply (simp only: option.simps not_False_eq_True if_True wp_seq wp_ret case_prod_beta)
      apply (erule seen_load_env, rule fun_upd_same)
      apply (rule wp_case_list_resp)
       apply (simp only: wp_seq wp_ret case_prod_beta)
       apply (rule wp_snprintf_whole)
         apply (rule c_array_facts, simp, rule TXT_length)
        apply simp
       apply (erule seen_log [OF _ S'(1)])
       apply (unfold fst_conv snd_conv)
       apply (rule wp_mono [OF room_lines_ok])
         apply (rule header, assumption, assumption, assumption, simp)
        apply (clarsimp simp del: append_assoc length_append)
        apply (rule finish, assumption)
         apply (simp add: holds_text_def)
         apply (simp add: holds_text_def list_answer_def room_list_text_def)
        apply (simp add: list_fits_def room_list_fits_def)
       apply (use overflow in blast)
      apply (simp only: wp_ret)
      apply (erule finish)
       apply (rule c_array_facts, simp, rule TXT_length)
      apply (subst c_array_facts, simp, rule TXT_length)
       apply (simp add: list_answer_def split: payload.split)
      apply (simp add: list_fits_def split: payload.split)
      done
  qed (rule nomem)
qed

text \<open>\<open>/msg\<close> and \<open>/dm\<close>: either the usage text, or one request and a text that tells its outcome.\<close>

definition spoken where
  "spoken E lg H tr io hr hu request usage_text sent_text failed_text rest r t \<longleftrightarrow> r = OK_ZMQ \<and>
     (case split_token rest of
        (Some x, Some y) \<Rightarrow> \<exists>rq res rc. exchange E hr (request x y) rq res \<and>
          seen lg H tr (io(hr := io hr @ rq,
            hu := io hu @ [ZSend hu (if res = None then failed_text else sent_text) 0 rc])) t
      | _ \<Rightarrow> \<exists>rc. seen lg H tr (io(hu := io hu @ [ZSend hu usage_text 0 rc])) t)"

definition room_request :: "string \<Rightarrow> string \<Rightarrow> string \<Rightarrow> envelope" where
  "room_request user room content = \<lparr>message_id = ''cmd-msg'', payload = ROOM_MSG (ROOM_MESSAGE_INIT
     \<lparr>room_msg_room_name := room, room_msg_sender_username := user, room_msg_content := content\<rparr>)\<rparr>"

definition direct_request :: "string \<Rightarrow> string \<Rightarrow> string \<Rightarrow> envelope" where
  "direct_request user target content = \<lparr>message_id = ''cmd-dm'', payload = DIRECT_MSG (DIRECT_MESSAGE_INIT
     \<lparr>direct_msg_recipient_username := target, direct_msg_sender_username := user,
      direct_msg_content := content\<rparr>)\<rparr>"

text \<open>The part that both handlers share.\<close>

lemma speak_ok:
  fixes E :: "'w ext"
  assumes "laws E" "ctl_at H c lg hs hr hc hu" "seen lg H tr io s"
    and oob: "\<not> fits E 4096 \<Longrightarrow> F OutOfBounds"
    and n: "n \<le> Suc (length ok)" "m \<le> Suc (length failed)" "k \<le> Suc (length usage_text)"
    and nomem: "\<not> malloc_law E \<Longrightarrow> F NullPointer"
  shows "wp (case split_token rest of
      (Some x, Some y) \<Rightarrow> bnd (send_and_recv_env E (c_req c) (request x y) (c_logs c)) (\<lambda>res_env.
        if res_env \<noteq> None then bnd (send_text E (c_ui c) ok n) (\<lambda>_. free res_env)
        else bnd (log_error E (c_logs c) msg) (\<lambda>_. bnd (send_text E (c_ui c) failed m) (\<lambda>_. ret ())))
    | _ \<Rightarrow> bnd (send_text E (c_ui c) usage_text k) (\<lambda>_. ret ()))
    (\<lambda>_. spoken E lg H tr io hr hu request (take k (usage_text @ [NUL])) (take n (ok @ [NUL]))
       (take m (failed @ [NUL])) rest OK_ZMQ) F s" (is "wp _ (\<lambda>_. ?P) _ _")
proof -
  note S = ctl_atD [OF assms(2)]
  have usage: "wp (bnd (send_text E (c_ui c) usage_text k) (\<lambda>_. ret ())) (\<lambda>_. ?P) F s"
    if "\<And>x y. split_token rest \<noteq> (Some x, Some y)"
    unfolding wp_seq wp_ret
    by (rule seen_send_text [OF assms(3) S(5,9) n(3)])
       (use that in \<open>auto simp: spoken_def split: prod.split option.split\<close>)
  have request: "wp (bnd (send_and_recv_env E (c_req c) (request x y) (c_logs c)) (\<lambda>res_env.
        if res_env \<noteq> None then bnd (send_text E (c_ui c) ok n) (\<lambda>_. free res_env)
        else bnd (log_error E (c_logs c) msg) (\<lambda>_. bnd (send_text E (c_ui c) failed m) (\<lambda>_. ret ()))))
        (\<lambda>_. ?P) F s"
    if xy: "split_token rest = (Some x, Some y)" for x y
    unfolding wp_seq
  proof (rule send_and_recv_env_ok [OF assms(3,1) S(3,1,7)], rule oob, assumption, goal_cases)
    case (1 rq t)
    show ?case
      apply (simp only: simp_thms if_False wp_seq wp_ret)
      apply (rule seen_log_error [OF 1(2) S(1)])
      apply (erule seen_send_text [OF _ S(5,9) n(2)])
      apply (unfold spoken_def xy prod.case option.case)
      apply (rule conjI, rule refl, rule exI [of _ rq], rule exI [of _ None])
      using 1(1) S(11) by auto
  next
    case (2 rq a e t)
    have ui: "sock_in (H(a \<mapsto> BEnv e)) (c_ui c) hu" using S 2(2) by simp
    show ?case
      apply (simp only: option.simps not_False_eq_True if_True wp_seq)
      apply (rule seen_send_text [OF 2(3) ui S(9) n(1)])
      apply (erule seen_free, rule fun_upd_same)
      apply (unfold spoken_def xy prod.case option.case)
      apply (rule conjI, rule refl, rule exI [of _ rq], rule exI [of _ "Some e"])
      using 2(1,2) S(11) by auto
  qed (rule nomem)
  obtain u v where uv: "split_token rest = (u, v)" by fastforce
  show ?thesis
    using usage request uv by (cases u; cases v) auto
qed

lemma handle_message_room_ok:
  fixes E :: "'w ext"
  assumes "laws E" "ctl_at H c lg hs hr hc hu" "seen lg H tr io s"
    and oob: "\<not> has_cstr line 5 \<or> \<not> fits E 4096 \<Longrightarrow> F OutOfBounds"
    and nomem: "\<not> malloc_law E \<Longrightarrow> F NullPointer"
  shows "wp (handle_message_room E (c_req c) (c_ui c) line user (c_logs c))
    (spoken E lg H tr io hr hu (room_request user) (take 35 (TXT_MSG_USAGE @ [NUL])) CHAT_MESSAGE_SEND_ACK
       (take 31 (TXT_MSG_FAILED @ [NUL])) (cs (drop 5 line))) F s"
proof -
  have ack: "take (length CHAT_MESSAGE_SEND_ACK) (CHAT_MESSAGE_SEND_ACK @ [NUL]) = CHAT_MESSAGE_SEND_ACK"
    by simp
  note sp = speak_ok [OF assms(1-3), where n = "length CHAT_MESSAGE_SEND_ACK" and ok = CHAT_MESSAGE_SEND_ACK
    and m = 31 and failed = TXT_MSG_FAILED and k = 35 and usage_text = TXT_MSG_USAGE
    and request = "room_request user", unfolded ack room_request_def]
  show ?thesis
    unfolding handle_message_room_def wp_seq wp_ret room_request_def
    by (rule seen_cstr, rule sp) (use oob nomem in \<open>simp_all add: TXT_MSG_FAILED_def TXT_MSG_USAGE_def\<close>)
qed

lemma handle_message_direct_ok:
  fixes E :: "'w ext"
  assumes "laws E" "ctl_at H c lg hs hr hc hu" "seen lg H tr io s"
    and oob: "\<not> has_cstr line 4 \<or> \<not> fits E 4096 \<Longrightarrow> F OutOfBounds"
    and nomem: "\<not> malloc_law E \<Longrightarrow> F NullPointer"
  shows "wp (handle_message_direct E (c_req c) (c_ui c) line user (c_logs c))
    (spoken E lg H tr io hr hu (direct_request user) (take 32 (TXT_DM_USAGE @ [NUL]))
       (take 32 (TXT_DM_SENT @ [NUL])) (take 23 (TXT_DM_FAILED @ [NUL])) (cs (drop 4 line))) F s"
proof -
  note sp = speak_ok [OF assms(1-3), where n = 32 and ok = TXT_DM_SENT
    and m = 23 and failed = TXT_DM_FAILED and k = 32 and usage_text = TXT_DM_USAGE
    and request = "direct_request user", unfolded direct_request_def]
  show ?thesis
    unfolding handle_message_direct_def wp_seq wp_ret direct_request_def
    by (rule seen_cstr, rule sp)
      (use oob nomem in \<open>simp_all add: TXT_DM_FAILED_def TXT_DM_USAGE_def TXT_DM_SENT_def\<close>)
qed

section \<open>What all commands have in common\<close>

lemma sent_one [simp]: "\<exists>d'. sent h [d'] [ZSend h d 0 rc]"
  using sent_simps(2) by blast

text \<open>
  The contract between the dispatcher and the command handlers: whatever happens, a handler
  leaves memory as it found it, makes at most one exchange on the REQ socket, and either answers
  the UI exactly once and reports success, or does not answer and reports an error.
\<close>

definition served where
  "served E lg H tr io hr hc hu r t \<longleftrightarrow>
     (\<exists>rq ctl ui ds. seen lg H tr (io(hr := io hr @ rq, hc := io hc @ ctl, hu := io hu @ ui)) t \<and>
        (rq = [] \<or> (\<exists>env res. exchange E hr env rq res)) \<and> sent hc ds ctl \<and>
        (r = OK_ZMQ \<and> (\<exists>d. sent hu [d] ui) \<or> r = ERROR_ZMQ_REQ_SEND \<and> ctl = [] \<and> ui = []))"

lemma servedI:
  assumes "seen lg H tr (io(hr := io hr @ rq, hc := io hc @ ctl, hu := io hu @ ui)) t"
    and "rq = [] \<or> (\<exists>env res. exchange E hr env rq res)" "sent hc ds ctl"
    and "r = OK_ZMQ \<and> (\<exists>d. sent hu [d] ui) \<or> r = ERROR_ZMQ_REQ_SEND \<and> ctl = [] \<and> ui = []"
  shows "served E lg H tr io hr hc hu r t"
  unfolding served_def using assms by blast

locale command_handler =
  fixes hd :: "'w ext \<Rightarrow> ctl_env \<Rightarrow> string \<Rightarrow> ('w st, int) prog"
  assumes serves: "laws E \<Longrightarrow> ctl_at H c lg hs hr hc hu \<Longrightarrow> seen lg H tr io s \<Longrightarrow>
    wp (hd E c line) (served E lg H tr io hr hc hu) (ctl_fault E) s"
begin

lemma no_leak:
  assumes "laws E" "ctl_at (heap s) c lg hs hr hc hu" "heap_ok s"
  shows "wp (hd E c line) (\<lambda>r t. heap t = heap s \<and> heap_ok t) (ctl_fault E) s"
  by (rule wp_mono [OF serves [OF assms(1,2) seen_start [OF assms(3)]]])
     (auto simp: served_def seen_def)

lemma one_answer:
  assumes "laws E" "ctl_at (heap s) c lg hs hr hc hu" "heap_ok s"
  shows "wp (hd E c line) (\<lambda>r t. \<exists>es. trace t = trace s @ es \<and> io_on hs es = [] \<and>
      (if 0 \<le> r then \<exists>d rc. io_on hu es = [ZSend hu d 0 rc] else io_on hu es = [] \<and> io_on hc es = []))
    (ctl_fault E) s"
proof (rule wp_mono [OF serves [OF assms(1,2) seen_start [OF assms(3)]]])
  fix r t
  assume "served E lg (heap s) (trace s) (\<lambda>_. []) hr hc hu r t"
  then obtain rq ctl ui where t: "seen lg (heap s) (trace s) ((\<lambda>_. [])(hr := rq, hc := ctl, hu := ui)) t"
    and r: "r = OK_ZMQ \<and> (\<exists>d. sent hu [d] ui) \<or> r = ERROR_ZMQ_REQ_SEND \<and> ctl = [] \<and> ui = []"
    by (auto simp: served_def)
  from t obtain es where es: "trace t = trace s @ es"
      "\<And>h. h \<noteq> lg \<Longrightarrow> io_on h es = ((\<lambda>_. [])(hr := rq, hc := ctl, hu := ui)) h"
    by (auto simp: seen_def)
  with ctl_atD [OF assms(2)] have "io_on hs es = []" "io_on hu es = ui" "io_on hc es = ctl" by auto
  with r es(1) show "\<exists>es. trace t = trace s @ es \<and> io_on hs es = [] \<and>
      (if 0 \<le> r then \<exists>d rc. io_on hu es = [ZSend hu d 0 rc] else io_on hu es = [] \<and> io_on hc es = [])"
    by (intro exI [of _ es]) (auto simp: codes sent_def length_Suc_conv)
qed

end

text \<open>
  The same for a handler that makes the request \<open>env\<close>. When the exchange fails, the handlers of
  \<open>/rooms\<close>, \<open>/join\<close> and \<open>/leave\<close> give up (\<open>ab\<close>), those of \<open>/msg\<close> and \<open>/dm\<close> answer all the same.
\<close>

definition asked where
  "asked E lg H tr io hr hc hu ab env r t \<longleftrightarrow>
     (\<exists>rq res ctl ui ds. seen lg H tr (io(hr := io hr @ rq, hc := io hc @ ctl, hu := io hu @ ui)) t \<and>
        exchange E hr env rq res \<and> sent hc ds ctl \<and>
        (if ab \<and> res = None then r = ERROR_ZMQ_REQ_SEND \<and> ctl = [] \<and> ui = []
         else r = OK_ZMQ \<and> (\<exists>d. sent hu [d] ui)))"

lemma askedI:
  assumes "seen lg H tr (io(hr := io hr @ rq, hc := io hc @ ctl, hu := io hu @ ui)) t"
    and "exchange E hr env rq res" "sent hc ds ctl"
    and "if ab \<and> res = None then r = ERROR_ZMQ_REQ_SEND \<and> ctl = [] \<and> ui = []
      else r = OK_ZMQ \<and> (\<exists>d. sent hu [d] ui)"
  shows "asked E lg H tr io hr hc hu ab env r t"
  unfolding asked_def using assms by blast

lemma asked_served: "asked E lg H tr io hr hc hu ab env r t \<Longrightarrow> served E lg H tr io hr hc hu r t"
  unfolding asked_def served_def by (fastforce split: if_splits)

text \<open>A handler that tells the receiver nothing.\<close>

lemma asked_quiet:
  assumes "ctl_at H c lg hs hr hc hu" "exchange E hr env rq res"
  shows "res = None \<Longrightarrow> seen lg H tr (io(hr := io hr @ rq)) t \<Longrightarrow> asked E lg H tr io hr hc hu True env ERROR_ZMQ_REQ_SEND t"
    and "\<not> (ab \<and> res = None) \<Longrightarrow> seen lg H tr (io(hr := io hr @ rq, hu := io hu @ [ZSend hu d 0 rc])) t \<Longrightarrow>
      asked E lg H tr io hr hc hu ab env OK_ZMQ t"
proof -
  note S = ctl_atD [OF assms(1)]
  show "asked E lg H tr io hr hc hu True env ERROR_ZMQ_REQ_SEND t"
    if "res = None" "seen lg H tr (io(hr := io hr @ rq)) t"
    using that S by (intro askedI [where rq = rq and ctl = "[]" and ui = "[]" and ds = "[]", OF _ assms(2)])
      (auto simp: fun_upd_idem)
  show "asked E lg H tr io hr hc hu ab env OK_ZMQ t"
    if "\<not> (ab \<and> res = None)" "seen lg H tr (io(hr := io hr @ rq, hu := io hu @ [ZSend hu d 0 rc])) t"
    using that S by (intro askedI [where rq = rq and ctl = "[]" and ui = "[ZSend hu d 0 rc]" and ds = "[]", OF _ assms(2)])
      (auto simp: fun_upd_idem)
qed

lemma asked_change:
  assumes "ctl_at H c lg hs hr hc hu" "room_change E lg H tr io hr hc hu env cmd otherwise r t"
  shows "asked E lg H tr io hr hc hu True env r t"
proof -
  from assms(2) obtain rq res where x: "exchange E hr env rq res" and c: "case res of
      None \<Rightarrow> r = ERROR_ZMQ_REQ_SEND \<and> seen lg H tr (io(hr := io hr @ rq)) t
    | Some e \<Rightarrow> r = OK_ZMQ \<and> (\<exists>ctl ui. sent hc (instruction cmd e) ctl \<and> sent hu [answer otherwise e] ui \<and>
        seen lg H tr (io(hr := io hr @ rq, hc := io hc @ ctl, hu := io hu @ ui)) t)"
    by (auto simp: room_change_def)
  show ?thesis
  proof (cases res)
    case None
    then show ?thesis using c asked_quiet(1) [OF assms(1) x] by auto
  next
    case (Some e)
    with c obtain ctl ui where "r = OK_ZMQ" "sent hc (instruction cmd e) ctl" "sent hu [answer otherwise e] ui"
      "seen lg H tr (io(hr := io hr @ rq, hc := io hc @ ctl, hu := io hu @ ui)) t" by auto
    then show ?thesis using x Some by (intro askedI) auto
  qed
qed

lemma asked_list:
  assumes "ctl_at H c lg hs hr hc hu" "rooms_listed E lg H tr io hr hu r t"
  shows "asked E lg H tr io hr hc hu True \<lparr>message_id = ''cmd-rooms'', payload = LIST_ROOMS_REQ LIST_ROOMS_REQUEST_INIT\<rparr> r t"
  using assms(2) asked_quiet [OF assms(1)] unfolding rooms_listed_def
  by (fastforce split: option.splits)

lemma asked_spoken:
  assumes "ctl_at H c lg hs hr hc hu" "spoken E lg H tr io hr hu request usage_text ok failed rest r t"
    and "split_token rest = (Some x, Some y)"
  shows "asked E lg H tr io hr hc hu False (request x y) r t"
  using assms(2,3) asked_quiet(2) [OF assms(1), where ab = False] unfolding spoken_def by fastforce

lemma served_spoken:
  assumes "ctl_at H c lg hs hr hc hu" "spoken E lg H tr io hr hu request usage_text ok failed rest r t"
  shows "served E lg H tr io hr hc hu r t"
proof (cases "\<exists>x y. split_token rest = (Some x, Some y)")
  case True
  then show ?thesis using asked_spoken [OF assms] asked_served by blast
next
  case False
  then obtain rc where "r = OK_ZMQ" "seen lg H tr (io(hu := io hu @ [ZSend hu usage_text 0 rc])) t"
    using assms(2) by (auto simp: spoken_def split: prod.splits option.splits)
  with ctl_atD [OF assms(1)] show ?thesis
    by (intro servedI [where rq = "[]" and ctl = "[]" and ui = "[ZSend hu usage_text 0 rc]" and ds = "[]"])
      (auto simp: fun_upd_idem)
qed

lemmas served_change = asked_served [OF asked_change]
lemmas served_list = asked_served [OF asked_list]

interpretation rooms: command_handler "\<lambda>E c line. handle_room_list E (c_req c) (c_ui c) (c_logs c)"
  by unfold_locales (rule wp_then [OF handle_room_list_ok], assumption+, simp_all add: served_list)

interpretation join: command_handler
  "\<lambda>E c line. handle_room_join E (c_req c) (c_receiver c) (c_ui c) line (c_username c) (c_logs c)"
  by unfold_locales (rule wp_then [OF handle_room_join_ok], assumption+, simp_all add: served_change)

interpretation leave: command_handler
  "\<lambda>E c line. handle_room_leave E (c_req c) (c_receiver c) (c_ui c) line (c_username c) (c_logs c)"
  by unfold_locales (rule wp_then [OF handle_room_leave_ok], assumption+, simp_all add: served_change)

interpretation room_message: command_handler
  "\<lambda>E c line. handle_message_room E (c_req c) (c_ui c) line (c_username c) (c_logs c)"
  by unfold_locales (rule wp_then [OF handle_message_room_ok], assumption+, simp_all add: served_spoken)

interpretation direct_message: command_handler
  "\<lambda>E c line. handle_message_direct E (c_req c) (c_ui c) line (c_username c) (c_logs c)"
  by unfold_locales (rule wp_then [OF handle_message_direct_ok], assumption+, simp_all add: served_spoken)

section \<open>A sample session\<close>

text \<open>The sockets of \<open>sim_sockets\<close> in the roles of the controller; the witnesses below run on it.\<close>

definition sim_ctl :: ctl_env where
  "sim_ctl = \<lparr>c_shutdown = Some 1, c_req = Some 2, c_receiver = Some 3, c_ui = Some 4,
     c_logs = Some 0, c_items = [], c_username = ''bob''\<rparr>"

lemma sim_ctl_simps [simp]:
  "c_shutdown sim_ctl = Some 1" "c_req sim_ctl = Some 2" "c_receiver sim_ctl = Some 3"
  "c_ui sim_ctl = Some 4" "c_logs sim_ctl = Some 0" "c_username sim_ctl = ''bob''"
  by (simp_all add: sim_ctl_def)

lemma sim_ctl_at [simp]: "ctl_at (heap (sim_sockets w)) sim_ctl 10 11 12 13 14"
  by (simp add: ctl_at_def sock_in_def)

lemma sim_laws [simp]: "laws sim_short" "laws sim_ext"
  by (simp_all add: laws_def)

text \<open>
  A server that answers: whatever is asked on the REQ socket (handle 12) gets the reply \<open>reply\<close>,
  which decodes to \<open>e\<close>, and the UI (handle 14) sends \<open>line\<close>. Polls fail.
\<close>

definition sim_server :: "string \<Rightarrow> string \<Rightarrow> envelope \<Rightarrow> script ext" where
  "sim_server line reply e = sim_ext\<lparr>
     x_recv := (\<lambda>h n fl w. let m = take n (if h = 14 then line else if h = 12 then reply else [])
        in ((int (length m), m), w)),
     x_unpack := (\<lambda>d w. (if d = reply then Some e else None, w)),
     x_poll := (\<lambda>items tm w. ((-1, []), w))\<rparr>"

lemma sim_server_laws [simp]:
  "laws (sim_server line reply e)" "malloc_law (sim_server line reply e)" "fits (sim_server line reply e) n"
proof -
  have "\<exists>m'. min (length m) n = length m' \<and> take n m = take n m'" for m :: string and n
    by (rule exI [of _ "take n m"]) (simp add: min.commute)
  then show "laws (sim_server line reply e)"
    by (auto simp: sim_server_def laws_def recv_law_def pack_law_def Let_def sim_ext_def)
qed (simp_all add: sim_server_def malloc_law_def fits_def Let_def sim_ext_def)

lemma sim_server_simps [simp]:
  "x_recv (sim_server line reply e) 14 n fl w = ((int (length (take n line)), take n line), w)"
  "x_unpack (sim_server line reply e) reply w = (Some e, w)"
  "x_poll (sim_server line reply e) items tm w = ((-1, []), w)" "x_eintr (sim_server line reply e) w = False"
  by (simp_all add: sim_server_def Let_def sim_ext_def)

lemma sim_server_replies:
  assumes "exchange (sim_server line reply e) 12 env es res" "length reply \<le> 4096"
  shows "res = Some e"
  using assms by (auto simp: exchange_def sim_server_def Let_def split: if_splits)

lemma sent_one_iff: "sent h [d] es \<longleftrightarrow> (\<exists>rc. es = [ZSend h d 0 rc])"
  by (auto simp: sent_def length_Suc_conv)

end
