(* ===== verification/Progress.thy ===== *)
theory Progress
  imports Dialogue Sample_World
begin

text \<open>
  Why the main loops end. The loops have no bound of their own: a thread leaves when it is told
  to. \<open>dl\<close> is a measure of the world, how long the environment may still go on before it tells
  the thread; \<open>steady\<close> says that the calls of a handler never push it back. A program is \<open>tame\<close>
  when it does not push it back either, which follows from its syntax (collection
  \<open>tame_intros\<close>).
\<close>

definition tame :: "('w \<Rightarrow> nat) \<Rightarrow> ('w st, 'a) prog \<Rightarrow> bool" where
  "tame dl m \<longleftrightarrow> (\<forall>s x t. m s = Inr (x, t) \<longrightarrow> dl (world t) \<le> dl (world s))"

definition keeps :: "('w \<Rightarrow> nat) \<Rightarrow> ('w \<Rightarrow> 'a \<times> 'w) \<Rightarrow> bool" where
  "keeps dl f \<longleftrightarrow> (\<forall>w x w'. f w = (x, w') \<longrightarrow> dl w' \<le> dl w)"

definition steady :: "'w ext \<Rightarrow> ('w \<Rightarrow> nat) \<Rightarrow> bool" where
  "steady E dl \<longleftrightarrow> (\<forall>n. keeps dl (x_malloc E n)) \<and> keeps dl (x_time E) \<and>
     (\<forall>h opt v. keeps dl (x_setsockopt E h opt v)) \<and> (\<forall>h d fl. keeps dl (x_send E h d fl)) \<and>
     (\<forall>h n fl. keeps dl (x_recv E h n fl)) \<and> (\<forall>d. keeps dl (x_unpack E d)) \<and>
     (\<forall>n. keeps dl (x_fgets E n)) \<and> (\<forall>h. keeps dl (\<lambda>w. ((), x_close E h w)))"

lemma steadyD:
  assumes "steady E dl"
  shows "keeps dl (x_malloc E n)" "keeps dl (x_time E)" "keeps dl (x_setsockopt E h opt v)"
    "keeps dl (x_send E h d fl)" "keeps dl (x_recv E h n fl)" "keeps dl (x_unpack E d)"
    "keeps dl (x_fgets E n)" "keeps dl (\<lambda>w. ((), x_close E h w))"
  using assms by (auto simp: steady_def)

named_theorems tame_intros "what does not push the measure back"

lemma tame_ret [tame_intros]: "tame dl (ret x)"
  by (simp add: tame_def run_simps)

lemma tame_gets [tame_intros]: "tame dl (gets g)"
  by (simp add: tame_def run_simps)

lemma tame_fail [tame_intros]: "tame dl (fail f)"
  by (simp add: tame_def run_simps)

lemma tame_bnd [tame_intros]: "tame dl m \<Longrightarrow> (\<And>x. tame dl (k x)) \<Longrightarrow> tame dl (bnd m k)"
  unfolding tame_def by (auto simp: run_simps split: sum.splits) (meson order_trans)

lemma tame_if [tame_intros]: "tame dl m \<Longrightarrow> tame dl n \<Longrightarrow> tame dl (if b then m else n)"
  by simp

lemma tame_only_if [tame_intros]: "tame dl m \<Longrightarrow> tame dl (only_if b m)"
  by (simp add: only_if_def tame_ret)

lemma tame_let [tame_intros]: "(\<And>x. tame dl (m x)) \<Longrightarrow> tame dl (let x = a in m x)"
  by simp

lemma tame_prod [tame_intros]: "(\<And>a b. tame dl (m a b)) \<Longrightarrow> tame dl (case p of (a, b) \<Rightarrow> m a b)"
  by (cases p) simp

lemma tame_option [tame_intros]:
  "tame dl m \<Longrightarrow> (\<And>a. tame dl (n a)) \<Longrightarrow> tame dl (case x of None \<Rightarrow> m | Some a \<Rightarrow> n a)"
  by (cases x) simp_all

lemma tame_pure: "(\<And>s x t. m s = Inr (x, t) \<Longrightarrow> world t = world s) \<Longrightarrow> tame dl m"
  by (simp add: tame_def)

lemma tame_basic [tame_intros]:
  "tame dl (emit e)" "tame dl (printf p)" "tame dl (report E p)" "tame dl (local_array E n)"
  "tame dl (load q)" "tame dl (store q b)" "tame dl (free q)"
  by (auto intro!: tame_pure simp: emit_def printf_def report_def local_array_def load_def store_def
      free_def run_simps split: option.splits sum.splits)

lemma tame_strings [tame_intros]:
  "tame dl (cstr_at b k)" "tame dl (poke b i c)" "tame dl (read_bytes b n)" "tame dl (write_at b k x)"
  "tame dl (snprintf_at b k n x)"
  by (auto intro!: tame_pure simp: cstr_at_def poke_def read_bytes_def write_at_def snprintf_at_def
      run_simps split: if_splits)

lemma tame_ask: "keeps dl f \<Longrightarrow> tame dl (ask f)"
  by (auto simp: tame_def ask_def keeps_def split: prod.splits)

lemma tame_block [tame_intros]:
  "(\<And>h. tame dl (m h)) \<Longrightarrow> tame dl (case b of BSock h \<Rightarrow> m h | _ \<Rightarrow> fail f)"
  "(\<And>e. tame dl (n e)) \<Longrightarrow> tame dl (case b of BEnv e \<Rightarrow> n e | _ \<Rightarrow> fail f)"
  "(\<And>d. tame dl (l d)) \<Longrightarrow> tame dl (case b of BBytes d \<Rightarrow> l d | _ \<Rightarrow> fail f)"
  by (cases b; simp add: tame_fail)+

lemma tame_loads [tame_intros]:
  "tame dl (load_sock q)" "tame dl (load_env q)" "tame dl (load_bytes q)"
  unfolding load_sock_def load_env_def load_bytes_def by (intro tame_intros)+

lemma tame_calls [tame_intros]:
  assumes "steady E dl"
  shows "tame dl (malloc E n)" "tame dl (z_send E h d fl)" "tame dl (z_recv E h buf n fl)"
    "tame dl (z_setsockopt E h opt v)" "tame dl (pb_unpack E d)" "tame dl (pb_pack E e q n)"
    "tame dl (alloc b)" "tame dl (ask (x_time E))" "tame dl (ask (x_fgets E n))"
    "tame dl (z_close E h)"
proof -
  show a: "tame dl (alloc b)" for b by (auto intro!: tame_pure simp: alloc_def)
  note asks = steadyD [OF assms, THEN tame_ask]
  show "tame dl (ask (x_time E))" "tame dl (ask (x_fgets E n))" by (rule asks)+
  show "tame dl (z_close E h)" unfolding z_close_def by (intro tame_intros asks)
  show "tame dl (malloc E n)" "tame dl (z_send E h d fl)" "tame dl (z_recv E h buf n fl)"
    "tame dl (z_setsockopt E h opt v)" "tame dl (pb_unpack E d)" "tame dl (pb_pack E e q n)"
    unfolding malloc_def z_send_def z_recv_def z_setsockopt_def pb_unpack_def pb_pack_def
    by (intro tame_intros asks a)+
qed

lemma tame_wrappers [tame_intros]:
  assumes "steady E dl"
  shows "tame dl (socket_send E k q buf n fl)" "tame dl (socket_recv E k q buf n fl)"
    "tame dl (socket_sub_subscribe E q topic)" "tame dl (socket_sub_unsubscribe E q topic)"
    "tame dl (log_app E q msg)" "tame dl (log_error E q msg)" "tame dl (log_app_print E msg)"
    "tame dl (socket_destroy E v)" "tame dl (socket_get_raw q)"
proof -
  show s: "tame dl (socket_send E k q buf n fl)" for k q buf n fl
    unfolding socket_send_def by (intro tame_intros assms)
  show l: "tame dl (log_app E q msg)" for q msg
    unfolding log_app_def by (intro tame_intros s)
  show "tame dl (socket_recv E k q buf n fl)" "tame dl (socket_sub_subscribe E q topic)"
    "tame dl (socket_sub_unsubscribe E q topic)" "tame dl (log_error E q msg)" "tame dl (log_app_print E msg)"
    "tame dl (socket_destroy E v)" "tame dl (socket_get_raw q)"
    unfolding socket_recv_def socket_sub_subscribe_def socket_sub_unsubscribe_def log_error_def log_app_print_def
      socket_destroy_def socket_get_raw_def
    by (intro tame_intros assms l)+
qed

lemma tame_wp:
  assumes "tame dl m" "wp m Q F s"
  shows "wp m (\<lambda>x t. Q x t \<and> dl (world t) \<le> dl (world s)) F s"
  using assms by (auto simp: tame_def wp_def split: sum.splits)

text \<open>
  The environment winds down: as long as the measure lasts, each poll uses some of it up, and
  when it is used up the poll fails or the shutdown message is there to be read.
\<close>

definition winds_down :: "'w ext \<Rightarrow> pollitem list \<Rightarrow> int \<Rightarrow> nat \<Rightarrow> ('w \<Rightarrow> nat) \<Rightarrow> bool" where
  "winds_down E items timeout hs dl \<longleftrightarrow>
     (\<forall>w rc rv w'. x_poll E items timeout w = ((rc, rv), w') \<longrightarrow>
        dl w' < dl w \<or> (rc < 0 \<and> \<not> x_eintr E w') \<or>
        (0 \<le> rc \<and> readable rv 0 \<and>
          (\<exists>n d w''. x_recv E hs 63 0 w' = ((n, d), w'') \<and> 0 < n \<and> cs d = CHAT_MESSAGE_KILL_CONTROLLER)))"

lemma wp_tameI:
  assumes "tame dl m" "\<And>x t. dl (world t) \<le> dl (world s) \<Longrightarrow> Q x t"
  shows "wp m Q (\<lambda>_. True) s"
  using assms by (auto simp: tame_def wp_def split: sum.split)

lemma wp_faults: "wp m Q (\<lambda>_. True) s \<Longrightarrow> wp m Q' F s \<Longrightarrow> wp m Q F s"
  by (auto simp: wp_def split: sum.splits prod.splits)

text \<open>The sample environment winds down with its script of polls.\<close>

lemma sim_steady [simp]: "steady sim_short (\<lambda>w. length (polls w))"
  by (auto simp: steady_def keeps_def sim_ext_simps split: list.splits)

lemma sim_winds_down [simp]: "winds_down sim_short items tm hs (\<lambda>w. length (polls w))"
  by (auto simp: winds_down_def split: list.splits)

text \<open>
  The loops of the threads have the same shape: after some logging they poll, and leave on a
  poll error or when the shutdown message is read. So they share the argument that they end.
\<close>

lemma poll_variant:
  fixes t :: "'w st"
  assumes t: "seen lg H tr io t" and n: "dl (world t) \<le> n"
    and wd: "winds_down E items tm hs dl"
    and tame: "\<And>x. tame dl (K x)"
    and error: "\<And>rc rv u. rc < 0 \<Longrightarrow> \<not> x_eintr E (world u) \<Longrightarrow> wp (K (rc, rv)) (\<lambda>again _. \<not> again) (\<lambda>_. True) u"
    and kill: "\<And>rc rv m d w u. \<not> rc < 0 \<Longrightarrow> readable rv 0 \<Longrightarrow> x_recv E hs 63 0 (world u) = ((m, d), w) \<Longrightarrow> 0 < m \<Longrightarrow>
      cs d = CHAT_MESSAGE_KILL_CONTROLLER \<Longrightarrow> seen lg H tr io u \<Longrightarrow> wp (K (rc, rv)) (\<lambda>again _. \<not> again) (\<lambda>_. True) u"
  shows "wp (z_poll E items tm) (\<lambda>x. wp (K x) (\<lambda>again v. again \<longrightarrow> dl (world v) < n) (\<lambda>_. True)) (\<lambda>_. True) t"
proof -
  obtain rc rv w where p: "x_poll E items tm (world t) = ((rc, rv), w)"
    by (metis surj_pair)
  let ?u = "t\<lparr>world := w, trace := trace t @ [ZPoll rc rv]\<rparr>"
  have u: "seen lg H tr io ?u" by (rule seen_quiet [OF t, where es = "[ZPoll rc rv]"]) simp_all
  consider (less) "dl w < dl (world t)" | (error) "rc < 0" "\<not> x_eintr E w"
    | (kill) m d w'' where "\<not> rc < 0" "readable rv 0" "x_recv E hs 63 0 w = ((m, d), w'')" "0 < m"
      "cs d = CHAT_MESSAGE_KILL_CONTROLLER"
    using wd p unfolding winds_down_def not_less [symmetric] by blast
  then have "wp (K (rc, rv)) (\<lambda>again v. again \<longrightarrow> dl (world v) < n) (\<lambda>_. True) ?u"
  proof cases
    case less
    then show ?thesis by (intro wp_tameI [OF tame]) (use n in simp)
  next
    case error
    then show ?thesis by (intro wp_then [OF assms(5)]) auto
  next
    case kill
    then show ?thesis by (intro wp_then [OF assms(6) [OF kill(1,2) _ kill(4,5) u]]) auto
  qed
  then show ?thesis by (simp add: wp_z_poll p)
qed

end
