(* ===== verification/Controller_Session.thy ===== *)
theory Controller_Session
  imports Controller_Commands Progress
begin

text \<open>
  The controller thread around its commands: the dispatcher, the shutdown channel, the
  heartbeat, the main loop with its invariant and its termination, login and logout.
\<close>

section \<open>The three events of the loop\<close>

lemma handle_shutdown_message_ok:
  assumes "recv_law E" "sock_in H p hs" "sock_in H l lg" "hs \<noteq> lg" "seen lg H tr io s"
  shows "wp (handle_shutdown_message E p l)
    (\<lambda>r t. \<exists>n d w. x_recv E hs 63 0 (world s) = ((n, d), w) \<and>
       seen lg H tr (io(hs := io hs @ [ZRecv hs n d])) t \<and>
       r = (if 0 < n \<and> cs d = CHAT_MESSAGE_KILL_CONTROLLER then -1 else OK_ZMQ)) F s"
  unfolding handle_shutdown_message_def
  by (rule seen_shutdown [OF assms(1,2,4,5)]) (rule seen_log [OF _ assms(3)])

lemma send_ping_message_ok:
  fixes E :: "'w ext"
  assumes "laws E" "ctl_at H c lg hs hr hc hu" "seen lg H tr io s"
    and oob: "\<not> fits E 4096 \<Longrightarrow> F OutOfBounds"
    and nomem: "\<not> malloc_law E \<Longrightarrow> F NullPointer"
  shows "wp (send_ping_message E (c_req c) user (c_logs c))
    (\<lambda>r t. \<exists>now rq res. exchange E hr \<lparr>message_id = ''heartbeat-ping'', payload = HEARTBEAT
         \<lparr>heartbeat_username = user, heartbeat_timestamp = word_of_int now * 1000\<rparr>\<rparr> rq res \<and>
       seen lg H tr (io(hr := io hr @ rq)) t) F s"
proof -
  note S = ctl_atD [OF assms(2)]
  show ?thesis
    unfolding send_ping_message_def wp_seq
  proof (rule seen_ask [OF assms(3)], erule seen_log [OF _ S(1)],
      rule send_and_recv_env_ok [OF _ assms(1) S(3,1,7)], assumption, rule oob, assumption, goal_cases)
    case (1 now u t rq v)
    then show ?case
      by (simp add: wp_seq wp_ret) (erule seen_log_error [OF _ S(1)], blast)
  next
    case (2 now u t rq a e v)
    have l: "sock_in (H(a \<mapsto> BEnv e)) (c_logs c) lg" using S 2(3) by simp
    show ?case
      apply (simp only: option.simps not_False_eq_True if_True wp_seq wp_ret)
      apply (rule seen_log [OF 2(4) l])
      apply (erule seen_free, rule fun_upd_same)
      using 2(2,3) by auto
  qed (rule nomem)
qed

text \<open>What one command of the UI leads to: the message is received, and then one of five cases.\<close>

definition ui_served where
  "ui_served E lg H tr io hr hc hu r t \<longleftrightarrow>
     (\<exists>n d. let io1 = io(hu := io hu @ [ZRecv hu n d]) in
       (n \<le> 0 \<and> r = ERROR_ZMQ_GENERAL \<and> seen lg H tr io1 t) \<or>
       (0 < n \<and> r = OK_ZMQ_QUIT \<and> seen lg H tr io1 t) \<or>
       (0 < n \<and> served E lg H tr io1 hr hc hu r t) \<or>
       (0 < n \<and> seen lg H tr (io1(hu := io1 hu @ [ZSend hu ''Nieznana komenda.'' 0 r])) t))"

lemma handle_message_ui_ok:
  fixes E :: "'w ext"
  assumes "laws E" "ctl_at H c lg hs hr hc hu" "seen lg H tr io s"
  shows "wp (handle_message_ui E (c_req c) (c_receiver c) (c_ui c) (c_username c) (c_logs c))
    (ui_served E lg H tr io hr hc hu) (ctl_fault E) s"
proof -
  note S = ctl_atD [OF assms(2)]
  have rl: "recv_law E" using assms(1) by (simp add: laws_def)
  show ?thesis
    unfolding handle_message_ui_def wp_seq
  proof (rule wp_local_arrayI, rule seen_recv [OF assms(3) S(5,9) rl], goal_cases)
    case (1 b)
    then show ?case by simp
  next
    case (2 b t w)
    then show ?case by (auto simp: wp_ret ui_served_def Let_def intro!: exI [of _ "-1"] exI [of _ "[]"])
  next
    case (3 b m t w)
    let ?io = "io(hu := io hu @ [ZRecv hu (int (length m)) (take 511 m)])"
    have step: "ui_served E lg H tr io hr hc hu r t" if "0 < length m"
      "r = OK_ZMQ_QUIT \<and> seen lg H tr ?io t \<or> served E lg H tr ?io hr hc hu r t \<or>
       seen lg H tr (?io(hu := ?io hu @ [ZSend hu ''Nieznana komenda.'' 0 r])) t" for r and t :: "'w st"
      unfolding ui_served_def Let_def
      by (intro exI [of _ "int (length m)"] exI [of _ "take 511 m"]) (use that in auto)
    show ?case
    proof (cases "m = []")
      case True
      then show ?thesis using 3(3) by (auto simp: wp_ret ui_served_def Let_def intro!: exI [of _ 0] exI [of _ "[]"])
    next
      case False
      then have pos: "(int (length m) \<le> 0) = False" and "0 < length m" by simp_all
      note done1 = step [OF this(2)]
      note serve = wp_then [OF _ done1 [OF disjI2, OF disjI1]]
      show ?thesis
        apply (simp only: case_prod_conv pos if_False wp_seq)
        apply (rule wp_pokeI, rule seen_cstr)
          apply (intro wp_ifI)
                apply (simp only: wp_seq wp_ret)
                apply (rule seen_log [OF 3(3) S(1)], rule done1, simp)
               apply (rule serve, rule rooms.serves [OF assms(1,2) 3(3)], assumption)
              apply (rule serve, rule join.serves [OF assms(1,2) 3(3)], assumption)
             apply (rule serve, rule leave.serves [OF assms(1,2) 3(3)], assumption)
            apply (rule serve, rule room_message.serves [OF assms(1,2) 3(3)], assumption)
           apply (rule serve, rule direct_message.serves [OF assms(1,2) 3(3)], assumption)
          apply (rule seen_send_text [OF 3(3) S(5,9)], simp, rule done1, simp)
         apply simp_all
        done
    qed
  qed
qed

section \<open>The main loop\<close>

text \<open>
  The conversation on the REQ socket: a request that could not be sent, or a request that was
  sent followed at once by the receive of its reply. The conversation with the UI: a command
  followed by its answer.
\<close>

inductive req_dialogue :: "nat \<Rightarrow> event list \<Rightarrow> bool" for h where
  req_idle: "req_dialogue h []"
| req_unsent: "req_dialogue h es \<Longrightarrow> rc < 0 \<Longrightarrow> req_dialogue h (es @ [ZSend h d 0 rc])"
| req_reply: "req_dialogue h es \<Longrightarrow> 0 \<le> rc \<Longrightarrow> req_dialogue h (es @ [ZSend h d 0 rc, ZRecv h n b])"

inductive ui_dialogue :: "nat \<Rightarrow> event list \<Rightarrow> bool" for h where
  ui_idle: "ui_dialogue h []"
| ui_command: "ui_dialogue h es \<Longrightarrow> 0 < n \<Longrightarrow> ui_dialogue h (es @ [ZRecv h n b, ZSend h d 0 rc])"

text \<open>The conversation at the end of the loop: the last command may be unanswered.\<close>

definition ui_left :: "nat \<Rightarrow> event list \<Rightarrow> bool" where
  "ui_left h es \<longleftrightarrow> ui_dialogue h es \<or> (\<exists>es' n b. es = es' @ [ZRecv h n b] \<and> ui_dialogue h es')"

lemma req_dialogue_exchange: "req_dialogue h es \<Longrightarrow> exchange E h env es' res \<Longrightarrow> req_dialogue h (es @ es')"
  by (auto simp: exchange_def not_less intro: req_dialogue.intros split: if_splits)

definition ctl_io :: "nat \<Rightarrow> nat \<Rightarrow> nat \<Rightarrow> (nat \<Rightarrow> event list) \<Rightarrow> bool" where
  "ctl_io hr hc hu io \<longleftrightarrow> req_dialogue hr (io hr) \<and> only_sends hc (io hc) \<and> ui_dialogue hu (io hu)"

definition ctl_left :: "nat \<Rightarrow> nat \<Rightarrow> nat \<Rightarrow> (nat \<Rightarrow> event list) \<Rightarrow> bool" where
  "ctl_left hr hc hu io \<longleftrightarrow> req_dialogue hr (io hr) \<and> only_sends hc (io hc) \<and> ui_left hu (io hu)"

definition ctl_inv where
  "ctl_inv E c H tr lg hs hr hc hu s \<longleftrightarrow> laws E \<and> ctl_at H c lg hs hr hc hu \<and>
     (\<exists>io. seen lg H tr io s \<and> ctl_io hr hc hu io)"

definition ctl_post where
  "ctl_post H tr lg hr hc hu s \<longleftrightarrow> (\<exists>io. seen lg H tr io s \<and> ctl_left hr hc hu io)"

lemma ctl_io_left: "ctl_io hr hc hu io \<Longrightarrow> ctl_left hr hc hu io"
  by (simp add: ctl_io_def ctl_left_def ui_left_def)

lemma controller_step_ui:
  fixes E :: "'w ext"
  assumes "laws E" "ctl_at H c lg hs hr hc hu" "seen lg H tr io s" "ctl_io hr hc hu io"
  shows "wp (bnd (handle_message_ui E (c_req c) (c_receiver c) (c_ui c) (c_username c) (c_logs c)) (\<lambda>result.
      if result < 0 then ret False else if result = OK_ZMQ_QUIT then ret False else ret True))
    (\<lambda>again t. if again then ctl_inv E c H tr lg hs hr hc hu t else ctl_post H tr lg hr hc hu t)
    (ctl_fault E) s"
  unfolding wp_seq
proof (rule wp_then [OF handle_message_ui_ok [OF assms(1-3)]])
  fix r t
  assume u: "ui_served E lg H tr io hr hc hu r t"
  note S = ctl_atD [OF assms(2)]
  have post: "ctl_post H tr lg hr hc hu t" if "seen lg H tr (io(hu := io hu @ [ZRecv hu n d])) t" for n d
    using that assms(4) S unfolding ctl_post_def ctl_left_def ctl_io_def ui_left_def
    by (intro exI [of _ "io(hu := io hu @ [ZRecv hu n d])"]) auto
  have both: "(if again then ctl_inv E c H tr lg hs hr hc hu t else ctl_post H tr lg hr hc hu t)"
    if "seen lg H tr io' t" "ctl_io hr hc hu io'" for again io'
    using that assms(1,2) ctl_io_left unfolding ctl_inv_def ctl_post_def by auto
  from u obtain n d where "(n \<le> 0 \<and> r = ERROR_ZMQ_GENERAL \<and> seen lg H tr (io(hu := io hu @ [ZRecv hu n d])) t) \<or>
      (0 < n \<and> r = OK_ZMQ_QUIT \<and> seen lg H tr (io(hu := io hu @ [ZRecv hu n d])) t) \<or>
      (0 < n \<and> served E lg H tr (io(hu := io hu @ [ZRecv hu n d])) hr hc hu r t) \<or>
      (0 < n \<and> seen lg H tr (io(hu := io hu @ [ZRecv hu n d, ZSend hu ''Nieznana komenda.'' 0 r])) t)"
    unfolding ui_served_def Let_def by auto
  then consider (left) "r < 0 \<or> r = OK_ZMQ_QUIT" "seen lg H tr (io(hu := io hu @ [ZRecv hu n d])) t"
    | (served) "0 < n" "served E lg H tr (io(hu := io hu @ [ZRecv hu n d])) hr hc hu r t"
    | (unknown) "0 < n" "seen lg H tr (io(hu := io hu @ [ZRecv hu n d, ZSend hu ''Nieznana komenda.'' 0 r])) t"
    by (auto simp: codes)
  then show "wp (if r < 0 then ret False else if r = OK_ZMQ_QUIT then ret False else ret True)
      (\<lambda>again t. if again then ctl_inv E c H tr lg hs hr hc hu t else ctl_post H tr lg hr hc hu t)
      (ctl_fault E) t"
  proof cases
    case left
    then show ?thesis using post by (auto simp: wp_ret)
  next
    case served
    let ?io1 = "io(hu := io hu @ [ZRecv hu n d])"
    from served(2) obtain rq ctl ui ds where t: "seen lg H tr (?io1(hr := ?io1 hr @ rq, hc := ?io1 hc @ ctl,
          hu := ?io1 hu @ ui)) t"
      and x: "rq = [] \<or> (\<exists>env res. exchange E hr env rq res)" "sent hc ds ctl"
      and a: "r = OK_ZMQ \<and> (\<exists>d. sent hu [d] ui) \<or> r = ERROR_ZMQ_REQ_SEND \<and> ctl = [] \<and> ui = []"
      unfolding served_def by blast
    have "?io1(hr := ?io1 hr @ rq, hc := ?io1 hc @ ctl, hu := ?io1 hu @ ui) =
        io(hr := io hr @ rq, hc := io hc @ ctl, hu := io hu @ ZRecv hu n d # ui)"
      using S by auto
    note t = t [unfolded this]
    let ?io = "io(hr := io hr @ rq, hc := io hc @ ctl, hu := io hu @ ZRecv hu n d # ui)"
    have req: "req_dialogue hr (?io hr)" "only_sends hc (?io hc)"
      using assms(4) x S by (auto simp: ctl_io_def intro: req_dialogue_exchange only_sends_append)
    from a show ?thesis
    proof (elim disjE conjE exE)
      fix d'
      assume r: "r = OK_ZMQ" "sent hu [d'] ui"
      then obtain rc where "ui = [ZSend hu d' 0 rc]" by (auto simp: sent_def length_Suc_conv)
      with req assms(4) served(1) have "ctl_io hr hc hu ?io"
        by (auto simp: ctl_io_def intro: ui_dialogue.intros)
      with t r show ?thesis by (simp add: wp_ret codes both [where again = True, simplified])
    next
      assume r: "r = ERROR_ZMQ_REQ_SEND" "ctl = []" "ui = []"
      have "ui_left hu (?io hu)" using r assms(4) by (auto simp: ctl_io_def ui_left_def)
      with req t have "ctl_post H tr lg hr hc hu t" unfolding ctl_post_def ctl_left_def by blast
      with r show ?thesis by (simp add: wp_ret codes)
    qed
  next
    case unknown
    then have "ctl_io hr hc hu (io(hu := io hu @ [ZRecv hu n d, ZSend hu ''Nieznana komenda.'' 0 r]))"
      using assms(4) S by (auto simp: ctl_io_def intro: ui_dialogue.intros)
    with unknown(2) have "ctl_inv E c H tr lg hs hr hc hu t" "ctl_post H tr lg hr hc hu t"
      using both [of _ True] both [of _ False] by simp_all
    then show ?thesis by (simp add: wp_ret)
  qed
qed

lemma controller_step_ok:
  fixes s :: "'w st"
  assumes "ctl_inv E c H tr lg hs hr hc hu s"
  shows "wp (controller_step E c)
    (\<lambda>again t. if again then ctl_inv E c H tr lg hs hr hc hu t else ctl_post H tr lg hr hc hu t)
    (ctl_fault E) s"
proof -
  from assms obtain io where E: "laws E" and c: "ctl_at H c lg hs hr hc hu"
    and s: "seen lg H tr io s" and io: "ctl_io hr hc hu io"
    by (auto simp: ctl_inv_def)
  note S = ctl_atD [OF c]
  have rl: "recv_law E" using E by (simp add: laws_def)
  have post: "ctl_post H tr lg hr hc hu t" if "seen lg H tr io' t" "ctl_io hr hc hu io'" for t :: "'w st" and io'
    using that ctl_io_left by (auto simp: ctl_post_def)
  have inv: "ctl_inv E c H tr lg hs hr hc hu t" if "seen lg H tr io' t" "ctl_io hr hc hu io'" for t :: "'w st" and io'
    using that E c by (auto simp: ctl_inv_def)
  have rest: "wp (if stop < 0 then ret False
       else if readable revents 1 then
         bnd (handle_message_ui E (c_req c) (c_receiver c) (c_ui c) (c_username c) (c_logs c)) (\<lambda>result.
         if result < 0 then ret False else if result = OK_ZMQ_QUIT then ret False else ret True)
       else if rc = 0 then bnd (send_ping_message E (c_req c) (c_username c) (c_logs c)) (\<lambda>_. ret True)
       else ret True)
    (\<lambda>again t. if again then ctl_inv E c H tr lg hs hr hc hu t else ctl_post H tr lg hr hc hu t)
    (ctl_fault E) t"
    if t: "seen lg H tr io' t" "ctl_io hr hc hu io'" for stop rc revents io' and t :: "'w st"
  proof (intro wp_ifI)
    show "wp (bnd (send_ping_message E (c_req c) (c_username c) (c_logs c)) (\<lambda>_. ret True))
      (\<lambda>again t. if again then ctl_inv E c H tr lg hs hr hc hu t else ctl_post H tr lg hr hc hu t)
      (ctl_fault E) t"
      unfolding wp_seq wp_ret if_True
    proof (rule wp_then [OF send_ping_message_ok [OF E c t(1)]], simp, simp, elim exE conjE)
      fix r now rq res and u :: "'w st"
      assume "exchange E hr \<lparr>message_id = ''heartbeat-ping'', payload = HEARTBEAT
         \<lparr>heartbeat_username = c_username c, heartbeat_timestamp = word_of_int now * 1000\<rparr>\<rparr> rq res"
        and u: "seen lg H tr (io'(hr := io' hr @ rq)) u"
      then have "ctl_io hr hc hu (io'(hr := io' hr @ rq))"
        using t(2) S by (auto simp: ctl_io_def intro: req_dialogue_exchange)
      with u show "ctl_inv E c H tr lg hs hr hc hu u" by (rule inv)
    qed
  qed (use controller_step_ui [OF E c t] t in \<open>auto simp: wp_ret intro: inv post\<close>)
  have shut: "ctl_io hr hc hu (io(hs := x))" for x using io S by (simp add: ctl_io_def)
  have kill: "wp (handle_shutdown_message E (c_shutdown c) (c_logs c))
    (\<lambda>r t. \<exists>io'. seen lg H tr io' t \<and> ctl_io hr hc hu io') (ctl_fault E) t"
    if "seen lg H tr io t" for t :: "'w st"
    by (rule wp_then [OF handle_shutdown_message_ok [OF rl S(2,1) S(6) [symmetric] that]]) (use shut in blast)
  show ?thesis
    unfolding controller_step_def wp_seq
  proof (rule seen_log [OF s S(1)], erule seen_poll, unfold case_prod_conv, intro wp_ifI, unfold wp_seq, goal_cases)
    case (1 t rc rv u)
    then show ?case
      by (auto simp: wp_seq wp_ret wp_gets intro!: inv [OF _ io] seen_log [OF _ S(1)] post [OF _ io])
  next
    case (2 t rc rv u)
    then have "wp (if readable rv 0 then handle_shutdown_message E (c_shutdown c) (c_logs c) else ret OK_ZMQ)
      (\<lambda>r t. \<exists>io'. seen lg H tr io' t \<and> ctl_io hr hc hu io') (ctl_fault E) u"
      using kill io by (auto simp: wp_ret)
    then show ?case by (rule wp_then) (elim exE conjE, rule rest)
  qed
qed

interpretation ctl: loop_body "controller_step E c" "ctl_inv E c H tr lg hs hr hc hu"
  "ctl_post H tr lg hr hc hu" "ctl_fault E"
  for E :: "'w ext" and c H tr lg hs hr hc hu
  by unfold_locales (rule controller_step_ok)

section \<open>The loop ends\<close>

lemma tame_handlers:
  assumes "steady E dl"
  shows "tame dl (send_and_recv_env E p env l)" "tame dl (send_text E p lit n)"
    "tame dl (handle_shutdown_message E p l)"
proof -
  note steady = tame_calls [OF assms] tame_wrappers [OF assms]
  show "tame dl (send_and_recv_env E p env l)" "tame dl (send_text E p lit n)"
    "tame dl (handle_shutdown_message E p l)"
    unfolding send_and_recv_env_def send_text_def handle_shutdown_message_def
    by (intro tame_intros steady)+
qed

lemma tame_case_payload [tame_intros]:
  "(\<And>a. tame dl (f a)) \<Longrightarrow> tame dl g \<Longrightarrow> tame dl (case p of ACK a \<Rightarrow> f a | _ \<Rightarrow> g)"
  "(\<And>a. tame dl (f' a)) \<Longrightarrow> tame dl g \<Longrightarrow> tame dl (case p of LIST_ROOMS_RESP a \<Rightarrow> f' a | _ \<Rightarrow> g)"
  by (cases p; simp)+

lemma tame_room_lines [tame_intros]: "tame dl (room_lines rs b i)"
proof (induction rs arbitrary: b i)
  case Nil
  then show ?case by (simp add: tame_ret)
next
  case (Cons r rs)
  then show ?case unfolding room_lines.simps by (intro tame_intros)
qed

lemma tame_commands:
  assumes "steady E dl"
  shows "tame dl (handle_room_list E p q l)" "tame dl (handle_room_join E p q r line u l)"
    "tame dl (handle_room_leave E p q r line u l)" "tame dl (handle_message_room E p q line u l)"
    "tame dl (handle_message_direct E p q line u l)" "tame dl (send_ping_message E p u l)"
  unfolding handle_room_list_def handle_room_join_def handle_room_leave_def handle_message_room_def
    handle_message_direct_def send_ping_message_def
  by (intro tame_intros tame_calls [OF assms] tame_wrappers [OF assms] tame_handlers [OF assms])+

lemma tame_handle_message_ui:
  assumes "steady E dl"
  shows "tame dl (handle_message_ui E p q r u l)"
  unfolding handle_message_ui_def
  by (intro tame_intros tame_calls [OF assms] tame_wrappers [OF assms] tame_handlers [OF assms] tame_commands [OF assms])

lemma controller_step_variant:
  fixes s :: "'w st"
  assumes "ctl_inv E c H tr lg hs hr hc hu s" "steady E dl" "winds_down E (c_items c) 2000 hs dl"
  shows "wp (controller_step E c) (\<lambda>again t. again \<longrightarrow> dl (world t) < dl (world s)) (ctl_fault E) s"
proof (rule wp_faults [OF _ controller_step_ok [OF assms(1)]])
  from assms(1) obtain io where E: "laws E" and c: "ctl_at H c lg hs hr hc hu" and s: "seen lg H tr io s"
    by (auto simp: ctl_inv_def)
  note S = ctl_atD [OF c]
  note tame = tame_wrappers [OF assms(2)] tame_handlers [OF assms(2)] tame_commands [OF assms(2)]
    tame_handle_message_ui [OF assms(2)]
  have "wp (log_app E (c_logs c) msg) (\<lambda>_. seen lg H tr io) (\<lambda>_. True) s" for msg
    by (rule seen_log [OF s S(1)])
  then have log: "wp (log_app E (c_logs c) msg) (\<lambda>_ t. seen lg H tr io t \<and> dl (world t) \<le> dl (world s)) (\<lambda>_. True) s" for msg
    by (rule tame_wp [OF tame(5)])
  show "wp (controller_step E c) (\<lambda>again t. again \<longrightarrow> dl (world t) < dl (world s)) (\<lambda>_. True) s"
    unfolding controller_step_def wp_seq
  proof (rule wp_then [OF log], elim conjE, erule (1) poll_variant [OF _ _ assms(3)], unfold case_prod_conv, goal_cases)
    case (1 t x)
    then show ?case by (intro tame_intros tame)
  next
    case (2 t rc rv u)
    then show ?case
      by (simp add: wp_seq wp_gets wp_ret) (rule wp_tameI [OF tame(5)], simp)
  next
    case (3 t rc rv m d w u)
    have rl: "recv_law E" using E by (simp add: laws_def)
    show ?case
      unfolding if_not_P [OF 3(2)] if_P [OF 3(3)] wp_seq
      by (intro wp_then [OF handle_shutdown_message_ok [OF rl S(2,1) S(6) [symmetric] 3(7)]])
        (use 3(4-6) in \<open>auto simp: wp_ret codes\<close>)
  qed
qed

interpretation ctl_ends: loop_variant "controller_step E c"
  "\<lambda>s. ctl_inv E c H tr lg hs hr hc hu s \<and> steady E dl \<and> winds_down E (c_items c) 2000 hs dl"
  "ctl_post H tr lg hr hc hu" "ctl_fault E" "\<lambda>s. dl (world s)"
  for E :: "'w ext" and c H tr lg hs hr hc hu dl
proof unfold_locales
  fix s :: "'w st"
  assume s: "ctl_inv E c H tr lg hs hr hc hu s \<and> steady E dl \<and> winds_down E (c_items c) 2000 hs dl"
  then show "wp (controller_step E c) (\<lambda>again t. if again
      then ctl_inv E c H tr lg hs hr hc hu t \<and> steady E dl \<and> winds_down E (c_items c) 2000 hs dl
      else ctl_post H tr lg hr hc hu t) (ctl_fault E) s"
    by (intro wp_then [OF controller_step_ok]) (auto split: if_splits)
  show "wp (controller_step E c) (\<lambda>again t. again \<longrightarrow> dl (world t) < dl (world s)) (ctl_fault E) s"
    using s by (intro controller_step_variant) auto
qed

end
