(* ===== verification/Dispatch.thy ===== *)
theory Dispatch
  imports Controller_Session
begin

text \<open>
  What the lines a user types mean: an abstract syntax of commands, the line that stands for a
  command and the request it makes of the server; \<open>handle_message_ui\<close>, which works on the
  bytes of the line, makes exactly that request.
\<close>

section \<open>Commands\<close>

datatype ui_command = Quit | Rooms | Join string | Leave string | Say string string | Whisper string string

fun command_text :: "ui_command \<Rightarrow> string" where
  "command_text Quit = ''/quit''"
| "command_text Rooms = ''/rooms''"
| "command_text (Join room) = ''/join '' @ room"
| "command_text (Leave room) = ''/leave '' @ room"
| "command_text (Say room content) = ''/msg '' @ room @ '' '' @ content"
| "command_text (Whisper target content) = ''/dm '' @ target @ '' '' @ content"

definition word :: "string \<Rightarrow> bool" where
  "word w \<longleftrightarrow> w \<noteq> [] \<and> CHR '' '' \<notin> set w"

fun command_ok :: "ui_command \<Rightarrow> bool" where
  "command_ok (Say room content) \<longleftrightarrow> word room \<and> content \<noteq> []"
| "command_ok (Whisper target content) \<longleftrightarrow> word target \<and> content \<noteq> []"
| "command_ok _ \<longleftrightarrow> True"

fun command_request :: "string \<Rightarrow> ui_command \<Rightarrow> envelope option" where
  "command_request user Quit = None"
| "command_request user Rooms = Some \<lparr>message_id = ''cmd-rooms'', payload = LIST_ROOMS_REQ LIST_ROOMS_REQUEST_INIT\<rparr>"
| "command_request user (Join room) = Some \<lparr>message_id = ''cmd-join'', payload = JOIN_ROOM_REQ
     \<lparr>join_req_room_name = room, join_req_username = user\<rparr>\<rparr>"
| "command_request user (Leave room) = Some \<lparr>message_id = ''cmd-leave'', payload = LEAVE_ROOM_REQ
     \<lparr>leave_req_room_name = room, leave_req_username = user\<rparr>\<rparr>"
| "command_request user (Say room content) = Some (room_request user room content)"
| "command_request user (Whisper target content) = Some (direct_request user target content)"

text \<open>The commands that are left without an answer when the exchange with the server fails.\<close>

fun gives_up :: "ui_command \<Rightarrow> bool" where
  "gives_up (Say _ _) = False"
| "gives_up (Whisper _ _) = False"
| "gives_up _ = True"

fun_cases command_requestE: "command_request user cmd = None"

section \<open>The dispatcher\<close>

text \<open>What a handler has done for a command, and what that means for the whole call.\<close>

definition obeyed where
  "obeyed E lg H tr io hr hc hu ab request r t \<longleftrightarrow>
     (case request of None \<Rightarrow> r = OK_ZMQ_QUIT \<and> seen lg H tr io t
      | Some env \<Rightarrow> asked E lg H tr io hr hc hu ab env r t)"

lemma obeyed_Some: "obeyed E lg H tr io hr hc hu ab (Some env) = asked E lg H tr io hr hc hu ab env"
  by (intro ext) (simp add: obeyed_def)

text \<open>The chain of comparisons of \<open>handle_message_ui\<close>, on the bytes of the receive buffer.\<close>

definition dispatch :: "'w ext \<Rightarrow> ctl_env \<Rightarrow> string \<Rightarrow> ('w st, int) prog" where
  "dispatch E c buf = bnd (cstr_at buf 0) (\<lambda>cmd.
     if cmd = CHAT_COMMAND_QUIT then
       bnd (log_app E (c_logs c) (''[ZMQClient][controller thread] receive '' @ [CHR 0x27] @ ''quit'' @ [CHR 0x27] @ '' command'' @ [CHR 0x0A])) (\<lambda>_.
       ret OK_ZMQ_QUIT)
     else if cmd = CHAT_COMMAND_ROOMS then handle_room_list E (c_req c) (c_ui c) (c_logs c)
     else if strncmp_eq cmd CHAT_COMMAND_JOIN 5 then
       handle_room_join E (c_req c) (c_receiver c) (c_ui c) buf (c_username c) (c_logs c)
     else if strncmp_eq cmd CHAT_COMMAND_LEAVE 6 then
       handle_room_leave E (c_req c) (c_receiver c) (c_ui c) buf (c_username c) (c_logs c)
     else if strncmp_eq cmd CHAT_COMMAND_MSG 4 then
       handle_message_room E (c_req c) (c_ui c) buf (c_username c) (c_logs c)
     else if strncmp_eq cmd CHAT_COMMAND_DM 3 then
       handle_message_direct E (c_req c) (c_ui c) buf (c_username c) (c_logs c)
     else send_text E (c_ui c) ''Nieznana komenda.'' 17)"

lemma dispatch_ok:
  fixes E :: "'w ext"
  assumes E: "laws E" "fits E 4096" and c: "ctl_at H c lg hs hr hc hu" and s: "seen lg H tr io s"
    and cmd: "command_ok cmd" "nul_free (command_text cmd)" "buf = command_text cmd @ NUL # rest"
    and fit: "\<And>e d w w'. cmd = Rooms \<Longrightarrow> x_unpack E d w = (Some e, w') \<Longrightarrow> list_fits e"
  shows "wp (dispatch E c buf) (obeyed E lg H tr io hr hc hu (gives_up cmd) (command_request (c_username c) cmd)) (\<lambda>f. f = NullPointer \<and> \<not> malloc_law E) s"
proof -
  note S = ctl_atD [OF c]
  have cs: "has_cstr buf 0" "cs buf = command_text cmd"
    using cmd by (simp_all add: has_cstr_def cs_id)
  have d: "wp (dispatch E c buf) Q (\<lambda>f. f = NullPointer \<and> \<not> malloc_law E) s =
      wp (if command_text cmd = CHAT_COMMAND_QUIT then
       bnd (log_app E (c_logs c) (''[ZMQClient][controller thread] receive '' @ [CHR 0x27] @ ''quit'' @ [CHR 0x27] @ '' command'' @ [CHR 0x0A])) (\<lambda>_.
       ret OK_ZMQ_QUIT)
     else if command_text cmd = CHAT_COMMAND_ROOMS then handle_room_list E (c_req c) (c_ui c) (c_logs c)
     else if strncmp_eq (command_text cmd) CHAT_COMMAND_JOIN 5 then
       handle_room_join E (c_req c) (c_receiver c) (c_ui c) buf (c_username c) (c_logs c)
     else if strncmp_eq (command_text cmd) CHAT_COMMAND_LEAVE 6 then
       handle_room_leave E (c_req c) (c_receiver c) (c_ui c) buf (c_username c) (c_logs c)
     else if strncmp_eq (command_text cmd) CHAT_COMMAND_MSG 4 then
       handle_message_room E (c_req c) (c_ui c) buf (c_username c) (c_logs c)
     else if strncmp_eq (command_text cmd) CHAT_COMMAND_DM 3 then
       handle_message_direct E (c_req c) (c_ui c) buf (c_username c) (c_logs c)
     else send_text E (c_ui c) ''Nieznana komenda.'' 17) Q (\<lambda>f. f = NullPointer \<and> \<not> malloc_law E) s" for Q
    unfolding dispatch_def wp_bnd wp_cstr_whole [OF cs(1)] cs(2) ..
  note names = CHAT_COMMAND_QUIT_def CHAT_COMMAND_ROOMS_def CHAT_COMMAND_JOIN_def CHAT_COMMAND_LEAVE_def
    CHAT_COMMAND_MSG_def CHAT_COMMAND_DM_def strncmp_eq_def
  have nul: "nul_free room" if "nul_free (x @ room)" for x room using that by simp
  note arg = cs_after_command [of buf]
  show ?thesis
  proof (cases cmd)
    case Quit
    then show ?thesis
      unfolding d by (simp add: names wp_seq wp_ret obeyed_def) (rule seen_log [OF s S(1)])
  next
    case Rooms
    have "wp (handle_room_list E (c_req c) (c_ui c) (c_logs c)) (rooms_listed E lg H tr io hr hu) (\<lambda>f. f = NullPointer \<and> \<not> malloc_law E) s"
      by (rule handle_room_list_ok [OF E(1) c s]) (use E(2) fit Rooms in auto)
    then show ?thesis
      unfolding d by (simp add: Rooms names) (erule wp_then, simp add: obeyed_def asked_list [OF c])
  next
    case (Join room)
    have "cs (drop 6 buf) = room" "has_cstr buf 6"
      using arg [of "''/join ''" room rest 6] cmd(2,3) Join by simp_all
    then have "wp (handle_room_join E (c_req c) (c_receiver c) (c_ui c) buf (c_username c) (c_logs c))
      (asked E lg H tr io hr hc hu True \<lparr>message_id = ''cmd-join'', payload = JOIN_ROOM_REQ
         \<lparr>join_req_room_name = room, join_req_username = c_username c\<rparr>\<rparr>) (\<lambda>f. f = NullPointer \<and> \<not> malloc_law E) s"
      using E(2) by (intro wp_then [OF handle_room_join_ok [OF E(1) c s] asked_change [OF c]]) auto
    then show ?thesis unfolding d by (simp add: Join names obeyed_Some)
  next
    case (Leave room)
    have "cs (drop 7 buf) = room" "has_cstr buf 7"
      using arg [of "''/leave ''" room rest 7] cmd(2,3) Leave by simp_all
    then have "wp (handle_room_leave E (c_req c) (c_receiver c) (c_ui c) buf (c_username c) (c_logs c))
      (asked E lg H tr io hr hc hu True \<lparr>message_id = ''cmd-leave'', payload = LEAVE_ROOM_REQ
         \<lparr>leave_req_room_name = room, leave_req_username = c_username c\<rparr>\<rparr>) (\<lambda>f. f = NullPointer \<and> \<not> malloc_law E) s"
      using E(2) by (intro wp_then [OF handle_room_leave_ok [OF E(1) c s] asked_change [OF c]]) auto
    then show ?thesis unfolding d by (simp add: Leave names obeyed_Some)
  next
    case (Say room content)
    have l: "cs (drop 5 buf) = room @ '' '' @ content" "has_cstr buf 5"
      using arg [of "''/msg ''" "room @ '' '' @ content" rest 5] cmd(2,3) Say by simp_all
    have xy: "split_token (cs (drop 5 buf)) = (Some room, Some content)"
      using split_token_word [of room content] cmd(1) l(1) Say by (simp add: word_def)
    have "wp (handle_message_room E (c_req c) (c_ui c) buf (c_username c) (c_logs c))
      (asked E lg H tr io hr hc hu False (room_request (c_username c) room content)) (\<lambda>f. f = NullPointer \<and> \<not> malloc_law E) s"
      using E(2) l(2) by (intro wp_then [OF handle_message_room_ok [OF E(1) c s] asked_spoken [OF c _ xy]]) auto
    then show ?thesis unfolding d by (simp add: Say names obeyed_Some)
  next
    case (Whisper target content)
    have l: "cs (drop 4 buf) = target @ '' '' @ content" "has_cstr buf 4"
      using arg [of "''/dm ''" "target @ '' '' @ content" rest 4] cmd(2,3) Whisper by simp_all
    have xy: "split_token (cs (drop 4 buf)) = (Some target, Some content)"
      using split_token_word [of target content] cmd(1) l(1) Whisper by (simp add: word_def)
    have "wp (handle_message_direct E (c_req c) (c_ui c) buf (c_username c) (c_logs c))
      (asked E lg H tr io hr hc hu False (direct_request (c_username c) target content)) (\<lambda>f. f = NullPointer \<and> \<not> malloc_law E) s"
      using E(2) l(2) by (intro wp_then [OF handle_message_direct_ok [OF E(1) c s] asked_spoken [OF c _ xy]]) auto
    then show ?thesis unfolding d by (simp add: Whisper names obeyed_Some)
  qed
qed

lemma handle_message_ui_dispatch:
  "handle_message_ui E (c_req c) (c_receiver c) (c_ui c) (c_username c) (c_logs c) =
     bnd (local_array E 512) (\<lambda>cmd_buf. bnd (socket_recv E socket_pair (c_ui c) cmd_buf 511 0) (\<lambda>(bytes, cmd_buf).
     if bytes \<le> 0 then ret ERROR_ZMQ_GENERAL else bnd (poke cmd_buf bytes NUL) (dispatch E c)))"
  unfolding handle_message_ui_def dispatch_def ..

text \<open>The whole call, when the line of a command is received.\<close>

lemma handle_message_ui_obeyed:
  fixes E :: "'w ext"
  assumes E: "laws E" "fits E 4096" and c: "ctl_at H c lg hs hr hc hu" and s: "seen lg H tr io s"
    and cmd: "command_ok cmd" "nul_free (command_text cmd)" "length (command_text cmd) \<le> 511"
    and recv: "x_recv E hu 511 0 (world s) = ((int (length (command_text cmd)), command_text cmd), w)"
    and fit: "\<And>e d w w'. cmd = Rooms \<Longrightarrow> x_unpack E d w = (Some e, w') \<Longrightarrow> list_fits e"
  shows "wp (handle_message_ui E (c_req c) (c_receiver c) (c_ui c) (c_username c) (c_logs c))
    (obeyed E lg H tr (io(hu := io hu @ [ZRecv hu (int (length (command_text cmd))) (command_text cmd)])) hr hc hu
       (gives_up cmd) (command_request (c_username c) cmd)) (\<lambda>f. f = NullPointer \<and> \<not> malloc_law E) s"
proof -
  let ?m = "command_text cmd"
  note S = ctl_atD [OF c]
  have rl: "recv_law E" using E(1) by (simp add: laws_def)
  have ne: "?m \<noteq> []" by (cases cmd) simp_all
  show ?thesis
    unfolding handle_message_ui_dispatch wp_seq
  proof (rule wp_local_arrayI, rule seen_recv [OF s S(5,9) rl], goal_cases)
    case (2 b t w)
    then show ?case using recv ne by simp
  next
    case (3 b m t w)
    have m: "m = ?m" using 3(2) recv cmd(3) by auto
    have "0 < length m" using ne m by simp
    then have pos: "(int (length m) \<le> 0) = False" by simp
    have buf: "(take 511 m @ drop (min (length m) 511) b)[length m := NUL] = m @ NUL # drop (Suc (length m)) b"
      using 3(1) cmd(3) m by (intro terminated_in_place) simp_all
    have len: "length m < length (take 511 m @ drop (min (length m) 511) b)"
      using 3(1) cmd(3) m by simp
    have t: "seen lg H tr (io(hu := io hu @ [ZRecv hu (int (length ?m)) ?m])) t"
      using 3(3) m cmd(3) by simp
    have "m @ NUL # drop (Suc (length m)) b = ?m @ NUL # drop (Suc (length m)) b" using m by simp
    note this [THEN dispatch_ok [OF E c t cmd(1,2)]]
    then show ?case
      using fit by (simp only: case_prod_conv pos if_False wp_seq wp_poke nat_int buf len of_nat_0_le_iff simp_thms if_True)
  qed simp
qed

section \<open>Property\<close>

text \<open>
  C1. What the user types is what the server is asked: when \<open>handle_message_ui\<close> receives the line
  of a command (at most 511 bytes, words without blanks), it makes exactly one exchange, with
  the request that command stands for. Whenever the reply decodes, the UI is answered exactly once
  and success is reported; when there is no reply that decodes, \<open>/msg\<close> and \<open>/dm\<close> are still
  answered once, while \<open>/rooms\<close>, \<open>/join\<close> and \<open>/leave\<close> get no answer and report an error. \<open>/quit\<close>
  makes no request and no answer. Memory is as before; when replies and room lists fit into
  their buffers the only fault is the unchecked \<open>malloc\<close>.
\<close>

theorem handle_message_ui_means:
  fixes E :: "'w ext"
  assumes "laws E" "fits E 4096" "ctl_at (heap s) c lg hs hr hc hu" "heap_ok s"
    and "command_ok cmd" "nul_free (command_text cmd)" "length (command_text cmd) \<le> 511"
    and recv: "x_recv E hu 511 0 (world s) = ((int (length (command_text cmd)), command_text cmd), w)"
    and fit: "cmd = Rooms \<longrightarrow> (\<forall>e d w w'. x_unpack E d w = (Some e, w') \<longrightarrow> list_fits e)"
  shows "wp (handle_message_ui E (c_req c) (c_receiver c) (c_ui c) (c_username c) (c_logs c))
    (\<lambda>r t. heap t = heap s \<and> (\<exists>es. trace t = trace s @ es \<and>
       (case command_request (c_username c) cmd of
          None \<Rightarrow> r = OK_ZMQ_QUIT \<and> io_on hr es = [] \<and>
            io_on hu es = [ZRecv hu (int (length (command_text cmd))) (command_text cmd)]
        | Some env \<Rightarrow> \<exists>res ui. exchange E hr env (io_on hr es) res \<and>
            io_on hu es = ZRecv hu (int (length (command_text cmd))) (command_text cmd) # ui \<and>
            (if gives_up cmd \<and> res = None then r = ERROR_ZMQ_REQ_SEND \<and> ui = []
             else r = OK_ZMQ \<and> (\<exists>d. sent hu [d] ui)))))
    (\<lambda>f. f = NullPointer \<and> \<not> malloc_law E) s"
proof -
  let ?m = "command_text cmd" and ?req = "command_request (c_username c) cmd"
  note S = ctl_atD [OF assms(3)]
  have post: "heap t = heap s \<and> (\<exists>es. trace t = trace s @ es \<and>
       (case ?req of
          None \<Rightarrow> r = OK_ZMQ_QUIT \<and> io_on hr es = [] \<and> io_on hu es = [ZRecv hu (int (length ?m)) ?m]
        | Some env \<Rightarrow> \<exists>res ui. exchange E hr env (io_on hr es) res \<and>
            io_on hu es = ZRecv hu (int (length ?m)) ?m # ui \<and>
            (if gives_up cmd \<and> res = None then r = ERROR_ZMQ_REQ_SEND \<and> ui = []
             else r = OK_ZMQ \<and> (\<exists>d. sent hu [d] ui))))"
    if t: "obeyed E lg (heap s) (trace s) ((\<lambda>_. [])(hu := [ZRecv hu (int (length ?m)) ?m])) hr hc hu (gives_up cmd) ?req r t"
    for r and t :: "'w st"
  proof (cases ?req)
    case None
    with t S show ?thesis by (auto simp: obeyed_def dest!: seenD)
  next
    case (Some env)
    from t obtain rq res ctl ui ds where
        v: "seen lg (heap s) (trace s) (((\<lambda>_. [])(hu := [ZRecv hu (int (length ?m)) ?m]))
          (hr := ((\<lambda>_. [])(hu := [ZRecv hu (int (length ?m)) ?m])) hr @ rq,
           hc := ((\<lambda>_. [])(hu := [ZRecv hu (int (length ?m)) ?m])) hc @ ctl,
           hu := ((\<lambda>_. [])(hu := [ZRecv hu (int (length ?m)) ?m])) hu @ ui)) t"
      and x: "exchange E hr env rq res"
        "if gives_up cmd \<and> res = None then r = ERROR_ZMQ_REQ_SEND \<and> ctl = [] \<and> ui = [] else r = OK_ZMQ \<and> (\<exists>d. sent hu [d] ui)"
      unfolding Some obeyed_def option.case asked_def by blast
    from seenD [OF v] S obtain es where "heap t = heap s" "trace t = trace s @ es" "io_on hr es = rq"
      "io_on hu es = ZRecv hu (int (length ?m)) ?m # ui" by auto
    with x Some show ?thesis by (intro conjI exI [of _ es]) (auto split: if_splits)
  qed
  show ?thesis
    by (rule wp_then [OF handle_message_ui_obeyed [OF assms(1-3) seen_start [OF assms(4)] assms(5-7) recv]])
      (use fit post in auto)
qed

theorem handle_message_ui_means_witness:
  "\<exists>t d k. handle_message_ui (sim_server ''/join go'' ''r'' \<lparr>message_id = [], payload = PAYLOAD_NOT_SET\<rparr>)
       (Some 2) (Some 3) (Some 4) ''bob'' (Some 0) (sim_sockets empty_script) = Inr (OK_ZMQ, t) \<and>
     io_on 14 (trace t) = [ZRecv 14 8 ''/join go'', ZSend 14 d 0 k]"
proof -
  let ?E = "sim_server ''/join go'' ''r'' \<lparr>message_id = [], payload = PAYLOAD_NOT_SET\<rparr>" and ?s = "sim_sockets empty_script"
  have cmd: "command_ok (Join ''go'')" "nul_free (command_text (Join ''go''))" "length (command_text (Join ''go'')) \<le> 511"
    by (simp_all add: NUL_def)
  have recv: "x_recv ?E 14 511 0 (world ?s) = ((int (length (command_text (Join ''go''))), command_text (Join ''go'')), empty_script)"
    by simp
  have "wp (handle_message_ui ?E (Some 2) (Some 3) (Some 4) ''bob'' (Some 0))
      (\<lambda>r t. r = OK_ZMQ \<and> (\<exists>d k. io_on 14 (trace t) = [ZRecv 14 8 ''/join go'', ZSend 14 d 0 k])) no_fault ?s"
    using handle_message_ui_means [OF sim_server_laws(1,3) sim_ctl_at [of empty_script] _ cmd recv]
    by (fastforce simp: sent_one_iff elim!: wp_mono dest!: sim_server_replies)
  then show ?thesis by (fastforce dest!: wp_runs)
qed

end
