(* ===== verification/Command_Properties.thy ===== *)
theory Command_Properties
  imports Controller_Commands
begin

text \<open>
  The properties of the command handlers of the controller thread, read off the rules of
  \<open>Controller_Commands\<close> for a thread whose sockets are alive.
\<close>

text \<open>
  C15. One request, one reply: \<open>send_and_recv_env\<close> packs the envelope and sends it once; if that
  succeeds it receives one reply, and what the bytes of the reply decode to is the result, in a
  fresh envelope, the only block it leaves allocated. The result is NULL exactly when the request
  could not be sent, no reply was received or the reply does not decode. There are two faults: a
  reply longer than the 4096-byte buffer, and the unchecked \<open>malloc\<close>.
\<close>

theorem send_and_recv_env_exchange:
  assumes "laws E" "heap_ok s" "sock_at s p h" "sock_at s l lg" "h \<noteq> lg"
  shows "wp (send_and_recv_env E p env l)
    (\<lambda>r t. \<exists>es res. trace t = trace s @ es \<and> exchange E h env (io_on h es) res \<and>
       (case res of None \<Rightarrow> r = None \<and> heap t = heap s
        | Some e \<Rightarrow> \<exists>a. r = Some a \<and> heap s a = None \<and> heap t = (heap s)(a \<mapsto> BEnv e)))
    (\<lambda>f. f = OutOfBounds \<and> \<not> fits E 4096 \<or> f = NullPointer \<and> \<not> malloc_law E) s"
proof (rule send_and_recv_env_ok [OF seen_start [OF assms(2)] assms(1) _ _ assms(5)])
  show "sock_in (heap s) p h" "sock_in (heap s) l lg"
    using assms(3,4) by (simp_all add: sock_in_def sock_at_def)
next
  fix es t
  assume x: "exchange E h env es None" and t: "seen lg (heap s) (trace s) ((\<lambda>_. [])(h := [] @ es)) t"
  from seenD [OF t] obtain es' where "heap t = heap s" "trace t = trace s @ es'" "io_on h es' = es"
    using assms(5) by auto
  with x show "\<exists>es res. trace t = trace s @ es \<and> exchange E h env (io_on h es) res \<and>
      (case res of None \<Rightarrow> None = None \<and> heap t = heap s
       | Some e \<Rightarrow> \<exists>a. None = Some a \<and> heap s a = None \<and> heap t = (heap s)(a \<mapsto> BEnv e))"
    by (intro exI [of _ es'] exI [of _ None]) simp
next
  fix es a e t
  assume x: "exchange E h env es (Some e)" "heap s a = None"
    and t: "seen lg ((heap s)(a \<mapsto> BEnv e)) (trace s) ((\<lambda>_. [])(h := [] @ es)) t"
  from seenD [OF t] obtain es' where "heap t = (heap s)(a \<mapsto> BEnv e)" "trace t = trace s @ es'" "io_on h es' = es"
    using assms(5) by auto
  with x show "\<exists>es res. trace t = trace s @ es \<and> exchange E h env (io_on h es) res \<and>
      (case res of None \<Rightarrow> Some a = None \<and> heap t = heap s
       | Some e \<Rightarrow> \<exists>b. Some a = Some b \<and> heap s b = None \<and> heap t = (heap s)(b \<mapsto> BEnv e))"
    by (intro exI [of _ es'] exI [of _ "Some e"]) auto
qed simp_all

theorem send_and_recv_env_exchange_witness:
  "\<exists>a t. send_and_recv_env (sim_server [] ''r'' \<lparr>message_id = ''x'', payload = PAYLOAD_NOT_SET\<rparr>) (Some 2)
     \<lparr>message_id = ''m'', payload = PAYLOAD_NOT_SET\<rparr> (Some 0) (sim_sockets empty_script) = Inr (Some a, t) \<and>
     heap t a = Some (BEnv \<lparr>message_id = ''x'', payload = PAYLOAD_NOT_SET\<rparr>)"
proof -
  let ?s = "sim_sockets empty_script" and ?m = "\<lparr>message_id = ''m'', payload = PAYLOAD_NOT_SET\<rparr>"
  let ?E = "sim_server [] ''r'' \<lparr>message_id = ''x'', payload = PAYLOAD_NOT_SET\<rparr>"
  have "sock_at ?s (Some 2) 12" "sock_at ?s (Some 0) 10" by (simp_all add: sock_at_def)
  from send_and_recv_env_exchange [where E = ?E and env = ?m, OF sim_server_laws(1) _ this]
  have "wp (send_and_recv_env ?E (Some 2) ?m (Some 0)) (\<lambda>r t. \<exists>a. r = Some a \<and>
      heap t a = Some (BEnv \<lparr>message_id = ''x'', payload = PAYLOAD_NOT_SET\<rparr>)) no_fault ?s"
    by (auto elim!: wp_mono dest!: sim_server_replies)
  then show ?thesis by (auto dest!: wp_runs)
qed

text \<open>
  C38. A reply of more than 4096 bytes: libzmq stores the first 4096 in the buffer but returns
  the full length, and the length is passed on to the unpacker, which reads past the buffer.
\<close>

theorem oversized_reply_faults:
  assumes "laws E" "heap_ok s" "sock_at s p h"
    and "x_malloc E (x_packed_size E env) (world s) = (True, w1)"
    and "x_send E h (x_pack E env) 0 w1 = (rc, w2)" "0 \<le> rc"
    and "x_recv E h 4096 0 w2 = ((int (length m), take 4096 m), w3)" "4096 < length m"
  shows "send_and_recv_env E p env l s = Inl OutOfBounds"
proof -
  obtain a where p: "p = Some a" "heap s a = Some (BSock h)" using assms(3) by (auto simp: sock_at_def)
  then have "a \<noteq> fresh s" using assms(2) heap_ok_neq_fresh by blast
  moreover have "x_packed_size E env = length (x_pack E env)"
    using assms(1) by (simp add: laws_def pack_law_def)
  ultimately have "wp (send_and_recv_env E p env l) (\<lambda>_ _. False) (\<lambda>f. f = OutOfBounds) s"
    using assms(4-8) p
    by (simp add: send_and_recv_env_def wp_simps wp_load_bytes socket_send_def socket_recv_def wp_load_sock
        length_local_array)
  then show ?thesis by (auto simp: wp_def split: sum.splits)
qed

theorem oversized_reply_faults_witness:
  "send_and_recv_env sim_ext (Some 2) \<lparr>message_id = ''m'', payload = PAYLOAD_NOT_SET\<rparr> (Some 0)
     (sim_sockets (empty_script\<lparr>inbox := [replicate 5000 CHR ''x'']\<rparr>)) = Inl OutOfBounds"
proof -
  let ?w = "empty_script\<lparr>inbox := [replicate 5000 CHR ''x'']\<rparr>"
  show ?thesis
    by (rule oversized_reply_faults [where h = 12 and ?w1.0 = ?w and ?w2.0 = ?w and rc = 1
          and m = "replicate 5000 CHR ''x''" and ?w3.0 = "empty_script\<lparr>inbox := []\<rparr>"])
      (simp_all add: sock_at_def)
qed

text \<open>The effect of a join or leave request, in terms of the events on the sockets.\<close>

definition room_change_effect where
  "room_change_effect E hr hc hu env cmd otherwise s r t \<longleftrightarrow> heap t = heap s \<and>
     (\<exists>es res. trace t = trace s @ es \<and> exchange E hr env (io_on hr es) res \<and>
       (case res of
          None \<Rightarrow> r = ERROR_ZMQ_REQ_SEND \<and> io_on hc es = [] \<and> io_on hu es = []
        | Some e \<Rightarrow> r = OK_ZMQ \<and> sent hc (instruction cmd e) (io_on hc es) \<and>
            sent hu [answer otherwise e] (io_on hu es)))"

lemma room_change_plain:
  assumes "ctl_at (heap s) c lg hs hr hc hu"
    and "room_change E lg (heap s) (trace s) (\<lambda>_. []) hr hc hu env cmd otherwise r t"
  shows "room_change_effect E hr hc hu env cmd otherwise s r t"
proof -
  note S = ctl_atD [OF assms(1)]
  from assms(2) obtain rq res where x: "exchange E hr env rq res"
    and c: "case res of None \<Rightarrow> r = ERROR_ZMQ_REQ_SEND \<and> seen lg (heap s) (trace s) ((\<lambda>_. [])(hr := rq)) t
      | Some e \<Rightarrow> r = OK_ZMQ \<and> (\<exists>ctl ui. sent hc (instruction cmd e) ctl \<and> sent hu [answer otherwise e] ui \<and>
            seen lg (heap s) (trace s) ((\<lambda>_. [])(hr := rq, hc := ctl, hu := ui)) t)"
    unfolding room_change_def append.left_neutral by blast
  show ?thesis
  proof (cases res)
    case None
    with c S obtain es where "heap t = heap s" "trace t = trace s @ es" "io_on hr es = rq"
        "io_on hc es = []" "io_on hu es = []" "r = ERROR_ZMQ_REQ_SEND"
      by (auto dest!: seenD)
    with x None show ?thesis unfolding room_change_effect_def by auto
  next
    case (Some e)
    with c obtain ctl ui where r: "r = OK_ZMQ" "sent hc (instruction cmd e) ctl" "sent hu [answer otherwise e] ui"
      and "seen lg (heap s) (trace s) ((\<lambda>_. [])(hr := rq, hc := ctl, hu := ui)) t" by auto
    with S obtain es where "heap t = heap s" "trace t = trace s @ es" "io_on hr es = rq"
        "io_on hc es = ctl" "io_on hu es = ui"
      by (auto dest!: seenD)
    with x r Some show ?thesis unfolding room_change_effect_def by auto
  qed
qed

text \<open>
  C16. \<open>/join\<close>: the request carries exactly the room name that follows the command and the user
  name. If the server acknowledges, the receiver thread is told \<open>+room:<name>\<close> (cut at 127
  bytes) and the UI gets the server's message; after any other reply only the UI gets the
  failure text; when there is no reply that decodes the error code is returned and neither hears
  anything. Memory is as before. When replies fit into the buffer (4096 bytes) the only fault is
  the unchecked \<open>malloc\<close>.
\<close>

theorem handle_room_join_effect:
  assumes "laws E" "fits E 4096" "ctl_at (heap s) c lg hs hr hc hu" "heap_ok s"
    and "line = ''/join '' @ room @ NUL # rest" "nul_free room"
  shows "wp (handle_room_join E (c_req c) (c_receiver c) (c_ui c) line user (c_logs c))
    (room_change_effect E hr hc hu \<lparr>message_id = ''cmd-join'', payload = JOIN_ROOM_REQ
         \<lparr>join_req_room_name = room, join_req_username = user\<rparr>\<rparr> (''+room:'' @ room) TXT_JOIN_FAILED s)
    (\<lambda>f. f = NullPointer \<and> \<not> malloc_law E) s"
proof -
  have l: "cs (drop 6 line) = room" "has_cstr line 6"
    using cs_after_command [OF assms(5,6), of 6] by simp_all
  have ok: "\<not> has_cstr line 6 \<or> \<not> fits E 4096 \<Longrightarrow> OutOfBounds = NullPointer \<and> \<not> malloc_law E" using l assms(2) by simp
  have mem: "\<not> malloc_law E \<Longrightarrow> NullPointer = NullPointer \<and> \<not> malloc_law E" by simp
  show ?thesis
    using room_change_plain [OF assms(3)]
    by (intro wp_then [OF handle_room_join_ok [where line = line, OF assms(1,3) seen_start [OF assms(4)] ok mem, unfolded l]])
      (simp_all add: CHAT_MESSAGE_JOIN_ROOM_def)
qed

theorem handle_room_join_effect_witness:
  "\<exists>t k l. handle_room_join (sim_server [] ''r'' \<lparr>message_id = [], payload = ACK \<lparr>ack_status = STATUS_OK, ack_message = ''in''\<rparr>\<rparr>)
     (Some 2) (Some 3) (Some 4) (''/join go'' @ [NUL]) ''bob'' (Some 0) (sim_sockets empty_script) = Inr (OK_ZMQ, t) \<and>
     io_on 13 (trace t) = [ZSend 13 ''+room:go'' 0 k] \<and> io_on 14 (trace t) = [ZSend 14 ''[SERWER]: in'' 0 l]"
proof -
  let ?E = "sim_server [] ''r'' \<lparr>message_id = [], payload = ACK \<lparr>ack_status = STATUS_OK, ack_message = ''in''\<rparr>\<rparr>"
  let ?s = "sim_sockets empty_script"
  have "nul_free ''go''" by (simp add: NUL_def)
  note * = handle_room_join_effect [OF sim_server_laws(1,3) sim_ctl_at [of empty_script] _ _ this, of "''/join go'' @ [NUL]" "[]" "[]" "''r''"]
  have "cs ''in'' = ''in''" by (simp add: cs_id NUL_def)
  then have "wp (handle_room_join ?E (Some 2) (Some 3) (Some 4) (''/join go'' @ [NUL]) ''bob'' (Some 0))
    (\<lambda>r t. r = OK_ZMQ \<and> (\<exists>k. io_on 13 (trace t) = [ZSend 13 ''+room:go'' 0 k]) \<and>
       (\<exists>l. io_on 14 (trace t) = [ZSend 14 ''[SERWER]: in'' 0 l])) no_fault ?s"
    using * [of "\<lparr>message_id = [], payload = ACK \<lparr>ack_status = STATUS_OK, ack_message = ''in''\<rparr>\<rparr>" "''bob''"]
    by (auto simp: room_change_effect_def sent_one_iff instruction_def answer_def elim!: wp_mono dest!: sim_server_replies)
  then show ?thesis by (fastforce dest!: wp_runs)
qed

text \<open>
  C17. \<open>/leave\<close>: the same with \<open>-room:<name>\<close> for the receiver: it is told when and only when the
  server acknowledges.
\<close>

theorem handle_room_leave_effect:
  assumes "laws E" "fits E 4096" "ctl_at (heap s) c lg hs hr hc hu" "heap_ok s"
    and "line = ''/leave '' @ room @ NUL # rest" "nul_free room"
  shows "wp (handle_room_leave E (c_req c) (c_receiver c) (c_ui c) line user (c_logs c))
    (room_change_effect E hr hc hu \<lparr>message_id = ''cmd-leave'', payload = LEAVE_ROOM_REQ
         \<lparr>leave_req_room_name = room, leave_req_username = user\<rparr>\<rparr> (''-room:'' @ room) TXT_LEAVE_FAILED s)
    (\<lambda>f. f = NullPointer \<and> \<not> malloc_law E) s"
proof -
  have l: "cs (drop 7 line) = room" "has_cstr line 7"
    using cs_after_command [OF assms(5,6), of 7] by simp_all
  have ok: "\<not> has_cstr line 7 \<or> \<not> fits E 4096 \<Longrightarrow> OutOfBounds = NullPointer \<and> \<not> malloc_law E" using l assms(2) by simp
  have mem: "\<not> malloc_law E \<Longrightarrow> NullPointer = NullPointer \<and> \<not> malloc_law E" by simp
  show ?thesis
    using room_change_plain [OF assms(3)]
    by (intro wp_then [OF handle_room_leave_ok [where line = line, OF assms(1,3) seen_start [OF assms(4)] ok mem, unfolded l]])
      (simp_all add: CHAT_MESSAGE_LEAVE_ROOM_def)
qed

theorem handle_room_leave_effect_witness:
  "\<exists>t k l. handle_room_leave (sim_server [] ''r'' \<lparr>message_id = [], payload = ACK \<lparr>ack_status = STATUS_OK, ack_message = ''in''\<rparr>\<rparr>)
     (Some 2) (Some 3) (Some 4) (''/leave go'' @ [NUL]) ''bob'' (Some 0) (sim_sockets empty_script) = Inr (OK_ZMQ, t) \<and>
     io_on 13 (trace t) = [ZSend 13 ''-room:go'' 0 k] \<and> io_on 14 (trace t) = [ZSend 14 ''[SERWER]: in'' 0 l]"
proof -
  let ?E = "sim_server [] ''r'' \<lparr>message_id = [], payload = ACK \<lparr>ack_status = STATUS_OK, ack_message = ''in''\<rparr>\<rparr>"
  let ?s = "sim_sockets empty_script"
  have "nul_free ''go''" by (simp add: NUL_def)
  note * = handle_room_leave_effect [OF sim_server_laws(1,3) sim_ctl_at [of empty_script] _ _ this, of "''/leave go'' @ [NUL]" "[]" "[]" "''r''"]
  have "cs ''in'' = ''in''" by (simp add: cs_id NUL_def)
  then have "wp (handle_room_leave ?E (Some 2) (Some 3) (Some 4) (''/leave go'' @ [NUL]) ''bob'' (Some 0))
    (\<lambda>r t. r = OK_ZMQ \<and> (\<exists>k. io_on 13 (trace t) = [ZSend 13 ''-room:go'' 0 k]) \<and>
       (\<exists>l. io_on 14 (trace t) = [ZSend 14 ''[SERWER]: in'' 0 l])) no_fault ?s"
    using * [of "\<lparr>message_id = [], payload = ACK \<lparr>ack_status = STATUS_OK, ack_message = ''in''\<rparr>\<rparr>" "''bob''"]
    by (auto simp: room_change_effect_def sent_one_iff instruction_def answer_def elim!: wp_mono dest!: sim_server_replies)
  then show ?thesis by (fastforce dest!: wp_runs)
qed

text \<open>
  C19. \<open>room_lines\<close>, the formatting loop of \<open>handle_room_list\<close>: it appends one line for each
  room and the buffer ends up with the text cut at 1023 bytes, exactly when the offset has not
  passed the end of the 1024-byte buffer before the last room; otherwise the size passed to
  \<open>snprintf\<close> has wrapped around and the call writes behind the buffer.
\<close>

theorem room_lines_exact:
  assumes "holds_text buf T"
  shows "case room_lines rs buf (int (length T)) s of
      Inl f \<Rightarrow> f = OutOfBounds \<and> rs \<noteq> [] \<and> 1024 < length (T @ concat (map room_line (butlast rs)))
    | Inr ((out, _), t) \<Rightarrow> t = s \<and> holds_text out (T @ concat (map room_line rs)) \<and>
        (rs = [] \<or> length (T @ concat (map room_line (butlast rs))) \<le> 1024)"
  using room_lines_ok [OF assms, of rs s] by (auto simp: wp_def split: sum.splits prod.splits)

theorem room_lines_exact_witness:
  "room_lines (replicate 40 \<lparr>room_info_name = ''general'', room_info_member_count = 1, room_info_members = []\<rparr>)
     (replicate 1024 NUL) 0 () = Inl OutOfBounds"
proof -
  let ?r = "\<lparr>room_info_name = ''general'', room_info_member_count = 1, room_info_members = []\<rparr>"
  have "holds_text (replicate 1024 NUL) []"
    using c_array_facts [of "[]" 1024] by (simp add: holds_text_def c_array_def)
  moreover have "30 \<le> length (room_line ?r)" by (simp add: room_line_def)
  then have "1024 < length (concat (map room_line (butlast (replicate 40 ?r))))"
    by (simp add: length_concat sum_list_replicate butlast_conv_take)
  ultimately show ?thesis
    using room_lines_exact [of "replicate 1024 NUL" "[]" "replicate 40 ?r" "()"]
    by (auto split: sum.splits prod.splits)
qed

text \<open>
  C18. \<open>/rooms\<close>: one request; after a list of rooms the UI gets the formatted list, after any
  other reply the failure text, and when there is no reply that decodes nothing and the error
  code is returned. Memory is as before. When replies fit into the buffer (4096 bytes) the
  handler faults only when a list does not fit into the text buffer, or by the unchecked \<open>malloc\<close>.
\<close>

theorem handle_room_list_effect:
  assumes "laws E" "fits E 4096" "ctl_at (heap s) c lg hs hr hc hu" "heap_ok s"
  shows "wp (handle_room_list E (c_req c) (c_ui c) (c_logs c))
    (\<lambda>r t. heap t = heap s \<and> (\<exists>es res. trace t = trace s @ es \<and>
       exchange E hr \<lparr>message_id = ''cmd-rooms'', payload = LIST_ROOMS_REQ LIST_ROOMS_REQUEST_INIT\<rparr> (io_on hr es) res \<and>
       (case res of None \<Rightarrow> r = ERROR_ZMQ_REQ_SEND \<and> io_on hu es = []
        | Some e \<Rightarrow> r = OK_ZMQ \<and> list_fits e \<and> sent hu [list_answer e] (io_on hu es))))
    (\<lambda>f. f = OutOfBounds \<and> (\<exists>e d w w'. x_unpack E d w = (Some e, w') \<and> \<not> list_fits e) \<or>
       f = NullPointer \<and> \<not> malloc_law E) s"
proof (rule wp_then [OF handle_room_list_ok [OF assms(1,3) seen_start [OF assms(4)]]], goal_cases)
  case (4 r t)
  note S = ctl_atD [OF assms(3)]
  from 4 obtain rq res where
      x: "exchange E hr \<lparr>message_id = ''cmd-rooms'', payload = LIST_ROOMS_REQ LIST_ROOMS_REQUEST_INIT\<rparr> rq res"
    and c: "case res of None \<Rightarrow> r = ERROR_ZMQ_REQ_SEND \<and> seen lg (heap s) (trace s) ((\<lambda>_. [])(hr := rq)) t
      | Some e \<Rightarrow> r = OK_ZMQ \<and> list_fits e \<and>
          (\<exists>rc. seen lg (heap s) (trace s) ((\<lambda>_. [])(hr := rq, hu := [ZSend hu (list_answer e) 0 rc])) t)"
    unfolding rooms_listed_def append.left_neutral by blast
  show ?case
  proof (cases res)
    case None
    with c S obtain es where "heap t = heap s" "trace t = trace s @ es" "io_on hr es = rq"
        "io_on hu es = []" "r = ERROR_ZMQ_REQ_SEND"
      by (auto dest!: seenD)
    with x None show ?thesis by auto
  next
    case (Some e)
    with c obtain rc where r: "r = OK_ZMQ" "list_fits e"
      and "seen lg (heap s) (trace s) ((\<lambda>_. [])(hr := rq, hu := [ZSend hu (list_answer e) 0 rc])) t" by auto
    with S obtain es where "heap t = heap s" "trace t = trace s @ es" "io_on hr es = rq"
        "io_on hu es = [ZSend hu (list_answer e) 0 rc]"
      by (auto dest!: seenD)
    with x r Some show ?thesis by (intro conjI exI [of _ es] exI [of _ res]) auto
  qed
qed (use assms(2) in auto)

theorem handle_room_list_effect_witness:
  "\<exists>t k. handle_room_list (sim_server [] ''r'' \<lparr>message_id = [], payload = LIST_ROOMS_RESP \<lparr>list_resp_status = STATUS_OK, list_resp_rooms = [\<lparr>room_info_name = ''go'', room_info_member_count = 1, room_info_members = []\<rparr>]\<rparr>\<rparr>) (Some 2) (Some 4) (Some 0)
       (sim_sockets empty_script) = Inr (OK_ZMQ, t) \<and>
     io_on 14 (trace t) = [ZSend 14 (take 1023 (room_list_text [\<lparr>room_info_name = ''go'', room_info_member_count = 1, room_info_members = []\<rparr>])) 0 k]"
proof -
  let ?e = "\<lparr>message_id = [], payload = LIST_ROOMS_RESP \<lparr>list_resp_status = STATUS_OK, list_resp_rooms = [\<lparr>room_info_name = ''go'', room_info_member_count = 1, room_info_members = []\<rparr>]\<rparr>\<rparr>"
  let ?E = "sim_server [] ''r'' ?e" and ?s = "sim_sockets empty_script"
  let ?rooms = "[\<lparr>room_info_name = ''go'', room_info_member_count = 1, room_info_members = []\<rparr>]"
  have "length (show_nat (Suc 0)) = 1" by (subst show_nat.simps) simp
  then have fit: "list_fits ?e" by (simp add: list_fits_def room_list_fits_def TXT_ROOMS_HEADER_def)
  have a: "list_answer ?e = take 1023 (room_list_text ?rooms)"
    by (simp add: list_answer_def)
  have u: "x_unpack ?E d w = (Some e', w') \<Longrightarrow> e' = ?e" for d w e' w' by (auto simp: sim_server_def split: if_splits)
  have "wp (handle_room_list ?E (Some 2) (Some 4) (Some 0)) (\<lambda>r t. r = OK_ZMQ \<and>
      (\<exists>k. io_on 14 (trace t) = [ZSend 14 (take 1023 (room_list_text ?rooms)) 0 k])) no_fault ?s"
    using handle_room_list_effect [OF sim_server_laws(1,3) sim_ctl_at [of empty_script], of "[]" "''r''" ?e]
    by (auto simp: sent_one_iff a fit elim!: wp_mono dest!: sim_server_replies u)
  then show ?thesis by (fastforce dest!: wp_runs)
qed

text \<open>The lengths the code writes for its literals never reach the NUL of the literal.\<close>

lemma cut_texts:
  "take 31 (TXT_MSG_FAILED @ [NUL]) = take 31 TXT_MSG_FAILED"
  "take 35 (TXT_MSG_USAGE @ [NUL]) = take 35 TXT_MSG_USAGE"
  "take 32 (TXT_DM_SENT @ [NUL]) = take 32 TXT_DM_SENT"
  "take 23 (TXT_DM_FAILED @ [NUL]) = take 23 TXT_DM_FAILED"
  "take 32 (TXT_DM_USAGE @ [NUL]) = take 32 TXT_DM_USAGE"
  by (simp_all add: TXT_MSG_FAILED_def TXT_MSG_USAGE_def TXT_DM_SENT_def TXT_DM_FAILED_def TXT_DM_USAGE_def)

text \<open>
  C20. \<open>/msg <room> <text>\<close>: the first word is the room, the rest of the line the content, byte
  for byte. Whatever the server replies, the UI is told that the message was sent; only after a
  failed exchange it gets the first 31 bytes of the failure text. The call always succeeds.
\<close>

theorem handle_message_room_effect:
  assumes "laws E" "fits E 4096" "ctl_at (heap s) c lg hs hr hc hu" "heap_ok s"
    and "line = ''/msg '' @ x @ '' '' @ y @ NUL # rest" "nul_free x" "nul_free y"
    and "x \<noteq> []" "CHR '' '' \<notin> set x" "y \<noteq> []"
  shows "wp (handle_message_room E (c_req c) (c_ui c) line user (c_logs c))
    (\<lambda>r t. r = OK_ZMQ \<and> heap t = heap s \<and> (\<exists>es res. trace t = trace s @ es \<and> io_on hc es = [] \<and>
       exchange E hr (room_request user x y) (io_on hr es) res \<and>
       sent hu [if res = None then take 31 TXT_MSG_FAILED else CHAT_MESSAGE_SEND_ACK] (io_on hu es)))
    (\<lambda>f. f = NullPointer \<and> \<not> malloc_law E) s"
proof -
  note S = ctl_atD [OF assms(3)]
  have l: "cs (drop 5 line) = x @ '' '' @ y" "has_cstr line 5"
    using cs_after_command [of line "''/msg ''" "x @ '' '' @ y" rest 5] assms(5-7) by (simp_all add: NUL_def)
  have xy: "split_token (cs (drop 5 line)) = (Some x, Some y)"
    using split_token_word [OF assms(8,9), of y] assms(10) l(1) by simp
  have ok: "\<not> has_cstr line 5 \<or> \<not> fits E 4096 \<Longrightarrow> OutOfBounds = NullPointer \<and> \<not> malloc_law E" using l assms(2) by simp
  have mem: "\<not> malloc_law E \<Longrightarrow> NullPointer = NullPointer \<and> \<not> malloc_law E" by simp
  show ?thesis
  proof (rule wp_then [OF handle_message_room_ok [where line = line, OF assms(1,3) seen_start [OF assms(4)] ok mem]], assumption)
    fix r t
    assume "spoken E lg (heap s) (trace s) (\<lambda>_. []) hr hu (room_request user) (take 35 (TXT_MSG_USAGE @ [NUL]))
       CHAT_MESSAGE_SEND_ACK (take 31 (TXT_MSG_FAILED @ [NUL])) (cs (drop 5 line)) r t"
    then obtain rq res rc where "r = OK_ZMQ" "exchange E hr (room_request user x y) rq res"
      "seen lg (heap s) (trace s) ((\<lambda>_. [])(hr := rq, hu := [ZSend hu (if res = None
         then take 31 TXT_MSG_FAILED else CHAT_MESSAGE_SEND_ACK) 0 rc])) t"
      unfolding spoken_def xy prod.case option.case append.left_neutral
      cut_texts by auto
    with S show "r = OK_ZMQ \<and> heap t = heap s \<and> (\<exists>es res. trace t = trace s @ es \<and> io_on hc es = [] \<and>
       exchange E hr (room_request user x y) (io_on hr es) res \<and>
       sent hu [if res = None then take 31 TXT_MSG_FAILED else CHAT_MESSAGE_SEND_ACK] (io_on hu es))"
      by (fastforce dest!: seenD)
  qed
qed

theorem handle_message_room_effect_witness:
  "\<exists>t k. handle_message_room (sim_server [] ''r'' \<lparr>message_id = [], payload = ACK \<lparr>ack_status = STATUS_OK, ack_message = ''in''\<rparr>\<rparr>) (Some 2) (Some 4)
     (''/msg go hi'' @ [NUL]) ''bob'' (Some 0) (sim_sockets empty_script) = Inr (OK_ZMQ, t) \<and>
     io_on 14 (trace t) = [ZSend 14 CHAT_MESSAGE_SEND_ACK 0 k]"
proof -
  let ?E = "sim_server [] ''r'' \<lparr>message_id = [], payload = ACK \<lparr>ack_status = STATUS_OK, ack_message = ''in''\<rparr>\<rparr>" and ?s = "sim_sockets empty_script"
  have "nul_free ''go''" "nul_free ''hi''" "CHR '' '' \<notin> set ''go''" by (simp_all add: NUL_def)
  note * = handle_message_room_effect [OF sim_server_laws(1,3) sim_ctl_at [of empty_script] _ _ this(1,2) _ this(3),
    of "''/msg go hi'' @ [NUL]" "[]" "[]" "''r''"]
  have "wp (handle_message_room ?E (Some 2) (Some 4) (''/msg go hi'' @ [NUL]) ''bob'' (Some 0))
      (\<lambda>r t. r = OK_ZMQ \<and> (\<exists>k. io_on 14 (trace t) = [ZSend 14 CHAT_MESSAGE_SEND_ACK 0 k])) no_fault ?s"
    using * [of "\<lparr>message_id = [], payload = ACK \<lparr>ack_status = STATUS_OK, ack_message = ''in''\<rparr>\<rparr>" "''bob''"]
    by (auto simp: sent_one_iff elim!: wp_mono dest!: sim_server_replies)
  then show ?thesis by (fastforce dest!: wp_runs)
qed

text \<open>
  C21. \<open>/dm <user> <text>\<close>: the same for a direct message, with the first 32 bytes of the success
  text and the first 23 of the failure text.
\<close>

theorem handle_message_direct_effect:
  assumes "laws E" "fits E 4096" "ctl_at (heap s) c lg hs hr hc hu" "heap_ok s"
    and "line = ''/dm '' @ x @ '' '' @ y @ NUL # rest" "nul_free x" "nul_free y"
    and "x \<noteq> []" "CHR '' '' \<notin> set x" "y \<noteq> []"
  shows "wp (handle_message_direct E (c_req c) (c_ui c) line user (c_logs c))
    (\<lambda>r t. r = OK_ZMQ \<and> heap t = heap s \<and> (\<exists>es res. trace t = trace s @ es \<and> io_on hc es = [] \<and>
       exchange E hr (direct_request user x y) (io_on hr es) res \<and>
       sent hu [if res = None then take 23 TXT_DM_FAILED else take 32 TXT_DM_SENT] (io_on hu es)))
    (\<lambda>f. f = NullPointer \<and> \<not> malloc_law E) s"
proof -
  note S = ctl_atD [OF assms(3)]
  have l: "cs (drop 4 line) = x @ '' '' @ y" "has_cstr line 4"
    using cs_after_command [of line "''/dm ''" "x @ '' '' @ y" rest 4] assms(5-7) by (simp_all add: NUL_def)
  have xy: "split_token (cs (drop 4 line)) = (Some x, Some y)"
    using split_token_word [OF assms(8,9), of y] assms(10) l(1) by simp
  have ok: "\<not> has_cstr line 4 \<or> \<not> fits E 4096 \<Longrightarrow> OutOfBounds = NullPointer \<and> \<not> malloc_law E" using l assms(2) by simp
  have mem: "\<not> malloc_law E \<Longrightarrow> NullPointer = NullPointer \<and> \<not> malloc_law E" by simp
  show ?thesis
  proof (rule wp_then [OF handle_message_direct_ok [where line = line, OF assms(1,3) seen_start [OF assms(4)] ok mem]], assumption)
    fix r t
    assume "spoken E lg (heap s) (trace s) (\<lambda>_. []) hr hu (direct_request user) (take 32 (TXT_DM_USAGE @ [NUL]))
       (take 32 (TXT_DM_SENT @ [NUL])) (take 23 (TXT_DM_FAILED @ [NUL])) (cs (drop 4 line)) r t"
    then obtain rq res rc where "r = OK_ZMQ" "exchange E hr (direct_request user x y) rq res"
      "seen lg (heap s) (trace s) ((\<lambda>_. [])(hr := rq, hu := [ZSend hu (if res = None
         then take 23 TXT_DM_FAILED else take 32 TXT_DM_SENT) 0 rc])) t"
      unfolding spoken_def xy prod.case option.case append.left_neutral
      cut_texts by auto
    with S show "r = OK_ZMQ \<and> heap t = heap s \<and> (\<exists>es res. trace t = trace s @ es \<and> io_on hc es = [] \<and>
       exchange E hr (direct_request user x y) (io_on hr es) res \<and>
       sent hu [if res = None then take 23 TXT_DM_FAILED else take 32 TXT_DM_SENT] (io_on hu es))"
      by (fastforce dest!: seenD)
  qed
qed

theorem handle_message_direct_effect_witness:
  "\<exists>t k. handle_message_direct (sim_server [] ''r'' \<lparr>message_id = [], payload = ACK \<lparr>ack_status = STATUS_OK, ack_message = ''in''\<rparr>\<rparr>) (Some 2) (Some 4)
     (''/dm go hi'' @ [NUL]) ''bob'' (Some 0) (sim_sockets empty_script) = Inr (OK_ZMQ, t) \<and>
     io_on 14 (trace t) = [ZSend 14 (take 32 TXT_DM_SENT) 0 k]"
proof -
  let ?E = "sim_server [] ''r'' \<lparr>message_id = [], payload = ACK \<lparr>ack_status = STATUS_OK, ack_message = ''in''\<rparr>\<rparr>" and ?s = "sim_sockets empty_script"
  have "nul_free ''go''" "nul_free ''hi''" "CHR '' '' \<notin> set ''go''" by (simp_all add: NUL_def)
  note * = handle_message_direct_effect [OF sim_server_laws(1,3) sim_ctl_at [of empty_script] _ _ this(1,2) _ this(3),
    of "''/dm go hi'' @ [NUL]" "[]" "[]" "''r''"]
  have "wp (handle_message_direct ?E (Some 2) (Some 4) (''/dm go hi'' @ [NUL]) ''bob'' (Some 0))
      (\<lambda>r t. r = OK_ZMQ \<and> (\<exists>k. io_on 14 (trace t) = [ZSend 14 (take 32 TXT_DM_SENT) 0 k])) no_fault ?s"
    using * [of "\<lparr>message_id = [], payload = ACK \<lparr>ack_status = STATUS_OK, ack_message = ''in''\<rparr>\<rparr>" "''bob''"]
    by (auto simp: sent_one_iff elim!: wp_mono dest!: sim_server_replies)
  then show ?thesis by (fastforce dest!: wp_runs)
qed

end
