(* ===== verification/Controller_Thread.thy ===== *)
theory Controller_Thread
  imports Controller_Session
begin

text \<open>
  The controller thread as a whole: login, the loop, logout, and what is left behind.
\<close>

section \<open>Login and logout\<close>

definition login_request_env :: "string \<Rightarrow> envelope" where
  "login_request_env user = \<lparr>message_id = ''req-login'', payload = LOGIN_REQ
     \<lparr>login_req_username = user, login_req_client_version = ''1.0.0''\<rparr>\<rparr>"

definition logout_request_env :: "string \<Rightarrow> envelope" where
  "logout_request_env user =
     \<lparr>message_id = ''cmd-logout'', payload = LOGOUT_REQ \<lparr>logout_req_username = user\<rparr>\<rparr>"

fun acked :: "envelope option \<Rightarrow> bool" where
  "acked None = False"
| "acked (Some e) = (case payload e of ACK _ \<Rightarrow> True | _ \<Rightarrow> False)"

fun accepted :: "envelope option \<Rightarrow> bool" where
  "accepted None = False"
| "accepted (Some e) = (case payload e of LOGIN_RESP r \<Rightarrow> login_resp_status r = STATUS_OK | _ \<Rightarrow> False)"

text \<open>The reply is released when it is the expected one; another reply stays on the heap.\<close>

definition remains :: "bool \<Rightarrow> envelope option \<Rightarrow> (nat \<rightharpoonup> block) \<Rightarrow> (nat \<rightharpoonup> block) \<Rightarrow> bool" where
  "remains released res H H' \<longleftrightarrow>
     (case res of None \<Rightarrow> H' = H
      | Some e \<Rightarrow> if released then H' = H else \<exists>a. H a = None \<and> H' = H(a \<mapsto> BEnv e))"

lemma logout_ok:
  fixes E :: "'w ext"
  assumes "laws E" "ctl_at H c lg hs hr hc hu" "seen lg H tr io s"
    and oob: "\<not> fits E 4096 \<Longrightarrow> F OutOfBounds"
    and nomem: "\<not> malloc_law E \<Longrightarrow> F NullPointer"
  shows "wp (logout E (c_req c) user (c_logs c))
    (\<lambda>r t. \<exists>rq res H'. exchange E hr (logout_request_env user) rq res \<and> remains (acked res) res H H' \<and>
       seen lg H' tr (io(hr := io hr @ rq)) t \<and> r = (if acked res then OK_ZMQ else ERROR_ZMQ_REQ_SEND)) F s"
proof -
  note S = ctl_atD [OF assms(2)]
  show ?thesis
    unfolding logout_def wp_seq
  proof (rule seen_log [OF assms(3) S(1)],
      rule send_and_recv_env_ok [OF _ assms(1) S(3,1,7)], assumption, rule oob, assumption, goal_cases)
    case (1 t rq u)
    have "wp (log_error E (c_logs c) msg) (\<lambda>_ t. \<exists>rq res H'. exchange E hr (logout_request_env user) rq res \<and>
        remains (acked res) res H H' \<and> seen lg H' tr (io(hr := io hr @ rq)) t \<and>
        ERROR_ZMQ_REQ_SEND = (if acked res then OK_ZMQ else ERROR_ZMQ_REQ_SEND)) F u" for msg
      by (rule seen_log_error [OF 1(3) S(1)], rule exI [of _ rq], rule exI [of _ None])
        (use 1(2) in \<open>auto simp: remains_def logout_request_env_def\<close>)
    then show ?case by (simp add: wp_seq wp_ret)
  next
    case (2 t rq a e u)
    have l: "sock_in (H(a \<mapsto> BEnv e)) (c_logs c) lg" using S 2(3) by simp
    have post: "\<exists>rq res H'. exchange E hr (logout_request_env user) rq res \<and>
        remains (acked res) res H H' \<and> seen lg H' tr (io(hr := io hr @ rq)) v \<and>
        r = (if acked res then OK_ZMQ else ERROR_ZMQ_REQ_SEND)"
      if "if acked (Some e) then r = OK_ZMQ \<and> seen lg H tr (io(hr := io hr @ rq)) v
        else r = ERROR_ZMQ_REQ_SEND \<and> seen lg (H(a \<mapsto> BEnv e)) tr (io(hr := io hr @ rq)) v" for r v
      by (rule exI [of _ rq], rule exI [of _ "Some e"],
          rule exI [of _ "if acked (Some e) then H else H(a \<mapsto> BEnv e)"])
        (use that 2(2,3) in \<open>auto simp: remains_def logout_request_env_def simp del: acked.simps split: if_splits\<close>)
    have a: "(case payload e of ACK _ \<Rightarrow> True | _ \<Rightarrow> False) = acked (Some e)" by simp
    show ?case
      apply (simp only: option.simps if_False wp_seq wp_ret a)
      apply (rule seen_load_env [OF 2(4) fun_upd_same])
      apply (rule wp_ifI)
       apply (simp only: wp_seq wp_ret)
       apply (rule seen_log [OF 2(4) l])
       apply (erule seen_free, rule fun_upd_same)
       apply (rule post)
       apply (simp add: 2(3) a del: acked.simps)
      apply (simp only: wp_seq wp_ret)
      apply (rule seen_log_error [OF 2(4) l])
      apply (rule post)
      apply (simp add: a del: acked.simps)
      done
  qed (rule nomem)
qed

section \<open>Closing sockets\<close>

text \<open>The heap without the four sockets that \<open>clean_up\<close> destroys.\<close>

definition four_off :: "ctl_env \<Rightarrow> (nat \<rightharpoonup> block) \<Rightarrow> (nat \<rightharpoonup> block)" where
  "four_off c H = heap_off H [the (c_shutdown c), the (c_req c), the (c_receiver c), the (c_ui c)]"

definition four_closed where
  "four_closed hs hr hc hu io io' \<longleftrightarrow>
     (\<forall>h \<in> {hs, hr, hc, hu}. closes h (io h) (io' h)) \<and> (\<forall>h. h \<notin> {hs, hr, hc, hu} \<longrightarrow> io' h = io h)"

lemma clean_up_ok:
  assumes "ctl_at H c lg hs hr hc hu" "seen lg H tr io s"
  shows "wp (clean_up E (c_shutdown c) (c_req c) (c_receiver c) (c_ui c))
    (\<lambda>_ t. \<exists>io'. seen_off [hs, hr, hc, hu] lg (four_off c H) tr io' t \<and> four_closed hs hr hc hu io io') F s"
proof -
  note S = ctl_atD [OF assms(1)]
  from S(2-5) obtain a b d e where c: "c_shutdown c = Some a" "c_req c = Some b" "c_receiver c = Some d"
      "c_ui c = Some e" and H: "H a = Some (BSock hs)" "H b = Some (BSock hr)" "H d = Some (BSock hc)"
      "H e = Some (BSock hu)"
    by (auto simp: sock_in_def)
  have ne: "a \<noteq> b" "a \<noteq> d" "a \<noteq> e" "b \<noteq> d" "b \<noteq> e" "d \<noteq> e"
    using S H by auto
  have off: "four_off c H = H(a := None, b := None, d := None, e := None)"
    by (auto simp: four_off_def c heap_off_apply)
  show ?thesis
    unfolding clean_up_def c off wp_seq wp_ret
    apply (rule seen_destroy [OF assms(2) H(1) S(6) [symmetric]])
    apply (erule seen_destroy [where h = hr])
      apply (simp add: H ne ne [symmetric])
     apply (rule S(7))
    apply (erule seen_destroy [where h = hc])
      apply (simp add: H ne ne [symmetric])
     apply (rule S(8))
    apply (erule seen_destroy [where h = hu])
      apply (simp add: H ne ne [symmetric])
     apply (rule S(9))
    apply (rule exI, rule conjI, simp)
    using S by (simp add: four_closed_def closes_def)
qed

lemma ctl_at_update: "ctl_at H c lg hs hr hc hu \<Longrightarrow> H a = None \<Longrightarrow> ctl_at (H(a \<mapsto> b)) c lg hs hr hc hu"
  by (simp add: ctl_at_def)

lemma ctl_at_remains: "ctl_at H c lg hs hr hc hu \<Longrightarrow> remains b res H H' \<Longrightarrow> ctl_at H' c lg hs hr hc hu"
  by (auto simp: remains_def ctl_at_update split: option.splits if_splits)

text \<open>
  Either the server accepted the login, or every socket but the one for the logs is closed and
  the reply, if there was one, is left on the heap.
\<close>

definition admitted where
  "admitted E lg H tr io hr user t \<longleftrightarrow>
     (\<exists>rq res. exchange E hr (login_request_env user) rq res \<and> accepted res \<and>
       seen lg H tr (io(hr := io hr @ rq)) t)"

definition refused where
  "refused E c lg H tr io hs hr hc hu user t \<longleftrightarrow>
     (\<exists>rq res H' io'. exchange E hr (login_request_env user) rq res \<and> \<not> accepted res \<and>
       remains False res H H' \<and> seen_off [hs, hr, hc, hu] lg (four_off c H') tr io' t \<and>
       four_closed hs hr hc hu (io(hr := io hr @ rq)) io')"

definition login_outcome where
  "login_outcome E c lg H tr io hs hr hc hu user r t \<longleftrightarrow>
     r = OK_ZMQ \<and> admitted E lg H tr io hr user t \<or>
     r = ERROR_ZMQ_REQ_SEND \<and> refused E c lg H tr io hs hr hc hu user t"

lemma send_login_request_ok:
  fixes E :: "'w ext"
  assumes "laws E" "ctl_at H c lg hs hr hc hu" "seen lg H tr io s"
    and oob: "\<not> fits E 4096 \<Longrightarrow> F OutOfBounds"
    and nomem: "\<not> malloc_law E \<Longrightarrow> F NullPointer"
  shows "wp (send_login_request E (c_shutdown c) (c_req c) (c_receiver c) (c_ui c) user (c_logs c))
    (login_outcome E c lg H tr io hs hr hc hu user) F s"
    (is "wp _ ?Q _ _")
proof -
  note S = ctl_atD [OF assms(2)]
  have refuse: "wp (log_app E (c_logs c) msg) (\<lambda>_. wp (clean_up E (c_shutdown c) (c_req c) (c_receiver c) (c_ui c))
      (\<lambda>_. ?Q ERROR_ZMQ_REQ_SEND) F) F t"
    if "exchange E hr (login_request_env user) rq res" "\<not> accepted res" "remains False res H H'"
      "seen lg H' tr (io(hr := io hr @ rq)) t" for rq res H' msg and t :: "'w st"
  proof -
    note c' = ctl_at_remains [OF assms(2) that(3)]
    show ?thesis
    proof (rule seen_log [OF that(4) ctl_atD(1) [OF c']], rule wp_then [OF clean_up_ok [OF c']], assumption)
      fix x and u v :: "'w st"
      assume "\<exists>io'. seen_off [hs, hr, hc, hu] lg (four_off c H') tr io' v \<and> four_closed hs hr hc hu (io(hr := io hr @ rq)) io'"
      with that(1-3) show "?Q ERROR_ZMQ_REQ_SEND v"
        unfolding login_outcome_def refused_def by blast
    qed
  qed
  have a: "(case payload e of LOGIN_RESP r \<Rightarrow> login_resp_status r = STATUS_OK | _ \<Rightarrow> False) = accepted (Some e)" for e
    by simp
  show ?thesis
    unfolding send_login_request_def wp_seq
  proof (rule send_and_recv_env_ok [OF assms(3,1) S(3,1,7)], rule oob, assumption, goal_cases)
    case (1 rq t)
    show ?case
      apply (simp only: simp_thms if_True wp_seq wp_ret)
      apply (rule refuse [of rq None H])
         apply (use 1 in \<open>simp_all add: remains_def login_request_env_def\<close>)
      done
  next
    case (2 rq b e t)
    show ?case
      apply (simp only: option.simps if_False wp_seq wp_ret a)
      apply (rule seen_load_env [OF 2(3) fun_upd_same])
      apply (rule wp_ifI)
       apply (simp only: wp_seq wp_ret)
       apply (rule refuse [of rq "Some e" "H(b \<mapsto> BEnv e)"])
          apply (use 2 in \<open>simp_all add: remains_def login_request_env_def del: accepted.simps\<close>)
        apply blast
      apply (simp only: wp_seq wp_ret)
      apply (rule seen_free [OF 2(3) fun_upd_same])
      apply (unfold login_outcome_def admitted_def fun_upd_upd heap_restored [where H = H and a = b, OF 2(2)])
      apply (rule disjI1, rule conjI, rule refl, rule exI [of _ rq], rule exI [of _ "Some e"])
      apply (use 2(1) in \<open>simp add: login_request_env_def del: accepted.simps\<close>)
      done
  qed (rule nomem)
qed

section \<open>The session\<close>

lemma seen_trans:
  assumes "seen_off cl lg H tr io s" "seen_off cl' lg H' (trace s) io' t"
  shows "seen_off (cl @ cl') lg H' tr (\<lambda>h. io h @ io' h) t"
  using assms unfolding seen_def by fastforce

lemma seen_restart: "seen lg H tr io s \<Longrightarrow> seen lg H (trace s) (\<lambda>_. []) s"
  by (auto simp: seen_def)

lemma controller_begin_ok:
  fixes E :: "'w ext"
  assumes "laws E" "ctl_at H c lg hs hr hc hu" "seen lg H tr io s" "has_cstr ua 0"
    and oob: "\<not> fits E 4096 \<Longrightarrow> F OutOfBounds"
    and nomem: "\<not> malloc_law E \<Longrightarrow> F NullPointer"
  shows "wp (controller_begin E (c_shutdown c) (c_req c) (c_receiver c) (c_ui c) (c_logs c) ua)
    (\<lambda>x t. case x of
        None \<Rightarrow> refused E c lg H tr io hs hr hc hu (cs ua) t
      | Some c' \<Rightarrow> admitted E lg H tr io hr (cs ua) t \<and>
          c' = c\<lparr>c_items := [PollSocket hs, PollSocket hu], c_username := cs ua\<rparr>) F s"
    (is "wp _ ?Q _ _")
proof -
  note S = ctl_atD [OF assms(2)]
  let ?c = "c\<lparr>c_items := [PollSocket hs, PollSocket hu], c_username := cs ua\<rparr>"
  have c: "\<lparr>c_shutdown = c_shutdown c, c_req = c_req c, c_receiver = c_receiver c, c_ui = c_ui c,
      c_logs = c_logs c, c_items = [PollSocket hs, PollSocket hu], c_username = cs ua\<rparr> = ?c"
    by (cases c) simp
  have go: "wp (log_app E (c_logs c) m1) (\<lambda>_. wp (socket_get_raw (c_shutdown c)) (\<lambda>raw0.
      wp (socket_get_raw (c_ui c)) (\<lambda>raw1. wp (log_app E (c_logs c) m2) (\<lambda>_.
        ?Q (Some \<lparr>c_shutdown = c_shutdown c, c_req = c_req c, c_receiver = c_receiver c, c_ui = c_ui c,
          c_logs = c_logs c, c_items = [poll_item raw0, poll_item raw1], c_username = cs ua\<rparr>)) F) F) F) F t"
    if t: "admitted E lg H tr io hr (cs ua) t" for m1 m2 and t :: "'w st"
  proof -
    from t obtain rq res where x: "exchange E hr (login_request_env (cs ua)) rq res" "accepted res"
      and t: "seen lg H tr (io(hr := io hr @ rq)) t" by (auto simp: admitted_def)
    have q: "?Q (Some ?c) u" if "seen lg H tr (io(hr := io hr @ rq)) u" for u
      using x that by (auto simp: admitted_def)
    show ?thesis
    proof (rule seen_log [OF t S(1)])
      fix u :: "'w st"
      assume u: "seen lg H tr (io(hr := io hr @ rq)) u"
      show "wp (socket_get_raw (c_shutdown c)) (\<lambda>raw0.
        wp (socket_get_raw (c_ui c)) (\<lambda>raw1. wp (log_app E (c_logs c) m2) (\<lambda>_.
        ?Q (Some \<lparr>c_shutdown = c_shutdown c, c_req = c_req c, c_receiver = c_receiver c, c_ui = c_ui c,
          c_logs = c_logs c, c_items = [poll_item raw0, poll_item raw1], c_username = cs ua\<rparr>)) F) F) F u"
        unfolding wp_socket_get_raw [OF seen_sock_at [OF u S(2)]] wp_socket_get_raw [OF seen_sock_at [OF u S(5)]]
          poll_item_def option.case c
        by (rule seen_log [OF u S(1)]) (use q in auto)
    qed
  qed
  show ?thesis
    unfolding controller_begin_def wp_seq wp_ret
  proof (rule wp_cstr_wholeI [OF assms(4)], rule wp_then [OF send_login_request_ok [OF assms(1-3)]],
      rule oob, assumption, rule nomem, assumption)
    fix r and t :: "'w st"
    assume "login_outcome E c lg H tr io hs hr hc hu (cs ua) r t"
    then show "wp (if r < 0 then ret None else bnd (log_app E (c_logs c)
        (''[ZMQClient][controller thread] login success as '' @ [CHR 0x27] @ cs ua @ [CHR 0x27] @ ''!'' @ [CHR 0x0A])) (\<lambda>_.
       bnd (socket_get_raw (c_shutdown c)) (\<lambda>raw0. bnd (socket_get_raw (c_ui c)) (\<lambda>raw1.
       bnd (log_app E (c_logs c) (''[ZMQClient][controller thread] loop start!'' @ [CHR 0x0A])) (\<lambda>_.
       ret (Some \<lparr>c_shutdown = c_shutdown c, c_req = c_req c, c_receiver = c_receiver c, c_ui = c_ui c,
          c_logs = c_logs c, c_items = [poll_item raw0, poll_item raw1], c_username = cs ua\<rparr>)))))) ?Q F t"
      unfolding login_outcome_def
    proof (elim disjE conjE)
      assume "r = ERROR_ZMQ_REQ_SEND" "refused E c lg H tr io hs hr hc hu (cs ua) t"
      then show ?thesis by (simp add: codes wp_ret)
    next
      assume r: "r = OK_ZMQ" and t: "admitted E lg H tr io hr (cs ua) t"
      have "\<not> r < 0" using r by (simp add: codes)
      then show ?thesis
        unfolding if_not_P [OF \<open>\<not> r < 0\<close>] wp_seq wp_ret by (intro go t)
    qed
  qed
qed

text \<open>
  How the thread ends: \<open>lo\<close> is the logout request with its reply, \<open>io\<close> what was exchanged
  before it.
\<close>

definition ended where
  "ended E c lg H tr io hs hr hc hu user t \<longleftrightarrow>
     (\<exists>lo res H' io'. exchange E hr (logout_request_env user) lo res \<and> remains (acked res) res H H' \<and>
       seen_off [hs, hr, hc, hu, lg] lg ((four_off c H')(the (c_logs c) := None)) tr io' t \<and>
       four_closed hs hr hc hu (io(hr := io hr @ lo)) io')"

lemma controller_end_ok:
  fixes E :: "'w ext"
  assumes "laws E" "ctl_at H c lg hs hr hc hu" "seen lg H tr io s"
    and oob: "\<not> fits E 4096 \<Longrightarrow> F OutOfBounds"
    and nomem: "\<not> malloc_law E \<Longrightarrow> F NullPointer"
  shows "wp (controller_end E c) (\<lambda>_. ended E c lg H tr io hs hr hc hu (c_username c)) F s"
  unfolding controller_end_def wp_seq wp_ret
proof (rule wp_then [OF logout_ok [OF assms(1-3)]], rule oob, assumption, rule nomem, assumption, elim exE conjE)
  fix r rq res H' and t :: "'w st"
  assume x: "exchange E hr (logout_request_env (c_username c)) rq res" "remains (acked res) res H H'"
    and t: "seen lg H' tr (io(hr := io hr @ rq)) t"
  note c' = ctl_at_remains [OF assms(2) x(2)]
  note S = ctl_atD [OF c']
  have l: "sock_in (four_off c H') (c_logs c) lg"
  proof -
    from S(1) obtain a where a: "c_logs c = Some a" "H' a = Some (BSock lg)" by (auto simp: sock_in_def)
    with S(2-9) have "a \<notin> set [the (c_shutdown c), the (c_req c), the (c_receiver c), the (c_ui c)]"
      by (auto simp: sock_in_def)
    with a show ?thesis by (simp add: sock_in_def four_off_def heap_off_apply)
  qed
  show "wp (clean_up E (c_shutdown c) (c_req c) (c_receiver c) (c_ui c)) (\<lambda>_. wp (log_app E (c_logs c)
      (''[ZMQClient][controller thread] exit'' @ [CHR 0x0A])) (\<lambda>_. wp (socket_destroy E (Some (c_logs c)))
      (\<lambda>_. ended E c lg H tr io hs hr hc hu (c_username c)) F) F) F t"
  proof (rule wp_then [OF clean_up_ok [OF c' t]], elim exE conjE)
    fix u :: "'w st" and x' io'
    assume u: "seen_off [hs, hr, hc, hu] lg (four_off c H') tr io' u" "four_closed hs hr hc hu (io(hr := io hr @ rq)) io'"
    show "wp (log_app E (c_logs c) (''[ZMQClient][controller thread] exit'' @ [CHR 0x0A]))
      (\<lambda>_. wp (socket_destroy E (Some (c_logs c))) (\<lambda>_. ended E c lg H tr io hs hr hc hu (c_username c)) F) F u"
      by (rule seen_log [OF u(1) l], erule seen_destroy_logs [OF _ l])
        (use x u(2) in \<open>unfold append.simps ended_def, blast\<close>)
  qed
qed

text \<open>An admitted session: the login, what the loop did, and the end.\<close>

definition completed where
  "completed E c lg H tr hs hr hc hu user t \<longleftrightarrow>
     (\<exists>rq res io. exchange E hr (login_request_env user) rq res \<and> accepted res \<and> ctl_left hr hc hu io \<and>
       ended E c lg H tr (\<lambda>h. (if h = hr then rq else []) @ io h) hs hr hc hu user t)"

lemma ctl_at_session [simp]:
  "ctl_at H (c\<lparr>c_items := i, c_username := u\<rparr>) lg hs hr hc hu = ctl_at H c lg hs hr hc hu"
  "four_off (c\<lparr>c_items := i, c_username := u\<rparr>) H = four_off c H"
  by (simp_all add: ctl_at_def four_off_def)

lemma controller_session_run:
  fixes E :: "'w ext" and s :: "'w st"
  defines "c' \<equiv> \<lambda>c hs hu ua. c\<lparr>c_items := [PollSocket hs, PollSocket hu], c_username := cs ua\<rparr>"
  assumes E: "laws E" "ctl_at (heap s) c lg hs hr hc hu" "heap_ok s"
    and begin1: "wp (controller_begin E (c_shutdown c) (c_req c) (c_receiver c) (c_ui c) (c_logs c) ua)
      (\<lambda>x t. (case x of None \<Rightarrow> refused E c lg (heap s) (trace s) (\<lambda>_. []) hs hr hc hu (cs ua) t
        | Some c1 \<Rightarrow> admitted E lg (heap s) (trace s) (\<lambda>_. []) hr (cs ua) t \<and> c1 = c' c hs hu ua) \<and> P t) F s"
    and loop: "\<And>t. P t \<Longrightarrow> ctl_inv E (c' c hs hu ua) (heap s) (trace t) lg hs hr hc hu t \<Longrightarrow>
      wp (forever fuel (controller_step E (c' c hs hu ua))) (\<lambda>_. ctl_post (heap s) (trace t) lg hr hc hu) F t"
    and oob: "\<not> fits E 4096 \<Longrightarrow> F OutOfBounds" and nomem: "\<not> malloc_law E \<Longrightarrow> F NullPointer"
  shows "wp (controller_session E fuel (c_shutdown c) (c_req c) (c_receiver c) (c_ui c) (c_logs c) ua)
    (\<lambda>_ t. refused E c lg (heap s) (trace s) (\<lambda>_. []) hs hr hc hu (cs ua) t \<or>
       completed E c lg (heap s) (trace s) hs hr hc hu (cs ua) t) F s"
  unfolding controller_session_def wp_seq
proof (rule wp_then [OF begin1], elim conjE)
  fix x and t :: "'w st"
  let ?H = "heap s" and ?tr = "trace s"
  assume x: "case x of None \<Rightarrow> refused E c lg ?H ?tr (\<lambda>_. []) hs hr hc hu (cs ua) t
        | Some c1 \<Rightarrow> admitted E lg ?H ?tr (\<lambda>_. []) hr (cs ua) t \<and> c1 = c' c hs hu ua" and P: "P t"
  show "wp (case x of None \<Rightarrow> ret () | Some c \<Rightarrow> bnd (forever fuel (controller_step E c)) (\<lambda>_. controller_end E c))
    (\<lambda>_ t. refused E c lg ?H ?tr (\<lambda>_. []) hs hr hc hu (cs ua) t \<or> completed E c lg ?H ?tr hs hr hc hu (cs ua) t) F t"
  proof (cases x)
    case None
    with x show ?thesis by (simp add: wp_ret)
  next
    case (Some c1)
    with x have c1: "c1 = c' c hs hu ua" and a: "admitted E lg ?H ?tr (\<lambda>_. []) hr (cs ua) t" by auto
    from a obtain rq res where r: "exchange E hr (login_request_env (cs ua)) rq res" "accepted res"
      and t: "seen lg ?H ?tr ((\<lambda>_. [])(hr := rq)) t" by (auto simp: admitted_def)
    have "ctl_io hr hc hu (\<lambda>_. [])" by (simp add: ctl_io_def req_idle ui_idle)
    then have inv: "ctl_inv E (c' c hs hu ua) ?H (trace t) lg hs hr hc hu t"
      unfolding ctl_inv_def c'_def using E(1,2) seen_restart [OF t] by auto
    have c'_at: "ctl_at ?H (c' c hs hu ua) lg hs hr hc hu" using E(2) by (simp add: c'_def)
    have "wp (forever fuel (controller_step E (c' c hs hu ua))) (\<lambda>_. wp (controller_end E (c' c hs hu ua))
        (\<lambda>_ t. refused E c lg ?H ?tr (\<lambda>_. []) hs hr hc hu (cs ua) t \<or>
          completed E c lg ?H ?tr hs hr hc hu (cs ua) t) F) F t"
    proof (rule wp_then [OF loop [OF P inv]])
      fix y and u :: "'w st"
      assume "ctl_post ?H (trace t) lg hr hc hu u"
      then obtain io where u: "seen lg ?H (trace t) io u" and io: "ctl_left hr hc hu io"
        by (auto simp: ctl_post_def)
      have u': "seen lg ?H ?tr (\<lambda>h. (if h = hr then rq else []) @ io h) u"
        using seen_trans [OF t u] by (simp add: fun_upd_def)
      show "wp (controller_end E (c' c hs hu ua))
        (\<lambda>_ t. refused E c lg ?H ?tr (\<lambda>_. []) hs hr hc hu (cs ua) t \<or>
          completed E c lg ?H ?tr hs hr hc hu (cs ua) t) F u"
      proof (rule wp_then [OF controller_end_ok [OF E(1) c'_at u']], rule oob, assumption, rule nomem, assumption, rule disjI2)
        fix z and v :: "'w st"
        assume "ended E (c' c hs hu ua) lg ?H ?tr (\<lambda>h. (if h = hr then rq else []) @ io h) hs hr hc hu
          (c_username (c' c hs hu ua)) v"
        then have "ended E c lg ?H ?tr (\<lambda>h. (if h = hr then rq else []) @ io h) hs hr hc hu (cs ua) v"
          by (simp add: ended_def c'_def)
        with r io show "completed E c lg ?H ?tr hs hr hc hu (cs ua) v"
          unfolding completed_def by blast
      qed
    qed
    then show ?thesis by (simp add: Some c1 wp_seq)
  qed
qed

lemma controller_session_partial:
  fixes E :: "'w ext" and s :: "'w st"
  assumes "laws E" "ctl_at (heap s) c lg hs hr hc hu" "heap_ok s" "has_cstr ua 0"
  shows "wp (controller_session E fuel (c_shutdown c) (c_req c) (c_receiver c) (c_ui c) (c_logs c) ua)
    (\<lambda>_ t. refused E c lg (heap s) (trace s) (\<lambda>_. []) hs hr hc hu (cs ua) t \<or>
       completed E c lg (heap s) (trace s) hs hr hc hu (cs ua) t) (\<lambda>f. ctl_fault E f \<or> f = OutOfFuel) s"
proof (rule controller_session_run [OF assms(1-3), where P = "\<lambda>_. True"])
  show "wp (controller_begin E (c_shutdown c) (c_req c) (c_receiver c) (c_ui c) (c_logs c) ua)
      (\<lambda>x t. (case x of None \<Rightarrow> refused E c lg (heap s) (trace s) (\<lambda>_. []) hs hr hc hu (cs ua) t
        | Some c1 \<Rightarrow> admitted E lg (heap s) (trace s) (\<lambda>_. []) hr (cs ua) t \<and>
            c1 = c\<lparr>c_items := [PollSocket hs, PollSocket hu], c_username := cs ua\<rparr>) \<and> True)
      (\<lambda>f. ctl_fault E f \<or> f = OutOfFuel) s"
    unfolding simp_thms by (rule controller_begin_ok [OF assms(1,2) seen_start [OF assms(3)] assms(4)]) simp_all
qed (auto intro: ctl.forever_partial)

lemma tame_controller_begin:
  assumes "steady E dl"
  shows "tame dl (controller_begin E p q r u l ua)"
  unfolding controller_begin_def send_login_request_def clean_up_def
  by (intro tame_intros tame_wrappers [OF assms] tame_handlers [OF assms])

lemma controller_session_total:
  fixes E :: "'w ext" and s :: "'w st"
  assumes "laws E" "ctl_at (heap s) c lg hs hr hc hu" "heap_ok s" "has_cstr ua 0"
    and "steady E dl" "winds_down E [PollSocket hs, PollSocket hu] 2000 hs dl" "dl (world s) < fuel"
  shows "wp (controller_session E fuel (c_shutdown c) (c_req c) (c_receiver c) (c_ui c) (c_logs c) ua)
    (\<lambda>_ t. refused E c lg (heap s) (trace s) (\<lambda>_. []) hs hr hc hu (cs ua) t \<or>
       completed E c lg (heap s) (trace s) hs hr hc hu (cs ua) t) (ctl_fault E) s"
proof (rule controller_session_run [OF assms(1-3), where P = "\<lambda>t. dl (world t) \<le> dl (world s)"])
  show "wp (controller_begin E (c_shutdown c) (c_req c) (c_receiver c) (c_ui c) (c_logs c) ua)
      (\<lambda>x t. (case x of None \<Rightarrow> refused E c lg (heap s) (trace s) (\<lambda>_. []) hs hr hc hu (cs ua) t
        | Some c1 \<Rightarrow> admitted E lg (heap s) (trace s) (\<lambda>_. []) hr (cs ua) t \<and>
            c1 = c\<lparr>c_items := [PollSocket hs, PollSocket hu], c_username := cs ua\<rparr>) \<and>
          dl (world t) \<le> dl (world s)) (ctl_fault E) s"
    by (rule tame_wp [OF tame_controller_begin [OF assms(5)]],
        rule controller_begin_ok [OF assms(1,2) seen_start [OF assms(3)] assms(4)]) simp_all
next
  fix t :: "'w st"
  let ?c = "c\<lparr>c_items := [PollSocket hs, PollSocket hu], c_username := cs ua\<rparr>"
  assume "dl (world t) \<le> dl (world s)" "ctl_inv E ?c (heap s) (trace t) lg hs hr hc hu t"
  then show "wp (forever fuel (controller_step E ?c)) (\<lambda>_. ctl_post (heap s) (trace t) lg hr hc hu)
      (ctl_fault E) t"
    using assms(5-7) by (intro ctl_ends.forever_total [where dl = dl]) auto
qed simp_all

text \<open>The loop of the sample server is left at its first poll.\<close>

lemma sim_server_loop:
  assumes "ctl_inv (sim_server line reply e) c H tr lg hs hr hc hu s"
  shows "wp (forever (Suc n) (controller_step (sim_server line reply e) c)) (\<lambda>_. ctl_post H tr lg hr hc hu) F s"
proof -
  from assms obtain io where c: "ctl_at H c lg hs hr hc hu" and s: "seen lg H tr io s" and io: "ctl_io hr hc hu io"
    by (auto simp: ctl_inv_def)
  note l = ctl_atD(1) [OF c]
  have post: "ctl_post H tr lg hr hc hu t" if "seen lg H tr io t" for t
    using that ctl_io_left [OF io] by (auto simp: ctl_post_def)
  have poll: "seen lg H tr io (t\<lparr>world := world t, trace := trace t @ [ZPoll (-1) []]\<rparr>)" if "seen lg H tr io t" for t
    by (rule seen_quiet [OF that, where es = "[ZPoll (-1) []]"]) simp_all
  show ?thesis
    unfolding forever.simps controller_step_def wp_seq
    by (rule seen_log [OF s l], drule poll)
      (simp add: wp_z_poll wp_seq wp_gets wp_ret, erule seen_log [OF _ l], erule post)
qed

end
