(* ===== verification/Thread_Properties.thy ===== *)
theory Thread_Properties
  imports Controller_Thread
begin

text \<open>The properties of the controller thread as a whole.\<close>

text \<open>
  The shutdown channel: \<open>handle_shutdown_message\<close> receives once, changes nothing else and
  never faults, whatever arrives; it tells the thread to stop exactly when the text received
  (cut at 63 bytes) is \<open>KILL_CONTROLLER\<close>.
\<close>

theorem handle_shutdown_message_effect:
  assumes "recv_law E" "heap_ok s" "sock_in (heap s) p hs" "sock_in (heap s) l lg" "hs \<noteq> lg"
  shows "wp (handle_shutdown_message E p l)
    (\<lambda>r t. heap t = heap s \<and> (\<exists>n d es. trace t = trace s @ es \<and> io_on hs es = [ZRecv hs n d] \<and>
       (\<exists>w. x_recv E hs 63 0 (world s) = ((n, d), w)) \<and>
       (if 0 < n \<and> cs d = CHAT_MESSAGE_KILL_CONTROLLER then r = -1 else r = OK_ZMQ)))
    no_fault s"
proof (rule wp_then [OF handle_shutdown_message_ok [OF assms(1,3,4,5) seen_start [OF assms(2)]]], elim exE conjE)
  fix r t n d w
  assume x: "x_recv E hs 63 0 (world s) = ((n, d), w)"
    "r = (if 0 < n \<and> cs d = CHAT_MESSAGE_KILL_CONTROLLER then - 1 else OK_ZMQ)"
    and t: "seen lg (heap s) (trace s) ((\<lambda>_. [])(hs := [] @ [ZRecv hs n d])) t"
  from seenD [OF t] assms(5) obtain es where "heap t = heap s" "trace t = trace s @ es" "io_on hs es = [ZRecv hs n d]"
    by auto
  with x show "heap t = heap s \<and> (\<exists>n d es. trace t = trace s @ es \<and> io_on hs es = [ZRecv hs n d] \<and>
       (\<exists>w. x_recv E hs 63 0 (world s) = ((n, d), w)) \<and>
       (if 0 < n \<and> cs d = CHAT_MESSAGE_KILL_CONTROLLER then r = -1 else r = OK_ZMQ))"
    by (intro conjI exI [of _ n] exI [of _ d] exI [of _ es]) auto
qed

theorem handle_shutdown_message_effect_witness:
  "\<exists>t. handle_shutdown_message sim_short (Some 1) (Some 0)
     (sim_sockets (empty_script\<lparr>inbox := [CHAT_MESSAGE_KILL_CONTROLLER]\<rparr>)) = Inr (-1, t)"
proof -
  let ?s = "sim_sockets (empty_script\<lparr>inbox := [CHAT_MESSAGE_KILL_CONTROLLER]\<rparr>)"
  have "sock_in (heap ?s) (Some 1) 11" "sock_in (heap ?s) (Some 0) 10" by (simp_all add: sock_in_def)
  moreover have "nul_free CHAT_MESSAGE_KILL_CONTROLLER" "length CHAT_MESSAGE_KILL_CONTROLLER = 15"
    by (simp_all add: CHAT_MESSAGE_KILL_CONTROLLER_def NUL_def)
  ultimately show ?thesis
    using wp_runs [OF handle_shutdown_message_effect [of sim_short ?s "Some 1" 11 "Some 0" 10]]
    by (auto simp: cs_id)
qed

text \<open>
  C34. Login: the request carries the user name and version 1.0.0. When the reply that was
  received decodes to an accepted login, no socket but the REQ socket is used, none is closed and
  memory is as before; in every other case the error code is returned, every socket but the one
  for the logs is closed, once, and its wrapper released, and the reply, if one was decoded,
  stays allocated.
\<close>

theorem send_login_request_outcome:
  assumes "laws E" "ctl_at (heap s) c lg hs hr hc hu" "heap_ok s"
  shows "wp (send_login_request E (c_shutdown c) (c_req c) (c_receiver c) (c_ui c) user (c_logs c))
    (\<lambda>r t. \<exists>es res. trace t = trace s @ es \<and>
       (if accepted res
        then r = OK_ZMQ \<and> heap t = heap s \<and> exchange E hr (login_request_env user) (io_on hr es) res \<and>
          (\<forall>h \<in> {hs, hc, hu}. io_on h es = []) \<and> sockets_closed es = []
        else r = ERROR_ZMQ_REQ_SEND \<and> (\<exists>H. remains False res (heap s) H \<and> heap t = four_off c H) \<and>
          (\<exists>rq. exchange E hr (login_request_env user) rq res \<and> closes hr rq (io_on hr es)) \<and>
          (\<forall>h \<in> {hs, hc, hu}. closes h [] (io_on h es)) \<and> sockets_closed es = [hs, hr, hc, hu]))
    (\<lambda>f. f = OutOfBounds \<and> \<not> fits E 4096 \<or> f = NullPointer \<and> \<not> malloc_law E) s"
proof (rule wp_then [OF send_login_request_ok [OF assms(1,2) seen_start [OF assms(3)]]], simp, simp)
  note S = ctl_atD [OF assms(2)]
  fix r t
  assume "login_outcome E c lg (heap s) (trace s) (\<lambda>_. []) hs hr hc hu user r t"
  then show "\<exists>es res. trace t = trace s @ es \<and>
       (if accepted res
        then r = OK_ZMQ \<and> heap t = heap s \<and> exchange E hr (login_request_env user) (io_on hr es) res \<and>
          (\<forall>h \<in> {hs, hc, hu}. io_on h es = []) \<and> sockets_closed es = []
        else r = ERROR_ZMQ_REQ_SEND \<and> (\<exists>H. remains False res (heap s) H \<and> heap t = four_off c H) \<and>
          (\<exists>rq. exchange E hr (login_request_env user) rq res \<and> closes hr rq (io_on hr es)) \<and>
          (\<forall>h \<in> {hs, hc, hu}. closes h [] (io_on h es)) \<and> sockets_closed es = [hs, hr, hc, hu])"
    unfolding login_outcome_def
  proof (elim disjE conjE)
    assume r: "r = OK_ZMQ" and "admitted E lg (heap s) (trace s) (\<lambda>_. []) hr user t"
    then obtain rq res where x: "exchange E hr (login_request_env user) rq res" "accepted res"
      and t: "seen lg (heap s) (trace s) ((\<lambda>_. [])(hr := rq)) t" by (auto simp: admitted_def)
    from seenD [OF t] S obtain es where "heap t = heap s" "trace t = trace s @ es" "io_on hr es = rq"
      "io_on hs es = []" "io_on hc es = []" "io_on hu es = []" "sockets_closed es = []" by auto
    with r x show ?thesis by (intro exI [of _ es] exI [of _ res]) simp
  next
    assume r: "r = ERROR_ZMQ_REQ_SEND" and "refused E c lg (heap s) (trace s) (\<lambda>_. []) hs hr hc hu user t"
    then obtain rq res H' io' where x: "exchange E hr (login_request_env user) rq res" "\<not> accepted res"
        "remains False res (heap s) H'" and t: "seen_off [hs, hr, hc, hu] lg (four_off c H') (trace s) io' t"
      and c: "four_closed hs hr hc hu ((\<lambda>_. [])(hr := rq)) io'" by (auto simp: refused_def)
    from t obtain es where es: "heap t = four_off c H'" "trace t = trace s @ es" "\<And>h. h \<noteq> lg \<Longrightarrow> io_on h es = io' h"
        "sockets_closed es = [hs, hr, hc, hu]"
      by (auto simp: seen_def)
    have "closes hr rq (io_on hr es)" "\<forall>h \<in> {hs, hc, hu}. closes h [] (io_on h es)"
      using c S es(3) by (auto simp: four_closed_def)
    with r x es show ?thesis by (intro exI [of _ es] exI [of _ res]) auto
  qed
qed

text \<open>A reply that accepts a login, and the sample thread with its sockets.\<close>

definition sim_welcome :: envelope where
  "sim_welcome = \<lparr>message_id = [], payload = LOGIN_RESP \<lparr>login_resp_status = STATUS_OK, login_resp_session_token = [], login_resp_error_message = []\<rparr>\<rparr>"

lemma sim_welcome [simp]: "payload sim_welcome = LOGIN_RESP
    \<lparr>login_resp_status = STATUS_OK, login_resp_session_token = [], login_resp_error_message = []\<rparr>"
  by (simp add: sim_welcome_def)

theorem send_login_request_outcome_witness:
  "\<exists>t. send_login_request (sim_server [] ''r'' sim_welcome) (Some 1) (Some 2) (Some 3) (Some 4) ''bob'' (Some 0)
     (sim_sockets empty_script) = Inr (OK_ZMQ, t) \<and> heap t = heap (sim_sockets empty_script)"
proof -
  let ?E = "sim_server [] ''r'' sim_welcome" and ?s = "sim_sockets empty_script"
  have "wp (send_login_request ?E (Some 1) (Some 2) (Some 3) (Some 4) ''bob'' (Some 0))
      (\<lambda>r t. r = OK_ZMQ \<and> heap t = heap ?s) no_fault ?s"
    using send_login_request_outcome [OF sim_server_laws(1) sim_ctl_at [of empty_script], of "[]" "''r''" sim_welcome "''bob''"]
    by (auto elim!: wp_mono dest!: sim_server_replies split: if_splits)
  then show ?thesis by (fastforce dest!: wp_runs)
qed

text \<open>
  C3. The main loop, however often it goes round: memory is as before; on the REQ socket each
  request that could be sent is followed at once by the receive of its reply; the receiver
  thread is only sent to; each command read from the UI is answered by one message before the
  next one is read, only the last command may be left unanswered. The only faults are an access
  outside an array and the unchecked \<open>malloc\<close>.
\<close>

theorem controller_loop_dialogue:
  assumes "laws E" "ctl_at (heap s) c lg hs hr hc hu" "heap_ok s"
  shows "wp (forever n (controller_step E c))
    (\<lambda>_ t. heap t = heap s \<and> (\<exists>es. trace t = trace s @ es \<and> req_dialogue hr (io_on hr es) \<and>
       only_sends hc (io_on hc es) \<and> ui_left hu (io_on hu es)))
    (\<lambda>f. ctl_fault E f \<or> f = OutOfFuel) s"
proof -
  note S = ctl_atD [OF assms(2)]
  have "ctl_inv E c (heap s) (trace s) lg hs hr hc hu s"
    unfolding ctl_inv_def ctl_io_def using assms seen_start [OF assms(3)]
    by (intro conjI exI [of _ "\<lambda>_. []"]) (auto intro: req_idle ui_idle)
  then show ?thesis
    by (rule wp_then [OF ctl.forever_partial]) (use S in \<open>auto simp: ctl_post_def ctl_left_def seen_def\<close>)
qed

theorem controller_loop_dialogue_witness:
  "case forever 3 (controller_step sim_short sim_ctl) (sim_sockets empty_script) of
     Inl f \<Rightarrow> f = OutOfBounds \<or> f = OutOfFuel | Inr (_, t) \<Rightarrow> heap t = heap (sim_sockets empty_script)"
  using controller_loop_dialogue [OF sim_laws(1) sim_ctl_at [of empty_script], of 3]
  by (auto simp: wp_def split: sum.splits prod.splits)

text \<open>
  The main loop ends: if the environment winds down (its measure drops with each poll until
  a poll fails or the shutdown message is there), fuel beyond the measure is enough.
\<close>

theorem controller_loop_ends:
  assumes "laws E" "ctl_at (heap s) c lg hs hr hc hu" "heap_ok s"
    and "steady E dl" "winds_down E (c_items c) 2000 hs dl" "dl (world s) < n"
  shows "wp (forever n (controller_step E c)) (\<lambda>_ t. heap t = heap s) (ctl_fault E) s"
proof -
  have "ctl_inv E c (heap s) (trace s) lg hs hr hc hu s"
    unfolding ctl_inv_def ctl_io_def using assms seen_start [OF assms(3)]
    by (intro conjI exI [of _ "\<lambda>_. []"]) (auto intro: req_idle ui_idle)
  with assms(4-6) show ?thesis
    by (intro wp_then [OF ctl_ends.forever_total [where dl = dl]]) (auto simp: ctl_post_def seen_def)
qed

theorem controller_loop_ends_witness:
  "forever 2 (controller_step sim_short sim_ctl) (sim_sockets (empty_script\<lparr>polls := [(0, [])]\<rparr>)) \<noteq> Inl OutOfFuel"
  using controller_loop_ends [OF sim_laws(1) sim_ctl_at [of "empty_script\<lparr>polls := [(0, [])]\<rparr>"] _ sim_steady sim_winds_down, of 2]
  by (auto simp: wp_def empty_script_def)

text \<open>
  C2. A whole session: the login comes first. If it is refused (or there is no reply that decodes),
  the four sockets but the one for the logs are closed, each once, and their wrappers released; the
  socket for the logs and the reply are left (\<open>refused\<close>). Otherwise the loop's dialogue follows, then
  the logout request, then all five sockets are closed, each once, and their wrappers released; of
  the heap only a logout reply that is no acknowledgement is left over (\<open>completed\<close>). No socket is
  opened and no other is closed.
\<close>

theorem controller_session_protocol:
  assumes "laws E" "ctl_at (heap s) c lg hs hr hc hu" "heap_ok s" "has_cstr ua 0"
  shows "wp (controller_session E fuel (c_shutdown c) (c_req c) (c_receiver c) (c_ui c) (c_logs c) ua)
    (\<lambda>_ t. \<exists>es. trace t = trace s @ es \<and> sockets_opened es = [] \<and>
       (refused E c lg (heap s) (trace s) (\<lambda>_. []) hs hr hc hu (cs ua) t \<and> sockets_closed es = [hs, hr, hc, hu] \<or>
        completed E c lg (heap s) (trace s) hs hr hc hu (cs ua) t \<and> sockets_closed es = [hs, hr, hc, hu, lg]))
    (\<lambda>f. ctl_fault E f \<or> f = OutOfFuel) s"
  by (rule wp_then [OF controller_session_partial [OF assms]])
    (fastforce simp: refused_def completed_def ended_def dest!: seenD)

theorem controller_session_protocol_witness:
  "\<exists>t. controller_session (sim_server [] ''r'' sim_welcome) 3 (Some 1) (Some 2) (Some 3) (Some 4) (Some 0) (''bob'' @ [NUL])
       (sim_sockets empty_script) = Inr ((), t) \<and> sockets_closed (trace t) = [11, 12, 13, 14, 10] \<and>
     completed (sim_server [] ''r'' sim_welcome) sim_ctl 10 (heap (sim_sockets empty_script)) [] 11 12 13 14 ''bob'' t"
proof -
  let ?E = "sim_server [] ''r'' sim_welcome" and ?s = "sim_sockets empty_script"
  have "nul_free ''bob''" by (simp add: NUL_def)
  then have ua: "has_cstr (''bob'' @ [NUL]) 0" "cs (''bob'' @ [NUL]) = ''bob''"
    unfolding cs_terminated by (simp_all only: has_cstr_def cs_id) simp
  have no: "\<not> refused ?E sim_ctl 10 (heap ?s) [] (\<lambda>_. []) 11 12 13 14 ''bob'' t" for t
    by (auto simp: refused_def dest!: sim_server_replies)
  have loop: "wp (forever 3 (controller_step ?E c)) (\<lambda>_. ctl_post H tr lg hr hc hu) no_fault t"
    if "ctl_inv ?E c H tr lg hs hr hc hu t" for c H tr lg hs hr hc hu t
    using sim_server_loop [OF that, of 2] by (simp add: numeral_3_eq_3)
  have begin1: "wp (controller_begin ?E (c_shutdown sim_ctl) (c_req sim_ctl) (c_receiver sim_ctl) (c_ui sim_ctl)
      (c_logs sim_ctl) (''bob'' @ [NUL]))
    (\<lambda>x t. (case x of None \<Rightarrow> refused ?E sim_ctl 10 (heap ?s) (trace ?s) (\<lambda>_. []) 11 12 13 14 (cs (''bob'' @ [NUL])) t
      | Some c1 \<Rightarrow> admitted ?E 10 (heap ?s) (trace ?s) (\<lambda>_. []) 12 (cs (''bob'' @ [NUL])) t \<and>
          c1 = sim_ctl\<lparr>c_items := [PollSocket 11, PollSocket 14], c_username := cs (''bob'' @ [NUL])\<rparr>) \<and> True) no_fault ?s"
    unfolding simp_thms
    by (rule controller_begin_ok [OF sim_server_laws(1) sim_ctl_at seen_start ua(1)]) simp_all
  have "wp (controller_session ?E 3 (Some 1) (Some 2) (Some 3) (Some 4) (Some 0) (''bob'' @ [NUL])) (\<lambda>_ _. True) no_fault ?s"
    by (rule wp_then [OF controller_session_run [OF sim_server_laws(1) sim_ctl_at [of empty_script] sim_sockets_simps(5) begin1,
      of 3, unfolded sim_ctl_simps]]) (auto intro: loop)
  then obtain t where run: "controller_session ?E 3 (Some 1) (Some 2) (Some 3) (Some 4) (Some 0) (''bob'' @ [NUL]) ?s = Inr ((), t)"
    by (auto dest!: wp_runs)
  from controller_session_protocol [OF sim_server_laws(1) sim_ctl_at [of empty_script] _ ua(1), of "[]" "''r''" sim_welcome 3]
  show ?thesis using run no ua(2) by (auto simp: wp_def)
qed

text \<open>
  C27. The session ends: in an environment that winds down, the fuel that its measure gives is
  enough for the whole thread, from the login to the last socket.
\<close>

theorem controller_session_ends:
  assumes "laws E" "ctl_at (heap s) c lg hs hr hc hu" "heap_ok s" "has_cstr ua 0"
    and "steady E dl" "winds_down E [PollSocket hs, PollSocket hu] 2000 hs dl" "dl (world s) < fuel"
  shows "controller_session E fuel (c_shutdown c) (c_req c) (c_receiver c) (c_ui c) (c_logs c) ua s \<noteq> Inl OutOfFuel"
  using controller_session_total [OF assms] by (auto simp: wp_def)

theorem controller_session_ends_witness:
  "controller_session sim_short 2 (Some 1) (Some 2) (Some 3) (Some 4) (Some 0) (''bob'' @ [NUL])
     (sim_sockets (empty_script\<lparr>polls := [(0, [])]\<rparr>)) \<noteq> Inl OutOfFuel"
proof -
  have "has_cstr (''bob'' @ [NUL]) 0" by (simp add: has_cstr_def)
  then show ?thesis
    using controller_session_ends [OF sim_laws(1) sim_ctl_at [of "empty_script\<lparr>polls := [(0, [])]\<rparr>"] _ _ sim_steady sim_winds_down]
    by simp
qed

end
