(* ===== verification/Receiver.thy ===== *)
theory Receiver
  imports Dialogue
begin

text \<open>
  \<open>client/chat_client_receiver.c\<close>: the thread that subscribes to the server's PUB socket. Its loop
  serves the shutdown channel, the published messages, which it formats for the UI, and the
  instructions of the controller to subscribe to a room or to leave it.
\<close>

section \<open>Texts\<close>

definition TXT_PUB_FAILED :: string where
  "TXT_PUB_FAILED = ''[ZMQClient][receiver thread] B'' @ [CHR 0xC5, CHR 0x82, CHR 0xC4, CHR 0x85] @ ''d po''
     @ [CHR 0xC5, CHR 0x82, CHR 0xC4, CHR 0x85] @ ''czenia z PUB''"
definition TXT_COMMAND_FAILED :: string where
  "TXT_COMMAND_FAILED = ''[receiver thread] B'' @ [CHR 0xC5, CHR 0x82, CHR 0xC4, CHR 0x85] @ ''d po''
     @ [CHR 0xC5, CHR 0x82, CHR 0xC4, CHR 0x85] @ ''czenia z CONTROLLER_RECEIVER_COMMAND_ADDRESS''"
definition TXT_UI_FAILED :: string where
  "TXT_UI_FAILED = ''[receiver thread] B'' @ [CHR 0xC5, CHR 0x82, CHR 0xC4, CHR 0x85] @ ''d po''
     @ [CHR 0xC5, CHR 0x82, CHR 0xC4, CHR 0x85] @ ''czenia z UI_NOTIF_ADDRESS''"

section \<open>Handlers\<close>

text \<open>The static \<open>log_app\<close> of this file has the body of the one in the controller.\<close>

definition log_app_receiver :: "'w ext \<Rightarrow> ptr \<Rightarrow> string \<Rightarrow> ('w st, unit) prog" where
  "log_app_receiver E socket_push_logs msg =
     bnd (local_array E 1024) (\<lambda>body0.
     bnd (snprintf_at body0 0 1024 msg) (\<lambda>(body, _).
     bnd (local_array E 1100) (\<lambda>full0.
     bnd (cstr_at body 0) (\<lambda>b.
     bnd (snprintf_at full0 0 1100 b) (\<lambda>(full_log, _).
     bnd (cstr_at full_log 0) (\<lambda>f.
     bnd (socket_send E socket_push socket_push_logs full_log (length f) ZMQ_DONTWAIT) (\<lambda>_.
     ret ())))))))"

text \<open>\<open>handle_chat_message\<close>: a published message has two frames, the topic and the envelope.\<close>

definition handle_chat_message :: "'w ext \<Rightarrow> ptr \<Rightarrow> ptr \<Rightarrow> ('w st, unit) prog" where
  "handle_chat_message E socket_sub_chat socket_pair_ui_notification =
     bnd (local_array E 256) (\<lambda>topic_buffer.
     bnd (socket_recv E socket_sub socket_sub_chat topic_buffer 255 0) (\<lambda>(topic_len, topic_buffer).
     if topic_len \<le> 0 then ret ()
     else
       bnd (poke topic_buffer topic_len NUL) (\<lambda>_.
       bnd (local_array E 2048) (\<lambda>data_buffer.
       bnd (socket_recv E socket_sub socket_sub_chat data_buffer 2048 0) (\<lambda>(data_len, data_buffer).
       if data_len \<le> 0 then ret ()
       else
         bnd (read_bytes data_buffer (nat data_len)) (\<lambda>d.
         bnd (pb_unpack E d) (\<lambda>envelope.
         if envelope = None then ret ()
         else
           bnd (load_env envelope) (\<lambda>env.
           bnd (local_array E 1024) (\<lambda>formatted_msg.
           bnd (poke formatted_msg 0 NUL) (\<lambda>formatted_msg.
           bnd (case payload env of
                  ROOM_MSG msg \<Rightarrow> bnd (snprintf_at formatted_msg 0 1024
                    (''[ROOM #'' @ cs (room_msg_room_name msg) @ ''] '' @ cs (room_msg_sender_username msg) @
                     '': '' @ cs (room_msg_content msg))) (\<lambda>(b, _). ret b)
                | DIRECT_MSG dm \<Rightarrow> bnd (snprintf_at formatted_msg 0 1024
                    (''[DM from '' @ cs (direct_msg_sender_username dm) @ '']: '' @ cs (direct_msg_content dm)))
                    (\<lambda>(b, _). ret b)
                | SYSTEM_NOTIF sys \<Rightarrow> bnd (snprintf_at formatted_msg 0 1024
                    (''[SYSTEM #'' @ cs (notif_room_name sys) @ '']: '' @ cs (notif_message sys)))
                    (\<lambda>(b, _). ret b)
                | _ \<Rightarrow> ret formatted_msg) (\<lambda>formatted_msg.
           bnd (cstr_at formatted_msg 0) (\<lambda>text.
           bnd (only_if (0 < length text)
             (bnd (socket_send E socket_pair socket_pair_ui_notification formatted_msg (length text) 0)
               (\<lambda>_. ret ()))) (\<lambda>_.
           free envelope)))))))))))))"

definition handle_command :: "'w ext \<Rightarrow> ptr \<Rightarrow> ptr \<Rightarrow> ptr \<Rightarrow> ('w st, unit) prog" where
  "handle_command E socket_pair_controller_command socket_sub_chat socket_push_logs =
     bnd (log_app_receiver E socket_push_logs (''[ZMQClient][receiver thread] handle_command'' @ [CHR 0x0A])) (\<lambda>_.
     bnd (local_array E 256) (\<lambda>ctrl_buf.
     bnd (socket_recv E socket_pair socket_pair_controller_command ctrl_buf 255 0) (\<lambda>(len, ctrl_buf).
     if len > 0 then
       bnd (poke ctrl_buf len NUL) (\<lambda>ctrl_buf.
       if ctrl_buf ! 0 = CHR ''+'' then
         bnd (cstr_at ctrl_buf 1) (\<lambda>topic.
         bnd (socket_sub_subscribe E socket_sub_chat topic) (\<lambda>_. ret ()))
       else if ctrl_buf ! 0 = CHR ''-'' then
         bnd (cstr_at ctrl_buf 1) (\<lambda>topic.
         bnd (socket_sub_unsubscribe E socket_sub_chat topic) (\<lambda>_. ret ()))
       else ret ())
     else ret ())))"

definition clean_up_receiver :: "'w ext \<Rightarrow> ptr \<Rightarrow> ptr \<Rightarrow> ptr \<Rightarrow> ptr \<Rightarrow> ('w st, unit) prog" where
  "clean_up_receiver E socket_sub_shutdown socket_sub_chat socket_pair_controller_command
     socket_pair_ui_notification =
     bnd (socket_destroy E (Some socket_sub_shutdown)) (\<lambda>_.
     bnd (socket_destroy E (Some socket_sub_chat)) (\<lambda>_.
     bnd (socket_destroy E (Some socket_pair_controller_command)) (\<lambda>_.
     bnd (socket_destroy E (Some socket_pair_ui_notification)) (\<lambda>_. ret ()))))"

text \<open>It waits for \<open>KILL_CONTROLLER\<close>, not for \<open>KILL_RECEIVER\<close>.\<close>

definition handle_shutdown_message_receiver :: "'w ext \<Rightarrow> ptr \<Rightarrow> ptr \<Rightarrow> ('w st, int) prog" where
  "handle_shutdown_message_receiver E socket_sub_shutdown socket_push_logs =
     bnd (socket_recv E socket_sub socket_sub_shutdown (replicate 64 NUL) 63 0) (\<lambda>(bytes, shutdown_msg).
     if bytes > 0 then
       let bytes = (if bytes \<ge> 64 then 63 else bytes) in
       bnd (poke shutdown_msg bytes NUL) (\<lambda>shutdown_msg.
       bnd (cstr_at shutdown_msg 0) (\<lambda>m.
       if m = CHAT_MESSAGE_KILL_CONTROLLER then
         bnd (log_app_receiver E socket_push_logs (''[ZMQClient][receiver thread] received KILL signal. shutting down cleanly...'' @ [CHR 0x0A])) (\<lambda>_.
         ret (-1))
       else ret 0))
     else ret 0)"

section \<open>The thread\<close>

record rcv_env =
  r_shutdown :: ptr
  r_chat :: ptr
  r_command :: ptr
  r_ui :: ptr
  r_logs :: ptr
  r_items :: "pollitem list"

definition receiver_step :: "'w ext \<Rightarrow> rcv_env \<Rightarrow> ('w st, bool) prog" where
  "receiver_step E c =
     bnd (log_app_receiver E (r_logs c) (''[ZMQClient][receiver thread] waiting...'' @ [CHR 0x0A])) (\<lambda>_.
     bnd (z_poll E (r_items c) (-1)) (\<lambda>(rc, revents).
     if rc < 0 then ret False
     else
       bnd (if readable revents 0 then handle_shutdown_message_receiver E (r_shutdown c) (r_logs c)
            else ret 0) (\<lambda>stop.
       if stop < 0 then ret False
       else
         bnd (only_if (readable revents 1) (handle_chat_message E (r_chat c) (r_ui c))) (\<lambda>_.
         bnd (only_if (readable revents 2) (handle_command E (r_command c) (r_chat c) (r_logs c))) (\<lambda>_.
         ret True)))))"

text \<open>From the first subscriptions to the loop, the loop and the statements behind it.\<close>

definition receiver_begin :: "'w ext \<Rightarrow> ptr \<Rightarrow> ptr \<Rightarrow> ptr \<Rightarrow> ptr \<Rightarrow> ptr \<Rightarrow> string \<Rightarrow> ('w st, rcv_env) prog" where
  "receiver_begin E socket_sub_shutdown socket_sub_chat socket_pair_controller_command
     socket_pair_ui_notification socket_push_logs user_array =
     bnd (local_array E 128) (\<lambda>user_topic.
     bnd (local_array E 128) (\<lambda>room_general.
     bnd (cstr_at user_array 0) (\<lambda>username.
     bnd (snprintf_at user_topic 0 128 (CHAT_TOPIC_USER username)) (\<lambda>(user_topic, _).
     bnd (snprintf_at room_general 0 128 CHAT_TOPIC_GENERAL) (\<lambda>(room_general, _).
     bnd (cstr_at user_topic 0) (\<lambda>topic.
     bnd (socket_sub_subscribe E socket_sub_chat topic) (\<lambda>_.
     bnd (cstr_at room_general 0) (\<lambda>topic.
     bnd (socket_sub_subscribe E socket_sub_chat topic) (\<lambda>_.
     bnd (socket_get_raw socket_sub_shutdown) (\<lambda>raw0.
     bnd (socket_get_raw socket_sub_chat) (\<lambda>raw1.
     bnd (socket_get_raw socket_pair_controller_command) (\<lambda>raw2.
     bnd (log_app_receiver E socket_push_logs (''[ZMQClient][receiver thread] loop start!'' @ [CHR 0x0A])) (\<lambda>_.
     ret \<lparr>r_shutdown = socket_sub_shutdown, r_chat = socket_sub_chat,
          r_command = socket_pair_controller_command, r_ui = socket_pair_ui_notification,
          r_logs = socket_push_logs, r_items = [poll_item raw0, poll_item raw1, poll_item raw2]\<rparr>)))))))))))))"

definition receiver_end :: "'w ext \<Rightarrow> rcv_env \<Rightarrow> ('w st, unit) prog" where
  "receiver_end E c =
     bnd (clean_up_receiver E (r_shutdown c) (r_chat c) (r_command c) (r_ui c)) (\<lambda>_.
     bnd (log_app_receiver E (r_logs c) (''[ZMQClient][receiver thread] exit'' @ [CHR 0x0A])) (\<lambda>_.
     bnd (socket_destroy E (Some (r_logs c))) (\<lambda>_. ret ())))"

definition receiver_session ::
    "'w ext \<Rightarrow> nat \<Rightarrow> ptr \<Rightarrow> ptr \<Rightarrow> ptr \<Rightarrow> ptr \<Rightarrow> ptr \<Rightarrow> string \<Rightarrow> ('w st, unit) prog" where
  "receiver_session E fuel socket_sub_shutdown socket_sub_chat socket_pair_controller_command
     socket_pair_ui_notification socket_push_logs user_array =
     bnd (receiver_begin E socket_sub_shutdown socket_sub_chat socket_pair_controller_command
       socket_pair_ui_notification socket_push_logs user_array) (\<lambda>c.
     bnd (forever fuel (receiver_step E c)) (\<lambda>_. receiver_end E c))"

definition routine_chat_receiver :: "'w ext \<Rightarrow> nat \<Rightarrow> ptr \<Rightarrow> ('w st, unit) prog" where
  "routine_chat_receiver E fuel arg =
     bnd (load_args arg) (\<lambda>(context, user_array).
     bnd (socket_new E socket_push context) (\<lambda>socket_push_logs.
     bnd (socket_connect E socket_push socket_push_logs APP_LOGS_ADDRESS) (\<lambda>rc.
     if rc \<noteq> 0 then
       bnd (perror E (''[ZMQClient][controller thread] connect inproc://app_log error'')) (\<lambda>_.
       bnd (socket_destroy E (Some socket_push_logs)) (\<lambda>_. ret ()))
     else
     bnd (log_app_receiver E socket_push_logs (''[ZMQClient][receiver thread] start subscriber_routine'' @ [CHR 0x0A])) (\<lambda>_.
     bnd (socket_new E socket_sub context) (\<lambda>socket_sub_shutdown.
     bnd (socket_connect E socket_sub socket_sub_shutdown INPROC_SHUTDOWN_ADDR) (\<lambda>rc.
     if rc = -1 then
       bnd (log_error E socket_push_logs (''[ZMQClient][receiver thread] shutdown socket connect failed: '')) (\<lambda>_.
       clean_up_receiver E socket_sub_shutdown None None None)
     else
     bnd (socket_sub_subscribe E socket_sub_shutdown []) (\<lambda>rc.
     if rc \<noteq> 0 then
       bnd (log_error E socket_push_logs (''[ZMQClient][UI Thread] shutdown socket subscribe failed: '')) (\<lambda>_.
       clean_up_receiver E socket_sub_shutdown None None None)
     else
     bnd (socket_new E socket_sub context) (\<lambda>socket_sub_chat.
     bnd (socket_connect E socket_sub socket_sub_chat CHAT_SERVER_SUB_ADDRESS) (\<lambda>rc.
     if rc \<noteq> 0 then
       bnd (log_app_receiver E socket_push_logs TXT_PUB_FAILED) (\<lambda>_.
       clean_up_receiver E socket_sub_shutdown socket_sub_chat None None)
     else
     bnd (socket_new E socket_pair context) (\<lambda>socket_pair_controller_command.
     bnd (socket_connect E socket_pair socket_pair_controller_command CONTROLLER_RECEIVER_COMMAND_ADDRESS) (\<lambda>rc.
     if rc \<noteq> 0 then
       bnd (log_app_receiver E socket_push_logs TXT_COMMAND_FAILED) (\<lambda>_.
       clean_up_receiver E socket_sub_shutdown socket_sub_chat socket_pair_controller_command None)
     else
     bnd (socket_new E socket_pair context) (\<lambda>socket_pair_ui_notification.
     bnd (socket_connect E socket_pair socket_pair_ui_notification CONTROLLER_UI_NOTIFICATION_ADDRESS) (\<lambda>rc.
     if rc \<noteq> 0 then
       bnd (log_app_receiver E socket_push_logs TXT_UI_FAILED) (\<lambda>_.
       clean_up_receiver E socket_sub_shutdown socket_sub_chat socket_pair_controller_command
         socket_pair_ui_notification)
     else
       receiver_session E fuel socket_sub_shutdown socket_sub_chat socket_pair_controller_command
         socket_pair_ui_notification socket_push_logs user_array)))))))))))))"

end
