(* ===== verification/Receiver_Rules.thy ===== *)
theory Receiver_Rules
  imports Receiver Progress Sample_World
begin

text \<open>
  The receiver thread in the calculus of \<open>Dialogue\<close>: what each of its handlers does on the
  sockets, the invariant of its loop, and why the loop ends.
\<close>

section \<open>Handlers\<close>

lemma log_app_receiver_eq: "log_app_receiver = log_app"
  by (intro ext) (simp add: log_app_receiver_def log_app_def)

text \<open>The sockets of the receiver are alive, with distinct handles.\<close>

definition rcv_at :: "(nat \<rightharpoonup> block) \<Rightarrow> rcv_env \<Rightarrow> nat \<Rightarrow> nat \<Rightarrow> nat \<Rightarrow> nat \<Rightarrow> nat \<Rightarrow> bool" where
  "rcv_at H c lg hs hb hc hu \<longleftrightarrow>
     sock_in H (r_logs c) lg \<and> sock_in H (r_shutdown c) hs \<and> sock_in H (r_chat c) hb \<and>
     sock_in H (r_command c) hc \<and> sock_in H (r_ui c) hu \<and> distinct [lg, hs, hb, hc, hu]"

lemma rcv_atD:
  assumes "rcv_at H c lg hs hb hc hu"
  shows "sock_in H (r_logs c) lg" "sock_in H (r_shutdown c) hs" "sock_in H (r_chat c) hb"
    "sock_in H (r_command c) hc" "sock_in H (r_ui c) hu"
    "hs \<noteq> lg" "hb \<noteq> lg" "hc \<noteq> lg" "hu \<noteq> lg" "hs \<noteq> hb" "hs \<noteq> hc" "hs \<noteq> hu" "hb \<noteq> hc" "hb \<noteq> hu" "hc \<noteq> hu"
  using assms by (auto simp: rcv_at_def)

text \<open>What the UI is shown of a published envelope; nothing for other payloads.\<close>

definition displayed :: "envelope \<Rightarrow> string" where
  "displayed e = (case payload e of
     ROOM_MSG msg \<Rightarrow> take 1023 (''[ROOM #'' @ cs (room_msg_room_name msg) @ ''] '' @
       cs (room_msg_sender_username msg) @ '': '' @ cs (room_msg_content msg))
   | DIRECT_MSG dm \<Rightarrow> take 1023 (''[DM from '' @ cs (direct_msg_sender_username dm) @ '']: '' @
       cs (direct_msg_content dm))
   | SYSTEM_NOTIF sys \<Rightarrow> take 1023 (''[SYSTEM #'' @ cs (notif_room_name sys) @ '']: '' @ cs (notif_message sys))
   | _ \<Rightarrow> [])"

definition notified :: "envelope option \<Rightarrow> string list" where
  "notified res = (case res of None \<Rightarrow> [] | Some e \<Rightarrow> if displayed e = [] then [] else [displayed e])"

text \<open>One call of \<open>handle_chat_message\<close>: what it receives and what it sends on.\<close>

definition passed_on :: "'w ext \<Rightarrow> nat \<Rightarrow> nat \<Rightarrow> event list \<Rightarrow> event list \<Rightarrow> bool" where
  "passed_on E hb hu sub ui \<longleftrightarrow>
     (\<exists>n d. n \<le> 0 \<and> sub = [ZRecv hb n d] \<and> ui = []) \<or>
     (\<exists>n d n' d'. 0 < n \<and> n \<le> 255 \<and> n' \<le> 2048 \<and> sub = [ZRecv hb n d, ZRecv hb n' d'] \<and>
        (if n' \<le> 0 then ui = []
         else \<exists>res w w'. x_unpack E d' w = (res, w') \<and> sent hu (notified res) ui))"

lemma wp_format:
  assumes "length b = 1024"
    and "\<And>out. has_cstr out 0 \<Longrightarrow> cs out = displayed e \<Longrightarrow> Q out s"
  shows "wp (case payload e of
      ROOM_MSG msg \<Rightarrow> bnd (snprintf_at (b[0 := NUL]) 0 1024
        (''[ROOM #'' @ cs (room_msg_room_name msg) @ ''] '' @ cs (room_msg_sender_username msg) @
         '': '' @ cs (room_msg_content msg))) (\<lambda>(b, _). ret b)
    | DIRECT_MSG dm \<Rightarrow> bnd (snprintf_at (b[0 := NUL]) 0 1024
        (''[DM from '' @ cs (direct_msg_sender_username dm) @ '']: '' @ cs (direct_msg_content dm)))
        (\<lambda>(b, _). ret b)
    | SYSTEM_NOTIF sys \<Rightarrow> bnd (snprintf_at (b[0 := NUL]) 0 1024
        (''[SYSTEM #'' @ cs (notif_room_name sys) @ '']: '' @ cs (notif_message sys)))
        (\<lambda>(b, _). ret b)
    | _ \<Rightarrow> ret (b[0 := NUL])) Q F s"
proof -
  have fmt: "wp (bnd (snprintf_at (b[0 := NUL]) 0 1024 T) (\<lambda>(b, _). ret b)) Q F s"
    if "displayed e = take 1023 T" "nul_free T" for T
    unfolding wp_seq
  proof (rule wp_snprintf_whole)
    fix out :: string
    assume "has_cstr out 0" "cs out = cs (take (1024 - 1) T)"
    with that have "Q out s" by (intro assms(2)) (simp_all add: cs_id)
    then show "wp (case (out, int (length T)) of (b, _) \<Rightarrow> ret b) Q F s" by (simp add: wp_ret)
  qed (use assms(1) in simp_all)
  obtain c r where "b = c # r" using assms(1) by (cases b) auto
  then have blank: "displayed e = [] \<Longrightarrow> wp (ret (b[0 := NUL])) Q F s"
    using assms(2) by (simp add: wp_ret has_cstr_def cs_def)
  have literals: "nul_free ''[ROOM #''" "nul_free ''] ''" "nul_free '': ''" "nul_free ''[DM from ''"
    "nul_free '']: ''" "nul_free ''[SYSTEM #''"
    by (simp_all add: NUL_def)
  show ?thesis
  proof (cases "payload e")
    case (ROOM_MSG m)
    then show ?thesis
      by (simp only: payload.case, intro fmt) (simp_all only: displayed_def payload.case nul_free_simps(3) cs_nul_free literals simp_thms)
  next
    case (DIRECT_MSG m)
    then show ?thesis
      by (simp only: payload.case, intro fmt) (simp_all only: displayed_def payload.case nul_free_simps(3) cs_nul_free literals simp_thms)
  next
    case (SYSTEM_NOTIF m)
    then show ?thesis
      by (simp only: payload.case, intro fmt) (simp_all only: displayed_def payload.case nul_free_simps(3) cs_nul_free literals simp_thms)
  qed (auto simp: displayed_def intro!: blank)
qed

text \<open>From the decoded envelope to the release of its memory.\<close>

lemma show_envelope:
  assumes "seen lg (H(a \<mapsto> BEnv e)) tr io t" "H a = None" "sock_in H p hu" "hu \<noteq> lg"
    and out: "has_cstr out 0" "cs out = displayed e"
    and done1: "\<And>ui u. sent hu (notified (Some e)) ui \<Longrightarrow> seen lg H tr (io(hu := io hu @ ui)) u \<Longrightarrow> Q () u"
  shows "wp (cstr_at out 0) (\<lambda>text. wp (only_if (0 < length text)
      (bnd (socket_send E socket_pair p out (length text) 0) (\<lambda>_. ret ()))) (\<lambda>_. wp (free (Some a)) Q F) F) F t"
proof (rule wp_cstr_wholeI [OF out(1)])
  have p: "sock_in (H(a \<mapsto> BEnv e)) p hu" using assms(2,3) by simp
  have fr: "wp (free (Some a)) Q F v"
    if "seen lg (H(a \<mapsto> BEnv e)) tr (io(hu := io hu @ ui)) v" "sent hu (notified (Some e)) ui" for v ui
    by (rule seen_free [OF that(1) fun_upd_same], rule done1 [OF that(2)])
      (simp only: fun_upd_upd heap_restored [where H = H, OF assms(2)])
  show "wp (only_if (0 < length (cs out)) (bnd (socket_send E socket_pair p out (length (cs out)) 0) (\<lambda>_. ret ())))
      (\<lambda>_. wp (free (Some a)) Q F) F t"
  proof (cases "displayed e = []")
    case True
    then show ?thesis
      using out(2) fr [of "[]" t] assms(1) by (simp add: wp_ret notified_def fun_upd_idem)
  next
    case False
    then show ?thesis
      using out(2) by (simp add: wp_seq wp_ret)
        (rule seen_send_cs [where buf = out, OF assms(1) p assms(4), unfolded out(2)], rule fr, assumption, simp add: notified_def)
  qed
qed

lemma handle_chat_message_ok:
  fixes E :: "'w ext"
  assumes "recv_law E" "rcv_at H c lg hs hb hc hu" "seen lg H tr io s"
    and oob: "\<not> fits E 255 \<or> \<not> fits E 2048 \<Longrightarrow> F OutOfBounds"
  shows "wp (handle_chat_message E (r_chat c) (r_ui c))
    (\<lambda>_ t. \<exists>sub ui. passed_on E hb hu sub ui \<and> seen lg H tr (io(hb := io hb @ sub, hu := io hu @ ui)) t) F s"
    (is "wp _ (\<lambda>_. ?Q) F s")
proof -
  note S = rcv_atD [OF assms(2)]
  have quiet: "?Q t" if "passed_on E hb hu sub []" "seen lg H tr (io(hb := io hb @ sub)) t" for sub t
    using that S by (intro exI [of _ sub] exI [of _ "[]"]) (auto simp: fun_upd_idem)
  have first: "passed_on E hb hu [ZRecv hb n d] []" if "n \<le> 0" for n d
    using that by (auto simp: passed_on_def)
  have second: "passed_on E hb hu [ZRecv hb (int (length m)) m, ZRecv hb n d] []"
    if "n \<le> 0" "m \<noteq> []" "length m \<le> 255" for m n d
    unfolding passed_on_def using that
    by (intro disjI2 exI [of _ "int (length m)"] exI [of _ m] exI [of _ n] exI [of _ d]) auto
  have third: "?Q v"
    if "x_unpack E d w = (Some e, w')" "length d \<le> 2048" "d \<noteq> []" "m \<noteq> []" "length m \<le> 255"
      "sent hu (notified (Some e)) ui"
      "seen lg H tr (io(hb := io hb @ [ZRecv hb (int (length m)) m, ZRecv hb (int (length d)) d],
         hu := (io(hb := io hb @ [ZRecv hb (int (length m)) m, ZRecv hb (int (length d)) d])) hu @ ui)) v"
    for m d e w w' ui v
  proof (intro exI conjI)
    show "passed_on E hb hu [ZRecv hb (int (length m)) m, ZRecv hb (int (length d)) d] ui"
      unfolding passed_on_def using that
      by (intro disjI2 exI [of _ "int (length m)"] exI [of _ m] exI [of _ "int (length d)"] exI [of _ d])
        (auto intro!: exI [of _ "Some e"])
    show "seen lg H tr (io(hb := io hb @ [ZRecv hb (int (length m)) m, ZRecv hb (int (length d)) d], hu := io hu @ ui)) v"
      using that(7) S(14) by simp
  qed
  show ?thesis
    unfolding handle_chat_message_def wp_seq
  proof (rule wp_local_arrayI, rule seen_recv [OF assms(3) S(3,7) assms(1)], goal_cases)
    case (2 b t w)
    then show ?case by (simp add: wp_ret) (erule quiet [rotated], rule first, simp)
  next
    case (3 b m t w)
    show ?case
    proof (cases "m = []")
      case True
      then show ?thesis using quiet [OF first 3(3)] by (simp add: wp_ret)
    next
      case False
      let ?b = "take 255 m @ drop (min (length m) 255) b"
      have pos: "(int (length m) \<le> 0) = False" using False by simp
      have after: "wp (local_array E 2048) (\<lambda>data_buffer.
        wp (socket_recv E socket_sub (r_chat c) data_buffer 2048 0) (\<lambda>x. wp (case x of (data_len, data_buffer) \<Rightarrow>
          if data_len \<le> 0 then ret ()
          else bnd (read_bytes data_buffer (nat data_len)) (\<lambda>d. bnd (pb_unpack E d) K)) (\<lambda>_. ?Q) F) F) F t"
        if len: "length m \<le> 255"
          and K: "\<And>d n u. passed_on E hb hu [ZRecv hb (int (length m)) m, ZRecv hb n d] [] \<Longrightarrow>
            seen lg H tr (io(hb := io hb @ [ZRecv hb (int (length m)) m, ZRecv hb n d])) u \<Longrightarrow> wp (K None) (\<lambda>_. ?Q) F u"
          and K2: "\<And>a e d w w' u. x_unpack E d w = (Some e, w') \<Longrightarrow> length d \<le> 2048 \<Longrightarrow> d \<noteq> [] \<Longrightarrow> H a = None \<Longrightarrow>
            seen lg (H(a \<mapsto> BEnv e)) tr (io(hb := io hb @ [ZRecv hb (int (length m)) m, ZRecv hb (int (length d)) d])) u \<Longrightarrow>
            wp (K (Some a)) (\<lambda>_. ?Q) F u" for K
      proof (rule wp_local_arrayI, rule seen_recv [OF 3(3) S(3,7) assms(1)], goal_cases)
        case (2 b u w)
        then show ?case
          using len False quiet [OF second, of "-1" m "[]" u] by (simp add: wp_ret)
      next
        case (3 b d u w)
        show ?case
        proof (cases "d = [] \<or> 2048 < length d")
          case True
          then show ?thesis
          proof
            assume "d = []"
            then show ?thesis using 3(3) len \<open>m \<noteq> []\<close> quiet [OF second, of 0 m "[]" u] by (simp add: wp_ret)
          next
            assume d: "2048 < length d"
            then have "\<not> fits E 2048" using 3(2) by (auto dest!: fitsD)
            moreover have "d \<noteq> []" using d by auto
            ultimately show ?thesis using d 3(1) oob by (simp add: wp_seq wp_read_bytes)
          qed
        next
          case False
          then have u: "seen lg H tr (io(hb := io hb @ [ZRecv hb (int (length m)) m, ZRecv hb (int (length d)) d])) u"
            and d: "d \<noteq> []" "length d \<le> 2048"
            using 3(3) len by auto
          have "wp (pb_unpack E d) (\<lambda>x. wp (K x) (\<lambda>_. ?Q) F) F u"
          proof (rule seen_unpack_exact [OF u], goal_cases)
            case (1 v w w')
            have "passed_on E hb hu [ZRecv hb (int (length m)) m, ZRecv hb (int (length d)) d] []"
              unfolding passed_on_def using len d \<open>m \<noteq> []\<close> 1(1)
              by (intro disjI2 exI [of _ "int (length m)"] exI [of _ m] exI [of _ "int (length d)"] exI [of _ d])
                (auto simp: notified_def intro!: exI [of _ None])
            then show ?case by (rule K [OF _ 1(2)])
          next
            case (2 a e v w w')
            then show ?case by (intro K2 [OF 2(1) d(2,1)])
          qed
          then show ?thesis using d 3(1) by (simp add: wp_seq wp_read_bytes)
        qed
      qed simp
      show ?thesis
        apply (simp only: case_prod_conv pos if_False wp_seq)
        apply (rule wp_pokeI)
         apply (rule after)
           apply (use 3(1) in \<open>simp split: if_splits\<close>)
          apply (simp only: simp_thms if_True wp_ret)
          apply (erule (1) quiet)
         apply (simp only: option.simps if_False wp_seq)
         apply (erule seen_load_env, rule fun_upd_same)
         apply (rule wp_local_arrayI)
         apply (rule wp_pokeI)
          apply (simp only: nat_0)
          apply (erule wp_format)
          apply (rule show_envelope, assumption, assumption, rule S(5), rule S(9), assumption, assumption)
          apply (rule third [where m = m], assumption, assumption, assumption, rule False)
            apply (use 3(1) in \<open>simp split: if_splits\<close>)
           apply assumption
          apply assumption
         apply simp
        apply (rule oob)
        apply (use 3(1,2) in \<open>auto dest!: fitsD split: if_splits\<close>)
        done
    qed
  qed simp
qed

text \<open>What an instruction does to the subscriptions.\<close>

definition followed :: "nat \<Rightarrow> string \<Rightarrow> event list \<Rightarrow> bool" where
  "followed hb m es \<longleftrightarrow> (\<exists>rc. es =
     (if m \<noteq> [] \<and> hd m = CHR ''+'' then [ZOpt hb ZMQ_SUBSCRIBE (cs (tl m)) rc]
      else if m \<noteq> [] \<and> hd m = CHR ''-'' then [ZOpt hb ZMQ_UNSUBSCRIBE (cs (tl m)) rc]
      else []))"

definition instructed :: "'w ext \<Rightarrow> nat \<Rightarrow> nat \<Rightarrow> event list \<Rightarrow> event list \<Rightarrow> bool" where
  "instructed E hc hb cmd sub \<longleftrightarrow> (\<exists>n d w w'. n \<le> 255 \<and> x_recv E hc 255 0 w = ((n, d), w') \<and> cmd = [ZRecv hc n d] \<and>
     (if n \<le> 0 then sub = [] else n = int (length d) \<and> followed hb d sub))"

lemma handle_command_ok:
  fixes E :: "'w ext"
  assumes "recv_law E" "rcv_at H c lg hs hb hc hu" "seen lg H tr io s"
    and oob: "\<not> fits E 255 \<Longrightarrow> F OutOfBounds"
  shows "wp (handle_command E (r_command c) (r_chat c) (r_logs c))
    (\<lambda>_ t. \<exists>cmd sub. instructed E hc hb cmd sub \<and> seen lg H tr (io(hc := io hc @ cmd, hb := io hb @ sub)) t) F s"
    (is "wp _ (\<lambda>_. ?Q) F s")
proof -
  note S = rcv_atD [OF assms(2)]
  have quiet: "?Q t" if "instructed E hc hb cmd []" "seen lg H tr (io(hc := io hc @ cmd)) t" for cmd t
    using that S by (intro exI [of _ cmd] exI [of _ "[]"]) (auto simp: fun_upd_idem)
  show ?thesis
    unfolding handle_command_def log_app_receiver_eq wp_seq
  proof (rule seen_log [OF assms(3) S(1)], rule wp_local_arrayI, erule seen_recv [OF _ S(4,8) assms(1)], goal_cases)
    case (2 s b t w)
    from 2(2) have "instructed E hc hb [ZRecv hc (-1) []] []" by (auto simp: instructed_def)
    with 2 quiet show ?case by (simp add: wp_ret)
  next
    case (3 s b m t w)
    show ?case
    proof (cases "m = []")
      case True
      moreover have "instructed E hc hb [ZRecv hc 0 []] []" using 3(2) True by (auto simp: instructed_def)
      ultimately show ?thesis using 3(3) quiet by (simp add: wp_ret)
    next
      case False
      let ?b = "take 255 m @ drop (min (length m) 255) b"
      have pos: "(0 < int (length m)) = True" using False by simp
      show ?thesis
      proof (cases "length m \<le> 255")
        case len: True
        have t: "seen lg H tr (io(hc := io hc @ [ZRecv hc (int (length m)) m])) t" using 3(3) len by simp
        let ?t = "m @ NUL # drop (Suc (length m)) b"
        have buf: "?b[length m := NUL] = ?t" using 3(1) len by (intro terminated_in_place) simp_all
        have "length m < length ?b" using 3(1) len by simp
        then have poke: "wp (poke ?b (int (length m)) NUL) Q F t = Q ?t t" for Q
          by (simp only: wp_poke nat_int of_nat_0_le_iff simp_thms if_True buf)
        have hd: "?t ! 0 = hd m" and tl: "drop 1 ?t = tl m @ NUL # drop (Suc (length m)) b"
          using False by (cases m; simp)+
        have arg: "has_cstr ?t 1" "cs (drop 1 ?t) = cs (tl m)"
          unfolding tl by (use False in \<open>simp_all add: has_cstr_def Suc_le_eq\<close>)
        have fin: "?Q u" if "followed hb m sub" "seen lg H tr (io(hc := io hc @ [ZRecv hc (int (length m)) m],
            hb := (io(hc := io hc @ [ZRecv hc (int (length m)) m])) hb @ sub)) u" for sub u
          using that S(13) False len 3(2)
          by (intro exI [of _ "[ZRecv hc (int (length m)) m]"] exI [of _ sub]) (auto simp: instructed_def)
        have does: "hd m = CHR ''+'' \<Longrightarrow> followed hb m [ZOpt hb ZMQ_SUBSCRIBE (cs (tl m)) rc]"
            "hd m = CHR ''-'' \<Longrightarrow> followed hb m [ZOpt hb ZMQ_UNSUBSCRIBE (cs (tl m)) rc]"
            "hd m \<noteq> CHR ''+'' \<Longrightarrow> hd m \<noteq> CHR ''-'' \<Longrightarrow> followed hb m []" for rc
          using False by (auto simp: followed_def)
        have at: "wp (cstr_at ?t 1) Q F t = Q (cs (tl m)) t" for Q
          using arg by (simp only: wp_cstr_at if_True cs_def [symmetric])
        show ?thesis
          apply (simp only: case_prod_conv pos if_True wp_seq poke hd)
          apply (intro wp_ifI; simp only: wp_seq wp_ret at)
            apply (rule seen_subscribe [OF t S(3,7)], rule fin [OF does(1)], assumption, assumption)
           apply (rule seen_unsubscribe [OF t S(3,7)], rule fin [OF does(2)], assumption, assumption)
          apply (rule fin [OF does(3)], assumption, assumption)
          using t S(13) by (simp add: fun_upd_idem)
      next
        case long: False
        then have "\<not> fits E 255" using 3(2) by (auto dest!: fitsD)
        moreover have "\<not> nat (int (length m)) < length ?b" using long 3(1) by simp
        ultimately show ?thesis
          using oob by (simp only: case_prod_conv pos if_True wp_seq wp_poke simp_thms if_False)
      qed
    qed
  qed simp
qed

section \<open>The loop\<close>

text \<open>
  The conversation of the receiver: the events on the chat socket, on the socket of the
  controller and on the one of the UI, message by message and instruction by instruction.
\<close>

inductive forwards :: "'w ext \<Rightarrow> nat \<Rightarrow> nat \<Rightarrow> nat \<Rightarrow> event list \<Rightarrow> event list \<Rightarrow> event list \<Rightarrow> bool"
  for E hb hc hu where
  fw_start: "forwards E hb hc hu [] [] []"
| fw_message: "forwards E hb hc hu sub cmd ui \<Longrightarrow> passed_on E hb hu sub' ui' \<Longrightarrow>
    forwards E hb hc hu (sub @ sub') cmd (ui @ ui')"
| fw_instruction: "forwards E hb hc hu sub cmd ui \<Longrightarrow> instructed E hc hb cmd' sub' \<Longrightarrow>
    forwards E hb hc hu (sub @ sub') (cmd @ cmd') ui"

definition rcv_seen where
  "rcv_seen E H tr lg hb hc hu s \<longleftrightarrow> (\<exists>io. seen lg H tr io s \<and> forwards E hb hc hu (io hb) (io hc) (io hu))"

definition rcv_inv where
  "rcv_inv E c H tr lg hs hb hc hu s \<longleftrightarrow>
     recv_law E \<and> rcv_at H c lg hs hb hc hu \<and> rcv_seen E H tr lg hb hc hu s"

lemma handle_shutdown_message_receiver_ok:
  assumes "recv_law E" "sock_in H p hs" "sock_in H l lg" "hs \<noteq> lg" "seen lg H tr io s"
  shows "wp (handle_shutdown_message_receiver E p l)
    (\<lambda>r t. \<exists>n d w. x_recv E hs 63 0 (world s) = ((n, d), w) \<and>
       seen lg H tr (io(hs := io hs @ [ZRecv hs n d])) t \<and>
       r = (if 0 < n \<and> cs d = CHAT_MESSAGE_KILL_CONTROLLER then -1 else 0)) F s"
  unfolding handle_shutdown_message_receiver_def log_app_receiver_eq
  by (rule seen_shutdown [OF assms(1,2,4,5)]) (rule seen_log [OF _ assms(3)])

lemma receiver_handlers:
  fixes s :: "'w st"
  assumes "recv_law E" "rcv_at H c lg hs hb hc hu" "rcv_seen E H tr lg hb hc hu s"
    and oob: "\<not> fits E 255 \<or> \<not> fits E 2048 \<Longrightarrow> F OutOfBounds"
  shows "wp (handle_chat_message E (r_chat c) (r_ui c)) (\<lambda>_. rcv_seen E H tr lg hb hc hu) F s"
    and "wp (handle_command E (r_command c) (r_chat c) (r_logs c)) (\<lambda>_. rcv_seen E H tr lg hb hc hu) F s"
    and "wp (handle_shutdown_message_receiver E (r_shutdown c) (r_logs c)) (\<lambda>_. rcv_seen E H tr lg hb hc hu) F s"
proof -
  note S = rcv_atD [OF assms(2)]
  from assms(3) obtain io where s: "seen lg H tr io s" and fw: "forwards E hb hc hu (io hb) (io hc) (io hu)"
    by (auto simp: rcv_seen_def)
  show "wp (handle_chat_message E (r_chat c) (r_ui c)) (\<lambda>_. rcv_seen E H tr lg hb hc hu) F s"
    by (rule wp_then [OF handle_chat_message_ok [OF assms(1,2) s]], rule oob, assumption)
      (use S fw_message [OF fw] in \<open>unfold rcv_seen_def, fastforce\<close>)
  show "wp (handle_command E (r_command c) (r_chat c) (r_logs c)) (\<lambda>_. rcv_seen E H tr lg hb hc hu) F s"
    by (rule wp_then [OF handle_command_ok [OF assms(1,2) s]], rule oob, simp)
      (use S fw_instruction [OF fw] in \<open>unfold rcv_seen_def, fastforce\<close>)
  show "wp (handle_shutdown_message_receiver E (r_shutdown c) (r_logs c)) (\<lambda>_. rcv_seen E H tr lg hb hc hu) F s"
    by (rule wp_then [OF handle_shutdown_message_receiver_ok [OF assms(1) S(2,1,6) s]])
      (use S fw in \<open>unfold rcv_seen_def, fastforce\<close>)
qed

lemma receiver_step_ok:
  fixes s :: "'w st"
  assumes "rcv_inv E c H tr lg hs hb hc hu s"
    and oob: "\<not> fits E 255 \<or> \<not> fits E 2048 \<Longrightarrow> F OutOfBounds"
  shows "wp (receiver_step E c)
    (\<lambda>again t. if again then rcv_inv E c H tr lg hs hb hc hu t else rcv_seen E H tr lg hb hc hu t) F s"
proof -
  from assms(1) have E: "recv_law E" and c: "rcv_at H c lg hs hb hc hu" and s: "rcv_seen E H tr lg hb hc hu s"
    by (auto simp: rcv_inv_def)
  note S = rcv_atD [OF c]
  note h = receiver_handlers [OF E c, where F = F, OF _ oob]
  have log: "wp (log_app E (r_logs c) m) (\<lambda>_. rcv_seen E H tr lg hb hc hu) F t"
    if "rcv_seen E H tr lg hb hc hu t" for m and t :: "'w st"
    using that unfolding rcv_seen_def by (elim exE conjE) (erule seen_log [OF _ S(1)], blast)
  have poll: "wp (z_poll E items tm) (\<lambda>_. rcv_seen E H tr lg hb hc hu) F t"
    if "rcv_seen E H tr lg hb hc hu t" for items tm and t :: "'w st"
    using that unfolding rcv_seen_def by (elim exE conjE) (erule seen_poll, blast)
  have inv: "rcv_seen E H tr lg hb hc hu t \<Longrightarrow> rcv_inv E c H tr lg hs hb hc hu t" for t
    using E c by (simp add: rcv_inv_def)
  show ?thesis
    unfolding receiver_step_def log_app_receiver_eq wp_seq wp_ret
    apply (rule wp_then [OF log [OF s]])
    apply (erule wp_then [OF poll])
    apply (unfold case_prod_beta)
    apply (intro wp_ifI; simp only: wp_seq wp_ret if_False)
    apply (rule wp_then)
     apply (rule wp_ifI)
      apply (erule h(3), assumption)
     apply (simp only: wp_ret)
    apply (intro wp_ifI; simp only: wp_seq wp_ret if_False)
    apply (rule wp_then, rule wp_only_ifI, erule h(1), assumption, assumption)
    apply (rule wp_then, rule wp_only_ifI, erule h(2), assumption, assumption)
    by (simp add: inv)
qed

interpretation rcv: loop_body "receiver_step E c" "rcv_inv E c H tr lg hs hb hc hu"
  "rcv_seen E H tr lg hb hc hu" "\<lambda>f. f = OutOfBounds \<and> (\<not> fits E 255 \<or> \<not> fits E 2048)"
  for E :: "'w ext" and c H tr lg hs hb hc hu
  by unfold_locales (erule receiver_step_ok, simp)

section \<open>The loop ends\<close>

lemma tame_case_shown [tame_intros]:
  assumes "\<And>a. tame dl (f a)" "\<And>a. tame dl (g a)" "\<And>a. tame dl (h a)" "tame dl k"
  shows "tame dl (case p of ROOM_MSG a \<Rightarrow> f a | DIRECT_MSG a \<Rightarrow> g a | SYSTEM_NOTIF a \<Rightarrow> h a | _ \<Rightarrow> k)"
  using assms by (cases p) simp_all

lemma tame_receiver:
  assumes "steady E dl"
  shows "tame dl (handle_chat_message E p q)" "tame dl (handle_command E p q l)"
    "tame dl (handle_shutdown_message_receiver E p l)"
  unfolding handle_chat_message_def handle_command_def handle_shutdown_message_receiver_def log_app_receiver_eq
  by (intro tame_intros tame_calls [OF assms] tame_wrappers [OF assms])+

lemma receiver_step_variant:
  fixes s :: "'w st"
  assumes "rcv_inv E c H tr lg hs hb hc hu s" "steady E dl" "winds_down E (r_items c) (-1) hs dl"
    and oob: "\<not> fits E 255 \<or> \<not> fits E 2048 \<Longrightarrow> F OutOfBounds"
  shows "wp (receiver_step E c) (\<lambda>again t. again \<longrightarrow> dl (world t) < dl (world s)) F s"
proof (rule wp_faults [OF _ receiver_step_ok [where F = F, OF assms(1) oob]])
  from assms(1) obtain io where E: "recv_law E" and c: "rcv_at H c lg hs hb hc hu" and s: "seen lg H tr io s"
    by (auto simp: rcv_inv_def rcv_seen_def)
  note S = rcv_atD [OF c]
  note tame = tame_wrappers [OF assms(2)] tame_receiver [OF assms(2)]
  have log: "wp (log_app E (r_logs c) msg) (\<lambda>_ t. seen lg H tr io t \<and> dl (world t) \<le> dl (world s)) (\<lambda>_. True) s" for msg
    by (rule tame_wp [OF tame(5)], rule seen_log [OF s S(1)])
  show "wp (receiver_step E c) (\<lambda>again t. again \<longrightarrow> dl (world t) < dl (world s)) (\<lambda>_. True) s"
    unfolding receiver_step_def log_app_receiver_eq wp_seq
  proof (rule wp_then [OF log], elim conjE, erule (1) poll_variant [OF _ _ assms(3)], unfold case_prod_conv, goal_cases)
    case (1 t x)
    then show ?case by (intro tame_intros tame)
  next
    case (2 t rc rv u)
    then show ?case by (simp add: wp_ret)
  next
    case (3 t rc rv m d w u)
    then show ?case
      unfolding if_not_P [OF 3(2)] if_P [OF 3(3)] wp_seq
      by (intro wp_then [OF handle_shutdown_message_receiver_ok [OF E S(2,1,6) 3(7)]])
        (use 3(4-6) in \<open>auto simp: wp_ret\<close>)
  qed
qed

interpretation rcv_ends: loop_variant "receiver_step E c"
  "\<lambda>s. rcv_inv E c H tr lg hs hb hc hu s \<and> steady E dl \<and> winds_down E (r_items c) (-1) hs dl"
  "rcv_seen E H tr lg hb hc hu" "\<lambda>f. f = OutOfBounds \<and> (\<not> fits E 255 \<or> \<not> fits E 2048)" "\<lambda>s. dl (world s)"
  for E :: "'w ext" and c H tr lg hs hb hc hu dl
proof unfold_locales
  fix s :: "'w st"
  let ?F = "\<lambda>f. f = OutOfBounds \<and> (\<not> fits E 255 \<or> \<not> fits E 2048)"
  assume s: "rcv_inv E c H tr lg hs hb hc hu s \<and> steady E dl \<and> winds_down E (r_items c) (-1) hs dl"
  have oob: "\<not> fits E 255 \<or> \<not> fits E 2048 \<Longrightarrow> ?F OutOfBounds" by simp
  from s have "wp (receiver_step E c)
    (\<lambda>again t. if again then rcv_inv E c H tr lg hs hb hc hu t else rcv_seen E H tr lg hb hc hu t) ?F s"
    by (intro receiver_step_ok oob) auto
  then show "wp (receiver_step E c) (\<lambda>again t. if again
      then rcv_inv E c H tr lg hs hb hc hu t \<and> steady E dl \<and> winds_down E (r_items c) (-1) hs dl
      else rcv_seen E H tr lg hb hc hu t) ?F s"
    by (rule wp_then) (use s in \<open>auto split: if_splits\<close>)
  show "wp (receiver_step E c) (\<lambda>again t. again \<longrightarrow> dl (world t) < dl (world s)) ?F s"
    using s by (intro receiver_step_variant oob) auto
qed

end
