(* ===== verification/Receiver_Thread.thy ===== *)
theory Receiver_Thread
  imports Receiver_Rules Controller_Thread
begin

text \<open>
  The receiver thread as a whole, and its properties: the first subscriptions, the loop, the end.
\<close>

section \<open>The session\<close>

text \<open>\<open>clean_up\<close> has the body of the one of the controller, so its rule carries over.\<close>

lemma clean_up_receiver_eq: "clean_up_receiver = clean_up"
  by (intro ext) (simp add: clean_up_receiver_def clean_up_def)

definition as_ctl :: "rcv_env \<Rightarrow> ctl_env" where
  "as_ctl c = \<lparr>c_shutdown = r_shutdown c, c_req = r_chat c, c_receiver = r_command c, c_ui = r_ui c,
     c_logs = r_logs c, c_items = r_items c, c_username = []\<rparr>"

lemma as_ctl_at: "rcv_at H c lg hs hb hc hu \<Longrightarrow> ctl_at H (as_ctl c) lg hs hb hc hu"
  by (auto simp: rcv_at_def ctl_at_def as_ctl_def)

definition all_off :: "rcv_env \<Rightarrow> (nat \<rightharpoonup> block) \<Rightarrow> (nat \<rightharpoonup> block)" where
  "all_off c H = heap_off H [the (r_shutdown c), the (r_chat c), the (r_command c), the (r_ui c), the (r_logs c)]"

text \<open>The topics a client subscribes to before anything else.\<close>

definition first_topics :: "nat \<Rightarrow> string \<Rightarrow> event list \<Rightarrow> bool" where
  "first_topics hb user es \<longleftrightarrow> (\<exists>rc rc'. es =
     [ZOpt hb ZMQ_SUBSCRIBE (take 127 (CHAT_TOPIC_USER user)) rc, ZOpt hb ZMQ_SUBSCRIBE CHAT_TOPIC_GENERAL rc'])"

lemma receiver_begin_ok:
  fixes E :: "'w ext"
  assumes "rcv_at H c lg hs hb hc hu" "seen lg H tr (\<lambda>_. []) s" "has_cstr ua 0"
  shows "wp (receiver_begin E (r_shutdown c) (r_chat c) (r_command c) (r_ui c) (r_logs c) ua)
    (\<lambda>c' t. c' = c\<lparr>r_items := [PollSocket hs, PollSocket hb, PollSocket hc]\<rparr> \<and>
       (\<exists>es. first_topics hb (cs ua) es \<and> seen lg H tr ((\<lambda>_. [])(hb := es)) t)) F s"
proof -
  note S = rcv_atD [OF assms(1)]
  have raw: "wp (socket_get_raw p) Q F t = Q (Some h) t" if "seen lg H tr io t" "sock_in H p h" for p h Q t io
    by (rule wp_socket_get_raw [OF seen_sock_at [OF that]])
  have user: "nul_free (CHAT_TOPIC_USER (cs ua))" "nul_free CHAT_TOPIC_GENERAL" "length CHAT_TOPIC_GENERAL \<le> 127"
    by (simp_all add: CHAT_TOPIC_USER_def CHAT_TOPIC_GENERAL_def NUL_def)
  have general: "take 127 CHAT_TOPIC_GENERAL = CHAT_TOPIC_GENERAL" using user(3) by simp
  have topics: "\<exists>es. first_topics hb (cs ua) es \<and> seen lg H tr ((\<lambda>_. [])(hb := es)) u"
    if "seen lg H tr ((\<lambda>_. [])(hb := [] @ [ZOpt hb ZMQ_SUBSCRIBE (cs (take (128 - 1) (CHAT_TOPIC_USER (cs ua)))) rc],
      hb := ((\<lambda>_. [])(hb := [] @ [ZOpt hb ZMQ_SUBSCRIBE (cs (take (128 - 1) (CHAT_TOPIC_USER (cs ua)))) rc])) hb @
        [ZOpt hb ZMQ_SUBSCRIBE (cs (take (128 - 1) CHAT_TOPIC_GENERAL)) rc'])) u" for u rc rc'
    using that user general
    by (intro exI [of _ "[ZOpt hb ZMQ_SUBSCRIBE (take 127 (CHAT_TOPIC_USER (cs ua))) rc,
        ZOpt hb ZMQ_SUBSCRIBE CHAT_TOPIC_GENERAL rc']"]) (simp add: first_topics_def cs_id)
  show ?thesis
    unfolding receiver_begin_def log_app_receiver_eq wp_seq wp_ret case_prod_beta
    apply (rule wp_local_arrayI, rule wp_local_arrayI, rule wp_cstr_wholeI [OF assms(3)])
    apply (rule wp_snprintf_whole, assumption, simp)
    apply (rule wp_snprintf_whole, assumption, simp)
    apply (unfold fst_conv)
    apply (rule wp_cstr_wholeI, assumption, rule seen_subscribe [OF assms(2) S(3,7)])
    apply (rule wp_cstr_wholeI, assumption, erule seen_subscribe [OF _ S(3,7)])
    apply (simp only: raw [OF _ S(2)] raw [OF _ S(3)] raw [OF _ S(4)])
    apply (erule seen_log [OF _ S(1)])
    apply (rule conjI)
     apply (simp add: poll_item_def)
    apply (erule topics)
    done
qed

definition rcv_completed where
  "rcv_completed E c H tr lg hs hb hc hu user t \<longleftrightarrow> heap t = all_off c H \<and>
     (\<exists>es first sub cmd ui. trace t = tr @ es \<and> sockets_opened es = [] \<and>
        sockets_closed es = [hs, hb, hc, hu, lg] \<and> first_topics hb user first \<and> forwards E hb hc hu sub cmd ui \<and>
        closes hb (first @ sub) (io_on hb es) \<and> closes hc cmd (io_on hc es) \<and> closes hu ui (io_on hu es))"

lemma receiver_end_ok:
  fixes E :: "'w ext"
  assumes "rcv_at H c lg hs hb hc hu" "seen lg H tr io s"
    and "first_topics hb user first" "io hb = first @ sub" "forwards E hb hc hu sub (io hc) (io hu)"
  shows "wp (receiver_end E c) (\<lambda>_. rcv_completed E c H tr lg hs hb hc hu user) F s"
proof -
  note c = as_ctl_at [OF assms(1)]
  note S = rcv_atD [OF assms(1)]
  have l: "sock_in (four_off (as_ctl c) H) (r_logs c) lg"
  proof -
    from S(1) obtain a where a: "r_logs c = Some a" "H a = Some (BSock lg)" by (auto simp: sock_in_def)
    with S(2-9) have "a \<notin> set [the (r_shutdown c), the (r_chat c), the (r_command c), the (r_ui c)]"
      by (auto simp: sock_in_def)
    with a show ?thesis by (simp add: sock_in_def four_off_def heap_off_apply as_ctl_def)
  qed
  have off: "(four_off (as_ctl c) H)(the (r_logs c) := None) = all_off c H"
    by (auto simp: four_off_def all_off_def heap_off_apply as_ctl_def)
  have clean: "wp (clean_up_receiver E (r_shutdown c) (r_chat c) (r_command c) (r_ui c))
    (\<lambda>_ t. \<exists>io'. seen_off [hs, hb, hc, hu] lg (four_off (as_ctl c) H) tr io' t \<and> four_closed hs hb hc hu io io') F s"
    using clean_up_ok [OF c assms(2), of E F] by (simp add: clean_up_receiver_eq as_ctl_def)
  show ?thesis
    unfolding receiver_end_def log_app_receiver_eq wp_seq wp_ret
  proof (rule wp_then [OF clean], elim exE conjE, erule seen_log [OF _ l], erule seen_destroy_logs [OF _ l],
      unfold off append.simps)
    fix io' and u :: "'w st"
    assume io': "four_closed hs hb hc hu io io'" and u: "seen_off [hs, hb, hc, hu, lg] lg (all_off c H) tr io' u"
    from seenD [OF u] obtain es where es: "heap u = all_off c H" "trace u = tr @ es"
      "\<And>h. h \<noteq> lg \<Longrightarrow> io_on h es = io' h" "sockets_opened es = []" "sockets_closed es = [hs, hb, hc, hu, lg]"
      by blast
    have "closes hb (first @ sub) (io_on hb es)" "closes hc (io hc) (io_on hc es)" "closes hu (io hu) (io_on hu es)"
      using io' S es(3) assms(4) by (auto simp: four_closed_def)
    with es assms(3,5) show "rcv_completed E c H tr lg hs hb hc hu user u"
      unfolding rcv_completed_def by blast
  qed
qed

lemma receiver_session_run:
  fixes E :: "'w ext" and s :: "'w st"
  defines "c' \<equiv> \<lambda>c hs hb hc. c\<lparr>r_items := [PollSocket hs, PollSocket hb, PollSocket hc]\<rparr>"
  assumes "recv_law E" "rcv_at (heap s) c lg hs hb hc hu" "heap_ok s" "has_cstr ua 0"
    and pre: "wp (receiver_begin E (r_shutdown c) (r_chat c) (r_command c) (r_ui c) (r_logs c) ua)
      (\<lambda>x t. (x = c' c hs hb hc \<and> (\<exists>es. first_topics hb (cs ua) es \<and> seen lg (heap s) (trace s) ((\<lambda>_. [])(hb := es)) t)) \<and> P t) F s"
    and loop: "\<And>t. P t \<Longrightarrow> rcv_inv E (c' c hs hb hc) (heap s) (trace t) lg hs hb hc hu t \<Longrightarrow>
      wp (forever fuel (receiver_step E (c' c hs hb hc))) (\<lambda>_. rcv_seen E (heap s) (trace t) lg hb hc hu) F t"
  shows "wp (receiver_session E fuel (r_shutdown c) (r_chat c) (r_command c) (r_ui c) (r_logs c) ua)
    (\<lambda>_. rcv_completed E c (heap s) (trace s) lg hs hb hc hu (cs ua)) F s"
  unfolding receiver_session_def wp_seq
proof (rule wp_then [OF pre], elim exE conjE)
  fix x es and t :: "'w st"
  assume x: "x = c' c hs hb hc" and es: "first_topics hb (cs ua) es" and P: "P t"
    and t: "seen lg (heap s) (trace s) ((\<lambda>_. [])(hb := es)) t"
  have at: "rcv_at (heap s) (c' c hs hb hc) lg hs hb hc hu"
    and off: "rcv_completed E (c' c hs hb hc) = rcv_completed E c"
    using assms(3) by (auto simp: c'_def rcv_at_def rcv_completed_def all_off_def intro!: ext)
  note S = rcv_atD [OF at]
  have "rcv_inv E (c' c hs hb hc) (heap s) (trace t) lg hs hb hc hu t"
    unfolding rcv_inv_def rcv_seen_def using assms(2) at seen_restart [OF t]
    by (auto intro!: exI [of _ "\<lambda>_. []"] fw_start)
  note run = loop [OF P this]
  show "wp (forever fuel (receiver_step E x)) (\<lambda>_. wp (receiver_end E x)
      (\<lambda>_. rcv_completed E c (heap s) (trace s) lg hs hb hc hu (cs ua)) F) F t"
    unfolding x
  proof (rule wp_then [OF run])
    fix r and u :: "'w st"
    assume "rcv_seen E (heap s) (trace t) lg hb hc hu u"
    then obtain io where u: "seen lg (heap s) (trace t) io u" and fw: "forwards E hb hc hu (io hb) (io hc) (io hu)"
      by (auto simp: rcv_seen_def)
    show "wp (receiver_end E (c' c hs hb hc)) (\<lambda>_. rcv_completed E c (heap s) (trace s) lg hs hb hc hu (cs ua)) F u"
      unfolding off [symmetric]
      by (rule receiver_end_ok [OF at seen_trans [OF t u, unfolded append_Nil] es]) (use S fw in auto)
  qed
qed

lemma receiver_session_partial:
  fixes E :: "'w ext"
  assumes "recv_law E" "rcv_at (heap s) c lg hs hb hc hu" "heap_ok s" "has_cstr ua 0"
  shows "wp (receiver_session E fuel (r_shutdown c) (r_chat c) (r_command c) (r_ui c) (r_logs c) ua)
    (\<lambda>_. rcv_completed E c (heap s) (trace s) lg hs hb hc hu (cs ua))
    (\<lambda>f. (f = OutOfBounds \<and> (\<not> fits E 255 \<or> \<not> fits E 2048)) \<or> f = OutOfFuel) s"
proof -
  let ?F = "\<lambda>f. (f = OutOfBounds \<and> (\<not> fits E 255 \<or> \<not> fits E 2048)) \<or> f = OutOfFuel"
  have "wp (receiver_begin E (r_shutdown c) (r_chat c) (r_command c) (r_ui c) (r_logs c) ua)
    (\<lambda>x t. (x = c\<lparr>r_items := [PollSocket hs, PollSocket hb, PollSocket hc]\<rparr> \<and>
       (\<exists>es. first_topics hb (cs ua) es \<and> seen lg (heap s) (trace s) ((\<lambda>_. [])(hb := es)) t)) \<and> True) ?F s"
    using receiver_begin_ok [OF assms(2) seen_start [OF assms(3)] assms(4)] by simp
  then show ?thesis
    by (rule receiver_session_run [OF assms]) (rule rcv.forever_partial)
qed

lemma receiver_session_total:
  fixes E :: "'w ext"
  assumes "recv_law E" "rcv_at (heap s) c lg hs hb hc hu" "heap_ok s" "has_cstr ua 0"
    and "steady E dl" "winds_down E [PollSocket hs, PollSocket hb, PollSocket hc] (-1) hs dl" "dl (world s) < fuel"
  shows "wp (receiver_session E fuel (r_shutdown c) (r_chat c) (r_command c) (r_ui c) (r_logs c) ua)
    (\<lambda>_. rcv_completed E c (heap s) (trace s) lg hs hb hc hu (cs ua))
    (\<lambda>f. f = OutOfBounds \<and> (\<not> fits E 255 \<or> \<not> fits E 2048)) s"
proof -
  let ?F = "\<lambda>f. f = OutOfBounds \<and> (\<not> fits E 255 \<or> \<not> fits E 2048)"
  have "tame dl (receiver_begin E (r_shutdown c) (r_chat c) (r_command c) (r_ui c) (r_logs c) ua)"
    unfolding receiver_begin_def log_app_receiver_eq
    by (intro tame_intros tame_wrappers [OF assms(5)])
  note begin1 = tame_wp [OF this receiver_begin_ok [OF assms(2) seen_start [OF assms(3)] assms(4), where E = E and F = ?F]]
  show ?thesis
    by (rule receiver_session_run [OF assms(1-4) begin1], rule rcv_ends.forever_total [where dl = dl])
      (use assms(5-7) in auto)
qed

end
