(* ===== verification/Receiver_Properties.thy ===== *)
theory Receiver_Properties
  imports Receiver_Thread
begin

text \<open>The properties of the receiver thread, and of its dialogue with the controller.\<close>

definition sim_rcv :: rcv_env where
  "sim_rcv = \<lparr>r_shutdown = Some 1, r_chat = Some 2, r_command = Some 3, r_ui = Some 4,
     r_logs = Some 0, r_items = []\<rparr>"

lemma sim_rcv_simps [simp]:
  "r_shutdown sim_rcv = Some 1" "r_chat sim_rcv = Some 2" "r_command sim_rcv = Some 3"
  "r_ui sim_rcv = Some 4" "r_logs sim_rcv = Some 0"
  by (simp_all add: sim_rcv_def)

lemma sim_rcv_at [simp]: "rcv_at (heap (sim_sockets w)) sim_rcv 10 11 12 13 14"
  by (simp add: rcv_at_def sock_in_def)

text \<open>
  C14. A published message: \<open>handle_chat_message\<close> reads the topic and, if there was one, the
  data; what it decodes to is formatted for the UI (cut at 1023 bytes, other payloads and
  undecodable data are dropped) and sent as one message. Memory is as before. It faults only
  when a topic of more than 255 or data of more than 2048 bytes arrive.
\<close>

theorem handle_chat_message_effect:
  assumes "recv_law E" "rcv_at (heap s) c lg hs hb hc hu" "heap_ok s"
  shows "wp (handle_chat_message E (r_chat c) (r_ui c))
    (\<lambda>_ t. heap t = heap s \<and> (\<exists>es. trace t = trace s @ es \<and> passed_on E hb hu (io_on hb es) (io_on hu es)))
    (\<lambda>f. f = OutOfBounds \<and> (\<not> fits E 255 \<or> \<not> fits E 2048)) s"
  by (rule wp_then [OF handle_chat_message_ok [OF assms(1,2) seen_start [OF assms(3)]]], simp)
    (use rcv_atD [OF assms(2)] in \<open>auto dest!: seenD\<close>)

theorem handle_chat_message_effect_witness:
  "\<exists>t. handle_chat_message sim_short (Some 2) (Some 4)
     (sim_sockets (empty_script\<lparr>inbox := [''room:general'', ''data'']\<rparr>)) = Inr ((), t)"
  using wp_runs [of _ _ "sim_sockets (empty_script\<lparr>inbox := [''room:general'', ''data'']\<rparr>)",
      OF handle_chat_message_effect [OF sim_short_laws(1) sim_rcv_at, simplified]]
  by auto

text \<open>
  A topic that is too long: \<open>zmq_recv\<close> returns its full length, and the NUL is written at
  that index, behind the 256-byte buffer.
\<close>

theorem overlong_topic_faults:
  assumes "recv_law E" "sock_at s p h" "256 \<le> length m"
    and "x_recv E h 255 0 (world s) = ((int (length m), take 255 m), w)"
  shows "handle_chat_message E p q s = Inl OutOfBounds"
proof -
  have "wp (handle_chat_message E p q) (\<lambda>_ _. False) (\<lambda>f. f = OutOfBounds) s"
    using assms(3,4) unfolding handle_chat_message_def wp_seq
    by (intro wp_local_arrayI) (auto simp: wp_socket_recv [OF assms(2)] wp_seq wp_poke)
  then show ?thesis by (auto simp: wp_def split: sum.splits)
qed

theorem overlong_topic_faults_witness:
  "handle_chat_message sim_ext (Some 2) (Some 4)
     (sim_sockets (empty_script\<lparr>inbox := [replicate 300 CHR ''x'']\<rparr>)) = Inl OutOfBounds"
  by (rule overlong_topic_faults [where h = 12 and m = "replicate 300 CHR ''x''" and w = "empty_script\<lparr>inbox := []\<rparr>"])
    (simp_all add: sock_at_def)

text \<open>
  C13. The instruction of the controller for a joined (left) room makes the receiver subscribe to
  (unsubscribe from) the topic \<open>room:<name>\<close>, cut at 126 bytes; this is the topic the server
  publishes the messages of the room on.
\<close>

theorem instruction_followed:
  assumes "laws E" "rcv_at (heap s) c lg hs hb hc hu" "heap_ok s" "fits E 255"
    and "nul_free room" "payload e = ACK a"
    and "\<forall>w rc d w'. x_recv E hc 255 0 w = ((rc, d), w') \<longrightarrow> rc = int (length d) \<and> instruction cmd e = [d]"
    and "cmd = (if join then CHAT_MESSAGE_JOIN_ROOM room else CHAT_MESSAGE_LEAVE_ROOM room)"
  shows "wp (handle_command E (r_command c) (r_chat c) (r_logs c))
    (\<lambda>_ t. heap t = heap s \<and> (\<exists>es rc. trace t = trace s @ es \<and>
       io_on hb es = [ZOpt hb (if join then ZMQ_SUBSCRIBE else ZMQ_UNSUBSCRIBE) (take 126 (''room:'' @ room)) rc]))
    no_fault s"
proof -
  note S = rcv_atD [OF assms(2)]
  have rl: "recv_law E" using assms(1) by (simp add: laws_def)
  have d: "instruction cmd e = [take 127 cmd]" using assms(6) by (simp add: instruction_def)
  have tl: "cs (take 126 (''room:'' @ room)) = take 126 (''room:'' @ room)"
    using assms(5) by (intro cs_id nul_free_take) (simp add: NUL_def)
  have c: "take 127 cmd = (if join then CHR ''+'' else CHR ''-'') # take 126 (''room:'' @ room)"
    by (simp add: assms(8) CHAT_MESSAGE_JOIN_ROOM_def CHAT_MESSAGE_LEAVE_ROOM_def)
  show ?thesis
  proof (rule wp_then [OF handle_command_ok [OF rl assms(2) seen_start [OF assms(3)]]])
    fix r and t
    assume "\<exists>cmd sub. instructed E hc hb cmd sub \<and>
      seen lg (heap s) (trace s) ((\<lambda>_. [])(hc := [] @ cmd, hb := [] @ sub)) t"
    then obtain n d' w w' sub where x: "x_recv E hc 255 0 w = ((n, d'), w')"
      and f: "if n \<le> 0 then sub = [] else n = int (length d') \<and> followed hb d' sub"
      and t: "seen lg (heap s) (trace s) ((\<lambda>_. [])(hc := [ZRecv hc n d'], hb := sub)) t"
      unfolding instructed_def by auto
    from x assms(7) d have d': "n = int (length d')" "d' = take 127 cmd" by auto
    then have "0 < n" unfolding c by simp
    then have "\<not> n \<le> 0" by simp
    with f have "followed hb d' sub" by simp
    then have "followed hb (take 127 cmd) sub" unfolding d'(2) .
    then obtain rc where sub: "sub = [ZOpt hb (if join then ZMQ_SUBSCRIBE else ZMQ_UNSUBSCRIBE) (take 126 (''room:'' @ room)) rc]"
      unfolding followed_def c list.sel tl by (auto split: if_splits)
    from seenD [OF t] S obtain es where "heap t = heap s" "trace t = trace s @ es" "io_on hb es = sub"
      by auto
    with sub show "heap t = heap s \<and> (\<exists>es rc. trace t = trace s @ es \<and>
       io_on hb es = [ZOpt hb (if join then ZMQ_SUBSCRIBE else ZMQ_UNSUBSCRIBE) (take 126 (''room:'' @ room)) rc])"
      by blast
  qed (use assms(4) in simp)
qed

theorem instruction_followed_witness:
  "\<exists>t. handle_command (sim_ext\<lparr>x_recv := (\<lambda>h n fl w. ((int (length (take n ''+room:go'')), take n ''+room:go''), w))\<rparr>)
     (Some 3) (Some 2) (Some 0) (sim_sockets empty_script) = Inr ((), t)"
proof -
  let ?E = "sim_ext\<lparr>x_recv := (\<lambda>h n fl w. ((int (length (take n ''+room:go'')), take n ''+room:go''), w))\<rparr>"
  let ?e = "\<lparr>message_id = [], payload = ACK \<lparr>ack_status = STATUS_OK, ack_message = []\<rparr>\<rparr>"
  have "laws ?E"
    by (auto simp: laws_def recv_law_def pack_law_def malloc_law_def sim_ext_def min_def
        intro!: exI [of _ "take _ ''+room:go''"])
  moreover have "fits ?E 255" by (simp add: fits_def)
  moreover have "nul_free ''go''" by (simp add: NUL_def)
  ultimately show ?thesis
    using wp_runs [OF instruction_followed [of ?E _ sim_rcv 10 11 12 13 14 "''go''" ?e _ "''+room:go''" True, OF _ sim_rcv_at]]
    by (fastforce simp: instruction_def CHAT_MESSAGE_JOIN_ROOM_def)
qed

text \<open>
  C5. A whole session of the receiver: it subscribes to the topic of its user and to the general
  room; then, however long it runs, each published message is passed on once and each
  instruction followed, in the order of their arrival, and the UI is sent nothing else; at the
  end the five sockets, the one for shutdown and the one for the logs included, are closed, each
  once and in this order, and their wrappers are released, so that memory is as before but for
  them. The only fault is an overlong message.
\<close>

theorem receiver_session_protocol:
  fixes E :: "'w ext"
  assumes "recv_law E" "rcv_at (heap s) c lg hs hb hc hu" "heap_ok s" "has_cstr ua 0"
  shows "wp (receiver_session E fuel (r_shutdown c) (r_chat c) (r_command c) (r_ui c) (r_logs c) ua)
    (\<lambda>_ t. heap t = all_off c (heap s) \<and>
       (\<exists>es first sub cmd ui. trace t = trace s @ es \<and>
          sockets_opened es = [] \<and> sockets_closed es = [hs, hb, hc, hu, lg] \<and>
          first_topics hb (cs ua) first \<and> forwards E hb hc hu sub cmd ui \<and>
          closes hb (first @ sub) (io_on hb es) \<and> closes hc cmd (io_on hc es) \<and> closes hu ui (io_on hu es)))
    (\<lambda>f. (f = OutOfBounds \<and> (\<not> fits E 255 \<or> \<not> fits E 2048)) \<or> f = OutOfFuel) s"
  by (rule wp_then [OF receiver_session_partial [OF assms]]) (simp add: rcv_completed_def)

theorem receiver_session_protocol_witness:
  "\<exists>t. receiver_session sim_short 2 (Some 1) (Some 2) (Some 3) (Some 4) (Some 0) (''bob'' @ [NUL])
       (sim_sockets (empty_script\<lparr>polls := [(1, [False, True])], inbox := [''room:general'', ''data'']\<rparr>)) = Inr ((), t) \<and>
     heap t = Map.empty \<and> sockets_closed (trace t) = [11, 12, 13, 14, 10]"
proof -
  let ?w = "empty_script\<lparr>polls := [(1, [False, True])], inbox := [''room:general'', ''data'']\<rparr>"
  have ua: "has_cstr (''bob'' @ [NUL]) 0" by (simp add: has_cstr_def)
  have off: "all_off sim_rcv (heap (sim_sockets ?w)) = Map.empty"
    by (rule ext) (auto simp: all_off_def heap_off_apply)
  note run = receiver_session_protocol [OF sim_short_laws(1) sim_rcv_at [of ?w] _ ua, of 2]
  have "wp (receiver_session sim_short 2 (Some 1) (Some 2) (Some 3) (Some 4) (Some 0) (''bob'' @ [NUL])) (\<lambda>_ _. True)
      no_fault (sim_sockets ?w)"
    using receiver_session_total [OF sim_short_laws(1) sim_rcv_at [of ?w] _ ua sim_steady sim_winds_down, of 2]
    by (auto simp: wp_def split: sum.splits prod.splits)
  with run off show ?thesis
    by (auto simp: wp_def split: sum.splits prod.splits)
qed

text \<open>
  C32. The receiver ends: in an environment that winds down, the fuel that its measure gives is
  enough for the whole session.
\<close>

theorem receiver_session_ends:
  fixes E :: "'w ext"
  assumes "recv_law E" "rcv_at (heap s) c lg hs hb hc hu" "heap_ok s" "has_cstr ua 0"
    and "steady E dl" "winds_down E [PollSocket hs, PollSocket hb, PollSocket hc] (-1) hs dl" "dl (world s) < fuel"
  shows "receiver_session E fuel (r_shutdown c) (r_chat c) (r_command c) (r_ui c) (r_logs c) ua s \<noteq> Inl OutOfFuel"
  using receiver_session_total [OF assms] by (auto simp: wp_def)

theorem receiver_session_ends_witness:
  "receiver_session sim_short 2 (Some 1) (Some 2) (Some 3) (Some 4) (Some 0) (''bob'' @ [NUL])
     (sim_sockets (empty_script\<lparr>polls := [(0, [])]\<rparr>)) \<noteq> Inl OutOfFuel"
proof -
  have "has_cstr (''bob'' @ [NUL]) 0" by (simp add: has_cstr_def)
  then show ?thesis
    using receiver_session_ends [OF sim_short_laws(1) sim_rcv_at [of "empty_script\<lparr>polls := [(0, [])]\<rparr>"] _ _ sim_steady sim_winds_down, of "''bob'' @ [NUL]"]
    by simp
qed

end
