(* ===== verification/Ui.thy ===== *)
theory Ui
  imports Dialogue
begin

text \<open>
  \<open>client/chat_client_ui.c\<close>: the thread at the terminal. Its loop serves the shutdown channel, the
  notifications of the receiver, the lines the user types, which go to the controller and are
  answered by it, and the log messages of the other threads.
\<close>

section \<open>Texts\<close>

text \<open>The usage text in UTF-8.\<close>

definition USAGE :: string where
  "USAGE = [CHR 0x0A] @ ''Dost'' @ [CHR 0xC4, CHR 0x99] @ ''pne komendy:'' @ [CHR 0x0A]
     @ ''/rooms                     - lista pokoj'' @ [CHR 0xC3, CHR 0xB3] @ ''w'' @ [CHR 0x0A]
     @ ''/join <nazwa_pokoju>       - do'' @ [CHR 0xC5, CHR 0x82, CHR 0xC4, CHR 0x85] @ ''cza do pokoju'' @ [CHR 0x0A]
     @ ''/leave <nazwa_pokoju>      - opuszcza pok'' @ [CHR 0xC3, CHR 0xB3] @ ''j'' @ [CHR 0x0A]
     @ ''/msg <nazwa_pokoju> <tre'' @ [CHR 0xC5, CHR 0x9B, CHR 0xC4, CHR 0x87] @ ''>- wysy'' @ [CHR 0xC5, CHR 0x82]
     @ ''a wiadomo'' @ [CHR 0xC5, CHR 0x9B, CHR 0xC4, CHR 0x87] @ [CHR 0x0A]
     @ ''/dm <u'' @ [CHR 0xC5, CHR 0xBC] @ ''ytkownik> <tre'' @ [CHR 0xC5, CHR 0x9B, CHR 0xC4, CHR 0x87]
     @ ''>   - wiadomo'' @ [CHR 0xC5, CHR 0x9B, CHR 0xC4, CHR 0x87] @ '' prywatna'' @ [CHR 0x0A]
     @ ''/quit                      - wyj'' @ [CHR 0xC5, CHR 0x9B] @ ''cie'' @ [CHR 0x0A, CHR 0x0A]"

section \<open>Handlers\<close>

definition clean_up_ui :: "'w ext \<Rightarrow> ptr \<Rightarrow> ptr \<Rightarrow> ptr \<Rightarrow> ('w st, unit) prog" where
  "clean_up_ui E socket_sub_shutdown socket_pair_command socket_pair_sub =
     bnd (socket_destroy E (Some socket_sub_shutdown)) (\<lambda>_.
     bnd (socket_destroy E (Some socket_pair_command)) (\<lambda>_.
     bnd (socket_destroy E (Some socket_pair_sub)) (\<lambda>_. ret ())))"

definition print_received_chat_message :: "string \<Rightarrow> ('w st, unit) prog" where
  "print_received_chat_message chat_message =
     bnd (cstr_at chat_message 0) (\<lambda>m. printf ([CHR 0x0D] @ m @ [CHR 0x0A] @ ''> ''))"

text \<open>It waits for \<open>KILL_CONTROLLER\<close>, not for \<open>KILL_UI\<close>.\<close>

definition handle_shutdown_message_ui :: "'w ext \<Rightarrow> ptr \<Rightarrow> ('w st, int) prog" where
  "handle_shutdown_message_ui E socket_sub_shutdown =
     bnd (socket_recv E socket_sub socket_sub_shutdown (replicate 64 NUL) 63 0) (\<lambda>(bytes, shutdown_msg).
     if bytes > 0 then
       let bytes = (if bytes \<ge> 64 then 63 else bytes) in
       bnd (poke shutdown_msg bytes NUL) (\<lambda>shutdown_msg.
       bnd (cstr_at shutdown_msg 0) (\<lambda>m.
       if m = CHAT_MESSAGE_KILL_CONTROLLER then
         bnd (log_app_print E (''[ZMQClient][ui thread] received KILL signal. shutting down cleanly...'' @ [CHR 0x0A])) (\<lambda>_.
         ret (-1))
       else ret 0))
     else ret 0)"

text \<open>What the loop uses.\<close>

record ui_env =
  u_shutdown :: ptr
  u_command :: ptr
  u_sub :: ptr
  u_logs :: ptr
  u_items :: "pollitem list"

text \<open>The four parts of the loop body, in their order. A notification:\<close>

definition ui_notification :: "'w ext \<Rightarrow> ui_env \<Rightarrow> ('w st, unit) prog" where
  "ui_notification E u =
     bnd (local_array E 1024) (\<lambda>received_chat_message_buffer.
     bnd (socket_recv E socket_pair (u_sub u) received_chat_message_buffer 1023 0) (\<lambda>(n, buffer).
     only_if (n > 0)
       (bnd (poke buffer n NUL) (\<lambda>buffer. print_received_chat_message buffer))))"

text \<open>
  A line of the terminal. The outcome says how the loop goes on: \<open>Break\<close>, \<open>Continue\<close> (skipping
  the logs of this round) or \<open>Next\<close>. Of the array \<open>line\<close>, which outlives the round in the code,
  only what \<open>fgets\<close> has just stored is read.
\<close>

datatype outcome = Break | Continue | Next

definition ui_input :: "'w ext \<Rightarrow> ui_env \<Rightarrow> ('w st, outcome) prog" where
  "ui_input E u =
     bnd (local_array E 512) (\<lambda>line.
     bnd (ask (x_fgets E 511)) (\<lambda>r.
     case r of None \<Rightarrow> ret Break
     | Some l \<Rightarrow>
       bnd (write_at line 0 (l @ [NUL])) (\<lambda>line.
       bnd (cstr_at line 0) (\<lambda>x.
       bnd (poke line (int (strcspn x [CHR 0x0D, CHR 0x0A])) NUL) (\<lambda>line.
       bnd (cstr_at line 0) (\<lambda>x.
       if length x = 0 then bnd (printf ''> '') (\<lambda>_. ret Continue)
       else if x = ''/quit'' then
         bnd (socket_send E socket_pair (u_command u) (''/quit'' @ [NUL]) 5 0) (\<lambda>_.
         bnd (emit (Raised SIGINT)) (\<lambda>_. ret Break))
       else
         bnd (socket_send E socket_pair (u_command u) line (length x) 0) (\<lambda>_.
         bnd (local_array E 2048) (\<lambda>response_buf.
         bnd (socket_recv E socket_pair (u_command u) response_buf 2047 0) (\<lambda>(bytes, response_buf).
         bnd (only_if (bytes > 0)
           (bnd (poke response_buf bytes NUL) (\<lambda>response_buf.
            print_received_chat_message response_buf))) (\<lambda>_.
         bnd (printf ''> '') (\<lambda>_. ret Next)))))))))))"

definition ui_log :: "'w ext \<Rightarrow> ui_env \<Rightarrow> ('w st, unit) prog" where
  "ui_log E u =
     bnd (local_array E 1024) (\<lambda>log_msg.
     bnd (socket_recv E socket_pull (u_logs u) log_msg 1023 0) (\<lambda>(bytes, log_msg).
     only_if (bytes > 0)
       (bnd (poke log_msg bytes NUL) (\<lambda>log_msg.
        bnd (cstr_at log_msg 0) (\<lambda>x. log_app_print E x)))))"

definition ui_step :: "'w ext \<Rightarrow> ui_env \<Rightarrow> ('w st, bool) prog" where
  "ui_step E u =
     bnd (z_poll E (u_items u) 100) (\<lambda>(rc, revents).
     if rc < 0 then
       bnd (gets (\<lambda>s. x_eintr E (world s))) (\<lambda>interrupted.
       if interrupted then ret True
       else bnd (log_app_print E (''[ZMQClient][UI Thread] zmq_poll error'')) (\<lambda>_. ret False))
     else
       bnd (if readable revents 0 then handle_shutdown_message_ui E (u_shutdown u) else ret 0) (\<lambda>stop.
       if stop < 0 then ret False
       else
         bnd (only_if (readable revents 1) (ui_notification E u)) (\<lambda>_.
         bnd (if readable revents 2 then ui_input E u else ret Next) (\<lambda>out.
         case out of Break \<Rightarrow> ret False | Continue \<Rightarrow> ret True
         | Next \<Rightarrow> bnd (only_if (readable revents 3) (ui_log E u)) (\<lambda>_. ret True)))))"

section \<open>The thread\<close>

definition ui_begin :: "'w ext \<Rightarrow> ptr \<Rightarrow> ptr \<Rightarrow> ptr \<Rightarrow> ptr \<Rightarrow> ('w st, ui_env) prog" where
  "ui_begin E socket_sub_shutdown socket_pair_command socket_pair_sub socket_pull_logs =
     bnd (log_app_print E USAGE) (\<lambda>_.
     bnd (socket_get_raw socket_sub_shutdown) (\<lambda>raw0.
     bnd (socket_get_raw socket_pair_sub) (\<lambda>raw1.
     bnd (socket_get_raw socket_pull_logs) (\<lambda>raw3.
     bnd (printf ''> '') (\<lambda>_.
     bnd (log_app_print E (''[ZMQClient][UI Thread] loop start!'' @ [CHR 0x0A])) (\<lambda>_.
     ret \<lparr>u_shutdown = socket_sub_shutdown, u_command = socket_pair_command, u_sub = socket_pair_sub,
          u_logs = socket_pull_logs,
          u_items = [poll_item raw0, poll_item raw1, PollFd 0, poll_item raw3]\<rparr>))))))"

definition ui_end :: "'w ext \<Rightarrow> ui_env \<Rightarrow> ('w st, unit) prog" where
  "ui_end E u =
     bnd (clean_up_ui E (u_shutdown u) (u_command u) (u_sub u)) (\<lambda>_.
     bnd (log_app_print E (''[ZMQClient][UI Thread] exit'' @ [CHR 0x0A])) (\<lambda>_.
     bnd (socket_destroy E (Some (u_logs u))) (\<lambda>_. ret ())))"

definition ui_session :: "'w ext \<Rightarrow> nat \<Rightarrow> ptr \<Rightarrow> ptr \<Rightarrow> ptr \<Rightarrow> ptr \<Rightarrow> ('w st, unit) prog" where
  "ui_session E fuel socket_sub_shutdown socket_pair_command socket_pair_sub socket_pull_logs =
     bnd (ui_begin E socket_sub_shutdown socket_pair_command socket_pair_sub socket_pull_logs) (\<lambda>u.
     bnd (forever fuel (ui_step E u)) (\<lambda>_. ui_end E u))"

definition routine_chat_ui :: "'w ext \<Rightarrow> nat \<Rightarrow> ptr \<Rightarrow> ('w st, unit) prog" where
  "routine_chat_ui E fuel arg =
     bnd (log_app_print E (''[ZMQClient][UI Thread] start ui_routine'' @ [CHR 0x0A])) (\<lambda>_.
     bnd (load_args arg) (\<lambda>(context, _).
     bnd (socket_new E socket_sub context) (\<lambda>socket_sub_shutdown.
     bnd (socket_connect E socket_sub socket_sub_shutdown INPROC_SHUTDOWN_ADDR) (\<lambda>rc.
     if rc = -1 then
       bnd (gets world) (\<lambda>w.
       bnd (log_app_print E (''[ZMQClient][UI Thread] shutdown socket connect failed: '' @ x_strerror E w @ [CHR 0x0A])) (\<lambda>_.
       bnd (socket_destroy E (Some socket_sub_shutdown)) (\<lambda>_. ret ())))
     else
     bnd (socket_sub_subscribe E socket_sub_shutdown []) (\<lambda>rc.
     if rc \<noteq> 0 then
       bnd (gets world) (\<lambda>w.
       bnd (log_app_print E (''[ZMQClient][UI Thread] shutdown socket subscribe failed: '' @ x_strerror E w @ [CHR 0x0A])) (\<lambda>_.
       bnd (socket_destroy E (Some socket_sub_shutdown)) (\<lambda>_. ret ())))
     else
     bnd (socket_new E socket_pair context) (\<lambda>socket_pair_command.
     bnd (socket_connect E socket_pair socket_pair_command CONROLLER_UI_COMMAND_ADDRESS) (\<lambda>rc.
     if rc \<noteq> 0 then
       bnd (log_app_print E (''[ZMQClient][UI Thread] connect inproc://command error'')) (\<lambda>_.
       clean_up_ui E socket_sub_shutdown socket_pair_command None)
     else
     bnd (socket_new E socket_pair context) (\<lambda>socket_pair_sub.
     bnd (socket_bind E socket_pair socket_pair_sub CONTROLLER_UI_NOTIFICATION_ADDRESS) (\<lambda>rc.
     if rc \<noteq> 0 then
       bnd (log_app_print E (''[ZMQClient][UI Thread] bind inproc://ui-notifications error'')) (\<lambda>_.
       clean_up_ui E socket_sub_shutdown socket_pair_command socket_pair_sub)
     else
     bnd (socket_new E socket_pull context) (\<lambda>socket_pull_logs.
     bnd (socket_bind E socket_pull socket_pull_logs APP_LOGS_ADDRESS) (\<lambda>_.
       ui_session E fuel socket_sub_shutdown socket_pair_command socket_pair_sub socket_pull_logs)))))))))))"

end
