(* ===== verification/Ui_Rules.thy ===== *)
theory Ui_Rules
  imports Ui Progress Sample_World
begin

text \<open>
  The UI thread in the calculus of \<open>Dialogue\<close>. It does not log through a socket, so the handle
  \<open>lg\<close> of \<open>seen\<close> is just one that is not used.
\<close>

section \<open>Handlers\<close>

definition ui_at :: "(nat \<rightharpoonup> block) \<Rightarrow> ui_env \<Rightarrow> nat \<Rightarrow> nat \<Rightarrow> nat \<Rightarrow> nat \<Rightarrow> nat \<Rightarrow> bool" where
  "ui_at H u lg hs hk hn hl \<longleftrightarrow>
     sock_in H (u_shutdown u) hs \<and> sock_in H (u_command u) hk \<and> sock_in H (u_sub u) hn \<and>
     sock_in H (u_logs u) hl \<and> distinct [lg, hs, hk, hn, hl]"

lemma ui_atD:
  assumes "ui_at H u lg hs hk hn hl"
  shows "sock_in H (u_shutdown u) hs" "sock_in H (u_command u) hk" "sock_in H (u_sub u) hn"
    "sock_in H (u_logs u) hl" "hs \<noteq> lg" "hk \<noteq> lg" "hn \<noteq> lg" "hl \<noteq> lg"
    "hs \<noteq> hk" "hs \<noteq> hn" "hs \<noteq> hl" "hk \<noteq> hn" "hk \<noteq> hl" "hn \<noteq> hl"
  using assms by (auto simp: ui_at_def)

text \<open>The documented behaviour of \<open>fgets\<close>: at least one and at most \<open>n\<close> bytes before the NUL.\<close>

definition fgets_law :: "'w ext \<Rightarrow> bool" where
  "fgets_law E \<longleftrightarrow> (\<forall>n w l w'. x_fgets E n w = (Some l, w') \<longrightarrow> l \<noteq> [] \<and> length l \<le> n)"

lemma seen_raise [seen_rules]:
  assumes "seen_off cl lg H tr io s" "\<And>t. seen_off cl lg H tr io t \<Longrightarrow> Q () t"
  shows "wp (emit (Raised sig)) Q F s"
  by (auto simp: wp_emit intro!: assms(2) seen_quiet [OF assms(1), where es = "[Raised sig]"])

lemma seen_log_print [seen_rules]:
  assumes "seen_off cl lg H tr io s" "\<And>t. seen_off cl lg H tr io t \<Longrightarrow> Q () t"
  shows "wp (log_app_print E m) Q F s"
  by (rule wp_log_app_print, rule assms(2), rule seen_quiet [OF assms(1), where es = "[Printed (''[LOG]'' @ cs (take 1023 m))]"]) simp_all

lemma seen_show [seen_rules]:
  assumes "seen lg H tr io s" "has_cstr b 0" "\<And>t. seen lg H tr io t \<Longrightarrow> Q () t"
  shows "wp (print_received_chat_message b) Q F s"
  unfolding print_received_chat_message_def wp_seq
  by (rule wp_cstr_wholeI [OF assms(2)], rule seen_print [OF assms(1)], rule assms(3))

text \<open>
  Receiving a message of at most \<open>n\<close> bytes into an array with room for a NUL, and terminating it.
\<close>

lemma seen_recv_text:
  assumes "seen lg H tr io s" "sock_in H p h" "h \<noteq> lg" "recv_law E" "length b = Suc n"
    and oob: "\<not> fits E n \<Longrightarrow> F OutOfBounds"
    and none: "\<And>t m d. m \<le> 0 \<Longrightarrow> seen lg H tr (io(h := io h @ [ZRecv h m d])) t \<Longrightarrow> Q () t"
    and some: "\<And>d r t. d \<noteq> [] \<Longrightarrow> length d \<le> n \<Longrightarrow> length (d @ NUL # r) = Suc n \<Longrightarrow>
      seen lg H tr (io(h := io h @ [ZRecv h (int (length d)) d])) t \<Longrightarrow> wp (K (d @ NUL # r)) Q F t"
  shows "wp (socket_recv E k p b n 0) (\<lambda>x. wp (case x of (m, b) \<Rightarrow> only_if (0 < m) (bnd (poke b m NUL) K)) Q F) F s"
proof (rule seen_recv [OF assms(1-4)], goal_cases)
  case 1
  then show ?case using assms(5) by simp
next
  case (2 t w)
  then show ?case using none [of "-1" "[]"] by (simp add: wp_ret)
next
  case (3 d t w)
  show ?case
  proof (cases "d = []")
    case True
    then show ?thesis using 3(2) none [of 0 "[]" t] by (simp add: wp_ret)
  next
    case False
    show ?thesis
    proof (cases "length d \<le> n")
      case True
      let ?b = "take n d @ drop (min (length d) n) b"
      have buf: "?b[length d := NUL] = d @ NUL # drop (Suc (length d)) b"
        using assms(5) True by (rule terminated_in_place)
      have "length d < length ?b" using assms(5) True by simp
      moreover have "wp (K (d @ NUL # drop (Suc (length d)) b)) Q F t"
        using False True assms(5) 3(2) by (intro some) simp_all
      moreover have "(0 < int (length d)) = True" using False by simp
      ultimately show ?thesis
        by (simp only: case_prod_conv only_if_simps wp_seq wp_poke nat_int of_nat_0_le_iff simp_thms if_True buf)
    next
      case long: False
      then have "\<not> fits E n" using 3(1) by (auto dest!: fitsD)
      moreover have "\<not> nat (int (length d)) < length (take n d @ drop (min (length d) n) b)"
        using long assms(5) by simp
      moreover have "(0 < int (length d)) = True" using False by simp
      ultimately show ?thesis
        using oob by (simp only: case_prod_conv only_if_simps wp_seq wp_poke simp_thms if_False)
    qed
  qed
qed

lemma wp_case_seq:
  "wp (case x of (m, b) \<Rightarrow> bnd (M m b) J) Q F = wp (case x of (m, b) \<Rightarrow> M m b) (\<lambda>u. wp (J u) Q F) F"
  by (cases x) (simp add: wp_seq)

lemma has_cstr_terminated [simp]: "has_cstr (d @ NUL # r) 0"
  by (simp add: has_cstr_def)

lemma ui_notification_ok:
  assumes "recv_law E" "ui_at H u lg hs hk hn hl" "seen lg H tr io s"
    and oob: "\<not> fits E 1023 \<Longrightarrow> F OutOfBounds"
  shows "wp (ui_notification E u) (\<lambda>_ t. \<exists>n d. seen lg H tr (io(hn := io hn @ [ZRecv hn n d])) t) F s"
  unfolding ui_notification_def wp_seq
  by (rule wp_local_arrayI, rule seen_recv_text [OF assms(3) ui_atD(3,7) [OF assms(2)] assms(1)])
    (auto simp: oob intro!: seen_show)

lemma ui_log_ok:
  assumes "recv_law E" "ui_at H u lg hs hk hn hl" "seen lg H tr io s"
    and oob: "\<not> fits E 1023 \<Longrightarrow> F OutOfBounds"
  shows "wp (ui_log E u) (\<lambda>_ t. \<exists>n d. seen lg H tr (io(hl := io hl @ [ZRecv hl n d])) t) F s"
  unfolding ui_log_def wp_seq
  by (rule wp_local_arrayI, rule seen_recv_text [OF assms(3) ui_atD(4,8) [OF assms(2)] assms(1)])
    (auto simp: wp_seq oob intro!: wp_cstr_wholeI seen_log_print)

text \<open>What the user typed: the line up to its first line break (or NUL).\<close>

definition typed :: "string \<Rightarrow> string" where
  "typed l = takeWhile (\<lambda>c. c \<notin> set [CHR 0x0D, CHR 0x0A]) (cs l)"

lemma typed_nul_free [simp]: "nul_free (typed l)"
  unfolding typed_def using cs_nul_free [of l] by (auto simp: nul_free_def dest: set_takeWhileD)

lemma typed_length: "length (typed l) \<le> length l"
  unfolding typed_def using length_takeWhile_le cs_length le_trans by metis

lemma cut_line:
  fixes line l :: string
  defines "b \<equiv> l @ NUL # drop (Suc (length l)) line"
  defines "k \<equiv> strcspn (cs b) [CHR 0x0D, CHR 0x0A]"
  shows "k < length b" "has_cstr (b[k := NUL]) 0" "cs (b[k := NUL]) = typed l" "length (b[k := NUL]) = length b"
    "cs b = cs l" "has_cstr b 0"
proof -
  show b: "cs b = cs l" "has_cstr b 0" by (simp_all add: b_def has_cstr_def)
  have x: "take (length (cs l)) b = cs l" using b(1) take_length_cs [of b] by simp
  have k: "k = length (typed l)" unfolding k_def b(1) by (simp add: strcspn_def typed_def)
  have le: "k \<le> length (cs l)" unfolding k typed_def by (rule length_takeWhile_le)
  have "take k b = typed l"
  proof -
    have "take k b = take k (cs l)" using x le by (metis min.absorb1 take_take)
    then show ?thesis unfolding k typed_def by (simp add: takeWhile_eq_take [symmetric])
  qed
  moreover show "k < length b" using le cs_length [of l] by (simp add: b_def)
  ultimately have "b[k := NUL] = typed l @ NUL # drop (Suc k) b"
    by (simp add: upd_conv_take_nth_drop)
  then show "has_cstr (b[k := NUL]) 0" "cs (b[k := NUL]) = typed l"
    by (simp_all add: cs_id)
qed simp

text \<open>The line is stored, read, cut at the line break and read again.\<close>

lemma wp_read_line:
  fixes b l :: string
  assumes "length b = 512" "length l \<le> 511" "\<And>line. cs line = typed l \<Longrightarrow> G line (typed l) s"
  shows "wp (write_at b 0 (l @ [NUL])) (\<lambda>line. wp (cstr_at line 0)
    (\<lambda>x. wp (poke line (int (strcspn x [CHR 0x0D, CHR 0x0A])) NUL) (\<lambda>line. wp (cstr_at line 0) (G line) F) F) F) F s"
proof -
  note c = cut_line [where l = l and line = b]
  have w: "wp (write_at b 0 (l @ [NUL])) Q F s = Q (l @ NUL # drop (Suc (length l)) b) s" for Q
    using assms(1,2) by (simp add: wp_write_at)
  show ?thesis
    unfolding w
    apply (rule wp_cstr_wholeI [OF c(6)])
    apply (simp only: wp_poke nat_int of_nat_0_le_iff simp_thms if_True c(1))
    apply (rule wp_cstr_wholeI [OF c(2)])
    apply (simp only: c(3))
    apply (rule assms(3), rule c(3))
    done
qed

text \<open>
  What the result \<open>r\<close> of \<open>fgets\<close> leads to on the command socket: nothing for the end of the
  input or a blank line, the quit command, or the line as a command and the receive of its answer.
\<close>

definition entered :: "nat \<Rightarrow> string option \<Rightarrow> outcome \<Rightarrow> event list \<Rightarrow> bool" where
  "entered hk r out es \<longleftrightarrow> (case r of
     None \<Rightarrow> out = Break \<and> es = []
   | Some l \<Rightarrow> length l \<le> 511 \<and>
       (if typed l = [] then out = Continue \<and> es = []
        else if typed l = CHAT_COMMAND_QUIT then out = Break \<and> (\<exists>rc. es = [ZSend hk CHAT_COMMAND_QUIT 0 rc])
        else out = Next \<and> (\<exists>rc n d. es = [ZSend hk (typed l) 0 rc, ZRecv hk n d])))"

lemma ui_input_ok:
  fixes E :: "'w ext"
  assumes "recv_law E" "fgets_law E" "ui_at H u lg hs hk hn hl" "seen lg H tr io s"
    and oob: "\<not> fits E 2047 \<Longrightarrow> F OutOfBounds"
  shows "wp (ui_input E u) (\<lambda>out t. \<exists>es. entered hk (fst (x_fgets E 511 (world s))) out es \<and>
      seen lg H tr (io(hk := io hk @ es)) t) F s"
proof -
  note S = ui_atD [OF assms(3)]
  obtain r w where x: "x_fgets E 511 (world s) = (r, w)" by (metis surj_pair)
  let ?Q = "\<lambda>out t. \<exists>es. entered hk r out es \<and> seen lg H tr (io(hk := io hk @ es)) t"
  have quiet: "?Q out t" if "seen lg H tr io t" "entered hk r out []" for out t
    using that by (intro exI [of _ "[]"]) (simp add: fun_upd_idem)
  have line: "wp (ask (x_fgets E 511)) (\<lambda>r. K r) F s"
    if "\<And>t. seen lg H tr io t \<Longrightarrow> r = None \<Longrightarrow> K None t"
      "\<And>l t. seen lg H tr io t \<Longrightarrow> r = Some l \<Longrightarrow> length l \<le> 511 \<Longrightarrow> K (Some l) t" for K
  proof -
    have t: "seen lg H tr io (s\<lparr>world := w\<rparr>)" by (rule seen_quiet [OF assms(4), where es = "[]"]) simp_all
    have "K r (s\<lparr>world := w\<rparr>)"
    proof (cases r)
      case l: (Some l)
      then have "length l \<le> 511" using assms(2) x by (auto simp: fgets_law_def)
      then show ?thesis using that(2) [OF t] l by simp
    qed (use that(1) [OF t] in simp)
    then show ?thesis using x by (simp add: wp_ask)
  qed
  have command: "wp (socket_send E socket_pair (u_command u) b (length x) 0) (\<lambda>_.
      wp (local_array E 2048) (\<lambda>response_buf.
      wp (socket_recv E socket_pair (u_command u) response_buf 2047 0) (\<lambda>r.
      wp (case r of (bytes, response_buf) \<Rightarrow> bnd (only_if (bytes > 0)
         (bnd (poke response_buf bytes NUL) (\<lambda>response_buf. print_received_chat_message response_buf))) (\<lambda>_.
       bnd (printf ''> '') (\<lambda>_. ret Next))) ?Q F) F) F) F t"
    if t: "seen lg H tr io t" and b: "cs b = x" and x: "x = typed l" "x \<noteq> []" "x \<noteq> CHAT_COMMAND_QUIT" "length l \<le> 511" "r = Some l"
    for b x l and t :: "'w st"
    unfolding b [symmetric] wp_case_seq
  proof (rule seen_send_cs [OF t S(2,6)], rule wp_local_arrayI, erule seen_recv_text [OF _ S(2,6) assms(1)], goal_cases)
    case (3 rc v r' w m d)
    have "entered hk r Next [ZSend hk (cs b) 0 rc, ZRecv hk m d]"
      unfolding entered_def b using x by auto
    then have "?Q Next z" if "seen lg H tr (io(hk := io hk @ [ZSend hk (cs b) 0 rc, ZRecv hk m d])) z" for z
      using that by blast
    then show ?case using 3(3) by (simp add: wp_seq wp_ret) (rule seen_print, assumption, blast)
  next
    case (4 rc v r' d q w)
    have "entered hk r Next [ZSend hk (cs b) 0 rc, ZRecv hk (int (length d)) d]"
      unfolding entered_def b using x by auto
    then have "?Q Next z" if "seen lg H tr (io(hk := io hk @ [ZSend hk (cs b) 0 rc, ZRecv hk (int (length d)) d])) z" for z
      using that by blast
    then show ?case
      using 4(5) by (simp add: wp_seq wp_ret)
        (rule seen_show, assumption, simp, erule seen_print, blast)
  qed (use oob in auto)
  show ?thesis
    unfolding ui_input_def wp_seq x fst_conv
  proof (rule wp_local_arrayI, rule line, goal_cases)
    case (1 b t)
    have "entered hk r Break []" using 1(3) by (simp add: entered_def)
    note q = quiet [OF 1(2) this]
    show ?case by (simp only: option.case wp_ret) (rule q)
  next
    case (2 b l t)
    note b = 2(1) and t = 2(2) and r = 2(3) and l = 2(4)
    show ?case
      unfolding option.case wp_seq
    proof (rule wp_read_line [OF b l], goal_cases)
      case (1 line)
      have len: "(length (typed l) = 0) = (typed l = [])" by simp
      show ?case
        apply (unfold len)
        apply (intro wp_ifI)
          apply (simp only: wp_seq wp_ret)
          apply (rule seen_print [OF t], erule quiet, use r l in \<open>simp add: entered_def\<close>)
         apply (simp only: wp_seq wp_ret)
         apply (rule seen_send [OF t S(2,6)], simp)
         apply (erule seen_raise)
         apply (rule exI, rule conjI [rotated], assumption)
         apply (use r l in \<open>simp add: entered_def CHAT_COMMAND_QUIT_def\<close>)
        apply (simp only: wp_seq)
        apply (rule command [OF t 1 refl _ _ l r], assumption)
        apply (simp add: CHAT_COMMAND_QUIT_def)
        done
    qed
  qed
qed

text \<open>The quit line, exactly.\<close>

lemma ui_input_quit:
  assumes "sock_at s (u_command u) h" "x_fgets E 511 (world s) = (Some l, w)" "length l \<le> 511"
    and "typed l = CHAT_COMMAND_QUIT" "x_send E h ''/quit'' 0 w = (rc, w')"
  shows "ui_input E u s = Inr (Break, s\<lparr>world := w', trace := trace s @ [ZSend h ''/quit'' 0 rc] @
    failure_note E w' rc (''E: '' @ kind_name socket_pair @ ''_send for '' @ kind_name socket_pair @ '' failed: '') @
    [Raised SIGINT]\<rparr>)"
    (is "_ = Inr (Break, ?t)")
proof -
  have s: "sock_at (s\<lparr>world := w\<rparr>) (u_command u) h" using assms(1) by (simp add: sock_at_def)
  have "wp (ui_input E u) (\<lambda>out t. out = Break \<and> t = ?t) no_fault s"
    unfolding ui_input_def wp_seq
  proof (rule wp_local_arrayI, unfold wp_ask assms(2) case_prod_conv option.case wp_seq, goal_cases)
    case (1 b)
    have "length (typed l) \<noteq> 0" "typed l = ''/quit''" using assms(4) by (simp_all add: CHAT_COMMAND_QUIT_def)
    then show ?case
      using assms(5)
      by (intro wp_read_line [OF 1 assms(3)]) (simp add: wp_seq wp_socket_send [OF s] wp_emit wp_ret)
  qed
  then show ?thesis by (auto dest: wp_runs)
qed

section \<open>The loop\<close>

text \<open>
  The conversation of the UI with the controller: each command, a non-empty line other than
  \<open>/quit\<close>, is followed by the receive of its answer; \<open>/quit\<close> may come last.
\<close>

inductive prompts :: "nat \<Rightarrow> event list \<Rightarrow> bool" for h where
  pr_start: "prompts h []"
| pr_command: "prompts h es \<Longrightarrow> x \<noteq> [] \<Longrightarrow> nul_free x \<Longrightarrow> length x \<le> 511 \<Longrightarrow> x \<noteq> CHAT_COMMAND_QUIT \<Longrightarrow>
    prompts h (es @ [ZSend h x 0 rc, ZRecv h n d])"

definition prompts_left :: "nat \<Rightarrow> event list \<Rightarrow> bool" where
  "prompts_left h es \<longleftrightarrow> prompts h es \<or> (\<exists>es' rc. es = es' @ [ZSend h CHAT_COMMAND_QUIT 0 rc] \<and> prompts h es')"

definition only_receives :: "nat \<Rightarrow> event list \<Rightarrow> bool" where
  "only_receives h es \<longleftrightarrow> (\<forall>e \<in> set es. \<exists>n d. e = ZRecv h n d)"

lemma only_receives_simps [simp]:
  "only_receives h []" "only_receives h es \<Longrightarrow> only_receives h (es @ [ZRecv h n d])"
  by (auto simp: only_receives_def)

definition ui_seen where
  "ui_seen dialogue H tr lg hk hn hl s \<longleftrightarrow>
     (\<exists>io. seen lg H tr io s \<and> dialogue hk (io hk) \<and> only_receives hn (io hn) \<and> only_receives hl (io hl))"

definition ui_inv where
  "ui_inv E u H tr lg hs hk hn hl s \<longleftrightarrow>
     recv_law E \<and> fgets_law E \<and> ui_at H u lg hs hk hn hl \<and> ui_seen prompts H tr lg hk hn hl s"

lemma ui_seen_left: "ui_seen prompts H tr lg hk hn hl s \<Longrightarrow> ui_seen prompts_left H tr lg hk hn hl s"
  unfolding ui_seen_def prompts_left_def by blast

lemma handle_shutdown_message_ui_ok:
  assumes "recv_law E" "sock_in H p hs" "hs \<noteq> lg" "seen lg H tr io s"
  shows "wp (handle_shutdown_message_ui E p)
    (\<lambda>r t. \<exists>n d w. x_recv E hs 63 0 (world s) = ((n, d), w) \<and>
       seen lg H tr (io(hs := io hs @ [ZRecv hs n d])) t \<and>
       r = (if 0 < n \<and> cs d = CHAT_MESSAGE_KILL_CONTROLLER then -1 else 0)) F s"
  unfolding handle_shutdown_message_ui_def
  by (rule seen_shutdown [OF assms]) (rule seen_log_print)

lemma ui_handlers:
  fixes s :: "'w st"
  assumes E: "recv_law E" "fgets_law E" and u: "ui_at H u lg hs hk hn hl" and s: "ui_seen prompts H tr lg hk hn hl s"
    and oob: "\<not> fits E 1023 \<or> \<not> fits E 2047 \<Longrightarrow> F OutOfBounds"
  shows "wp (ui_notification E u) (\<lambda>_. ui_seen prompts H tr lg hk hn hl) F s"
    and "wp (ui_log E u) (\<lambda>_. ui_seen prompts H tr lg hk hn hl) F s"
    and "wp (handle_shutdown_message_ui E (u_shutdown u)) (\<lambda>_. ui_seen prompts H tr lg hk hn hl) F s"
    and "wp (ui_input E u) (\<lambda>out. ui_seen (if out = Break then prompts_left else prompts) H tr lg hk hn hl) F s"
proof -
  note S = ui_atD [OF u]
  from s obtain io where s: "seen lg H tr io s"
    and io: "prompts hk (io hk)" "only_receives hn (io hn)" "only_receives hl (io hl)"
    by (auto simp: ui_seen_def)
  show "wp (ui_notification E u) (\<lambda>_. ui_seen prompts H tr lg hk hn hl) F s"
    by (rule wp_then [OF ui_notification_ok [OF E(1) u s]], rule oob, simp)
      (use S io in \<open>unfold ui_seen_def, fastforce\<close>)
  show "wp (ui_log E u) (\<lambda>_. ui_seen prompts H tr lg hk hn hl) F s"
    by (rule wp_then [OF ui_log_ok [OF E(1) u s]], rule oob, simp)
      (use S io in \<open>unfold ui_seen_def, fastforce\<close>)
  show "wp (handle_shutdown_message_ui E (u_shutdown u)) (\<lambda>_. ui_seen prompts H tr lg hk hn hl) F s"
    by (rule wp_then [OF handle_shutdown_message_ui_ok [OF E(1) S(1,5) s]])
      (use S io in \<open>unfold ui_seen_def, fastforce\<close>)
  show "wp (ui_input E u) (\<lambda>out. ui_seen (if out = Break then prompts_left else prompts) H tr lg hk hn hl) F s"
  proof (rule wp_then [OF ui_input_ok [OF E u s]], rule oob, simp, elim exE conjE)
    fix out es and t :: "'w st"
    assume x: "entered hk (fst (x_fgets E 511 (world s))) out es" and t: "seen lg H tr (io(hk := io hk @ es)) t"
    have "(if out = Break then prompts_left else prompts) hk (io hk @ es)"
    proof (cases out)
      case Next
      with x obtain l rc n d where "typed l \<noteq> []" "typed l \<noteq> CHAT_COMMAND_QUIT" "length l \<le> 511"
        "es = [ZSend hk (typed l) 0 rc, ZRecv hk n d]" by (auto simp: entered_def split: option.splits if_splits)
      moreover from this(3) have "length (typed l) \<le> 511" using typed_length [of l] by simp
      ultimately show ?thesis using Next io(1) by (auto intro: pr_command)
    qed (use x io(1) in \<open>auto simp: entered_def prompts_left_def split: option.splits if_splits\<close>)
    with t io S show "ui_seen (if out = Break then prompts_left else prompts) H tr lg hk hn hl t"
      unfolding ui_seen_def by (intro exI [of _ "io(hk := io hk @ es)"]) auto
  qed
qed

lemma wp_outcomeI:
  assumes "out = Break \<Longrightarrow> wp a Q F s" "out = Continue \<Longrightarrow> wp b Q F s" "out = Next \<Longrightarrow> wp c Q F s"
  shows "wp (case out of Break \<Rightarrow> a | Continue \<Rightarrow> b | Next \<Rightarrow> c) Q F s"
  using assms by (cases out) simp_all

text \<open>One round of the loop keeps what its four handlers keep; \<open>J\<close> holds when it is left.\<close>

lemma ui_step_rule:
  fixes s :: "'w st"
  assumes "I s" and left: "\<And>t. I t \<Longrightarrow> J t"
    and poll: "\<And>items tm t. I t \<Longrightarrow> wp (z_poll E items tm) (\<lambda>_. I) F t"
    and log: "\<And>m t. I t \<Longrightarrow> wp (log_app_print E m) (\<lambda>_. I) F t"
    and shutdown: "\<And>t. I t \<Longrightarrow> wp (handle_shutdown_message_ui E (u_shutdown u)) (\<lambda>_. I) F t"
    and notification: "\<And>t. I t \<Longrightarrow> wp (ui_notification E u) (\<lambda>_. I) F t"
    and input: "\<And>t. I t \<Longrightarrow> wp (ui_input E u) (\<lambda>out. if out = Break then J else I) F t"
    and logs: "\<And>t. I t \<Longrightarrow> wp (ui_log E u) (\<lambda>_. I) F t"
  shows "wp (ui_step E u) (\<lambda>again. if again then I else J) F s"
  unfolding ui_step_def wp_seq
  apply (rule wp_then [OF poll [OF assms(1)]])
  apply (unfold case_prod_beta)
  apply (rule wp_ifI)
   apply (simp only: wp_seq wp_gets)
   apply (rule wp_ifI)
    apply (simp add: wp_ret)
   apply (simp only: wp_seq wp_ret if_False)
   apply (rule wp_then, erule log, erule left)
  apply (simp only: wp_seq)
  apply (rule wp_then)
   apply (rule wp_ifI)
    apply (erule shutdown)
   apply (simp only: wp_ret)
  apply (rule wp_ifI)
   apply (simp only: wp_ret if_False)
   apply (erule left)
  apply (simp only: wp_seq)
  apply (rule wp_then, rule wp_only_ifI, erule notification, assumption)
  apply (rule wp_then [where P = "\<lambda>out. if out = Break then J else I"])
   apply (rule wp_ifI)
    apply (erule input)
   apply (simp add: wp_ret)
  apply (rule wp_outcomeI)
    apply (simp add: wp_ret)
   apply (simp add: wp_ret)
  apply (simp only: wp_seq wp_ret outcome.distinct if_False if_True)
  apply (rule wp_then, rule wp_only_ifI, erule logs, assumption)
  apply assumption
  done

lemma ui_step_ok:
  fixes s :: "'w st"
  assumes "ui_inv E u H tr lg hs hk hn hl s"
    and oob: "\<not> fits E 1023 \<or> \<not> fits E 2047 \<Longrightarrow> F OutOfBounds"
  shows "wp (ui_step E u) (\<lambda>again t. if again then ui_inv E u H tr lg hs hk hn hl t
      else ui_seen prompts_left H tr lg hk hn hl t) F s"
proof -
  from assms(1) have E: "recv_law E" "fgets_law E" and u: "ui_at H u lg hs hk hn hl"
    and s: "ui_seen prompts H tr lg hk hn hl s"
    by (auto simp: ui_inv_def)
  note h = ui_handlers [where F = F, OF E u _ oob]
  have "wp (ui_step E u) (\<lambda>again. if again then ui_seen prompts H tr lg hk hn hl
      else ui_seen prompts_left H tr lg hk hn hl) F s"
  proof (rule ui_step_rule [where I = "ui_seen prompts H tr lg hk hn hl", OF s], goal_cases)
    case (6 t)
    then show ?case
      by (rule wp_then [OF h(4)]) (auto split: if_splits)
  next
    case (2 items tm t)
    then show ?case unfolding ui_seen_def by (elim exE conjE) (erule seen_poll, blast)
  next
    case (3 m t)
    then show ?case unfolding ui_seen_def by (elim exE conjE) (erule seen_log_print, blast)
  qed (use h ui_seen_left in blast)+
  then show ?thesis
    by (rule wp_then) (use E u in \<open>auto simp: ui_inv_def split: if_splits\<close>)
qed

interpretation ui: loop_body "ui_step E u" "ui_inv E u H tr lg hs hk hn hl"
  "ui_seen prompts_left H tr lg hk hn hl" "\<lambda>f. f = OutOfBounds \<and> (\<not> fits E 1023 \<or> \<not> fits E 2047)"
  for E :: "'w ext" and u H tr lg hs hk hn hl
  by unfold_locales (erule ui_step_ok, simp)

section \<open>The loop ends\<close>

lemma tame_outcome [tame_intros]:
  assumes "tame dl a" "tame dl b" "tame dl c"
  shows "tame dl (case out of Break \<Rightarrow> a | Continue \<Rightarrow> b | Next \<Rightarrow> c)"
  using assms by (cases out) simp_all

lemma tame_ui:
  assumes "steady E dl"
  shows "tame dl (ui_notification E u)" "tame dl (ui_input E u)" "tame dl (ui_log E u)"
    "tame dl (handle_shutdown_message_ui E p)"
  unfolding ui_notification_def ui_input_def ui_log_def handle_shutdown_message_ui_def
    print_received_chat_message_def
  by (intro tame_intros tame_calls [OF assms] tame_wrappers [OF assms])+

lemma ui_step_variant:
  fixes s :: "'w st"
  assumes "ui_inv E u H tr lg hs hk hn hl s" "steady E dl" "winds_down E (u_items u) 100 hs dl"
    and oob: "\<not> fits E 1023 \<or> \<not> fits E 2047 \<Longrightarrow> F OutOfBounds"
  shows "wp (ui_step E u) (\<lambda>again t. again \<longrightarrow> dl (world t) < dl (world s)) F s"
proof (rule wp_faults [OF _ ui_step_ok [where F = F, OF assms(1) oob]])
  from assms(1) obtain io where E: "recv_law E" and u: "ui_at H u lg hs hk hn hl" and s: "seen lg H tr io s"
    by (auto simp: ui_inv_def ui_seen_def)
  note S = ui_atD [OF u]
  note tame = tame_wrappers [OF assms(2)] tame_ui [OF assms(2)]
  show "wp (ui_step E u) (\<lambda>again t. again \<longrightarrow> dl (world t) < dl (world s)) (\<lambda>_. True) s"
    unfolding ui_step_def wp_seq
  proof (rule poll_variant [OF s order_refl assms(3)], unfold case_prod_conv, goal_cases)
    case (1 x)
    then show ?case by (intro tame_intros tame)
  next
    case (2 rc rv v)
    then show ?case
      by (simp add: wp_seq wp_gets wp_ret) (rule wp_tameI [OF tame(7)], simp)
  next
    case (3 rc rv m d w v)
    show ?case
      unfolding if_not_P [OF 3(1)] if_P [OF 3(2)] wp_seq
      by (intro wp_then [OF handle_shutdown_message_ui_ok [OF E S(1,5) 3(6)]])
        (use 3(3-5) in \<open>auto simp: wp_ret\<close>)
  qed
qed

interpretation ui_ends: loop_variant "ui_step E u"
  "\<lambda>s. ui_inv E u H tr lg hs hk hn hl s \<and> steady E dl \<and> winds_down E (u_items u) 100 hs dl"
  "ui_seen prompts_left H tr lg hk hn hl" "\<lambda>f. f = OutOfBounds \<and> (\<not> fits E 1023 \<or> \<not> fits E 2047)" "\<lambda>s. dl (world s)"
  for E :: "'w ext" and u H tr lg hs hk hn hl dl
proof unfold_locales
  fix s :: "'w st"
  let ?F = "\<lambda>f. f = OutOfBounds \<and> (\<not> fits E 1023 \<or> \<not> fits E 2047)"
  assume s: "ui_inv E u H tr lg hs hk hn hl s \<and> steady E dl \<and> winds_down E (u_items u) 100 hs dl"
  have oob: "\<not> fits E 1023 \<or> \<not> fits E 2047 \<Longrightarrow> ?F OutOfBounds" by simp
  from s have "wp (ui_step E u) (\<lambda>again t. if again then ui_inv E u H tr lg hs hk hn hl t
      else ui_seen prompts_left H tr lg hk hn hl t) ?F s"
    by (intro ui_step_ok oob) auto
  then show "wp (ui_step E u) (\<lambda>again t. if again
      then ui_inv E u H tr lg hs hk hn hl t \<and> steady E dl \<and> winds_down E (u_items u) 100 hs dl
      else ui_seen prompts_left H tr lg hk hn hl t) ?F s"
    by (rule wp_then) (use s in \<open>auto split: if_splits\<close>)
  show "wp (ui_step E u) (\<lambda>again t. again \<longrightarrow> dl (world t) < dl (world s)) ?F s"
    using s by (intro ui_step_variant oob) auto
qed

end
