(* ===== verification/Ui_Thread.thy ===== *)
theory Ui_Thread
  imports Ui_Rules
begin

text \<open>The UI thread as a whole: the beginning, the loop, the end.\<close>

section \<open>The session\<close>

definition ui_off :: "ui_env \<Rightarrow> (nat \<rightharpoonup> block) \<Rightarrow> (nat \<rightharpoonup> block)" where
  "ui_off u H = heap_off H [the (u_shutdown u), the (u_command u), the (u_sub u), the (u_logs u)]"

lemma ui_begin_ok:
  assumes "ui_at H u lg hs hk hn hl" "seen lg H tr io s"
  shows "wp (ui_begin E (u_shutdown u) (u_command u) (u_sub u) (u_logs u))
    (\<lambda>u' t. u' = u\<lparr>u_items := [PollSocket hs, PollSocket hn, PollFd 0, PollSocket hl]\<rparr> \<and>
       seen lg H tr io t) F s"
proof -
  note S = ui_atD [OF assms(1)]
  have raw: "wp (socket_get_raw p) Q F t = Q (Some h) t" if "seen lg H tr io t" "sock_in H p h" for p h Q t
    by (rule wp_socket_get_raw [OF seen_sock_at [OF that]])
  show ?thesis
    unfolding ui_begin_def wp_seq wp_ret
    apply (rule seen_log_print [OF assms(2)])
    apply (simp only: raw [OF _ S(1)] raw [OF _ S(3)] raw [OF _ S(4)])
    apply (erule seen_print, erule seen_log_print)
    apply (simp add: poll_item_def)
    done
qed

definition ui_completed where
  "ui_completed u H tr hs hk hn hl t \<longleftrightarrow> heap t = ui_off u H \<and>
     (\<exists>es k n l. trace t = tr @ es \<and> sockets_opened es = [] \<and> sockets_closed es = [hs, hk, hn, hl] \<and>
        prompts_left hk k \<and> only_receives hn n \<and> only_receives hl l \<and>
        closes hk k (io_on hk es) \<and> closes hn n (io_on hn es) \<and> closes hl l (io_on hl es))"

lemma ui_end_ok:
  assumes "ui_at H u lg hs hk hn hl" "ui_seen prompts_left H tr lg hk hn hl s"
  shows "wp (ui_end E u) (\<lambda>_. ui_completed u H tr hs hk hn hl) F s"
proof -
  note S = ui_atD [OF assms(1)]
  from assms(2) obtain io where s: "seen lg H tr io s"
    and io: "prompts_left hk (io hk)" "only_receives hn (io hn)" "only_receives hl (io hl)"
    by (auto simp: ui_seen_def)
  from S(1-4) obtain a b d e where u: "u_shutdown u = Some a" "u_command u = Some b" "u_sub u = Some d"
      "u_logs u = Some e" and H: "H a = Some (BSock hs)" "H b = Some (BSock hk)" "H d = Some (BSock hn)"
      "H e = Some (BSock hl)"
    by (auto simp: sock_in_def)
  have ne: "a \<noteq> b" "a \<noteq> d" "a \<noteq> e" "b \<noteq> d" "b \<noteq> e" "d \<noteq> e"
    using S H by auto
  have off: "ui_off u H = H(a := None, b := None, d := None, e := None)"
    by (auto simp: ui_off_def u heap_off_apply)
  show ?thesis
    unfolding ui_end_def clean_up_ui_def u wp_seq wp_ret
    apply (rule seen_destroy [OF s H(1) S(5)])
    apply (erule seen_destroy [where h = hk])
      apply (simp add: H ne ne [symmetric])
     apply (rule S(6))
    apply (erule seen_destroy [where h = hn])
      apply (simp add: H ne ne [symmetric])
     apply (rule S(7))
    apply (erule seen_log_print)
    apply (erule seen_destroy [where h = hl])
      apply (simp add: H ne ne [symmetric])
     apply (rule S(8))
    unfolding ui_completed_def off [symmetric]
    apply (drule seenD, elim conjE exE, intro conjI, assumption)
    apply (rule exI, rule exI [of _ "io hk"], rule exI [of _ "io hn"], rule exI [of _ "io hl"])
    apply (intro conjI, assumption, assumption, simp, rule io, rule io, rule io)
    using S by (auto simp: closes_def)
qed

lemma ui_session_run:
  fixes E :: "'w ext" and s :: "'w st"
  defines "u' \<equiv> \<lambda>u hs hn hl. u\<lparr>u_items := [PollSocket hs, PollSocket hn, PollFd 0, PollSocket hl]\<rparr>"
  assumes "recv_law E" "fgets_law E" "ui_at (heap s) u lg hs hk hn hl" "heap_ok s"
    and pre: "wp (ui_begin E (u_shutdown u) (u_command u) (u_sub u) (u_logs u))
      (\<lambda>x t. (x = u' u hs hn hl \<and> seen lg (heap s) (trace s) (\<lambda>_. []) t) \<and> P t) F s"
    and loop: "\<And>t. P t \<Longrightarrow> ui_inv E (u' u hs hn hl) (heap s) (trace s) lg hs hk hn hl t \<Longrightarrow>
      wp (forever fuel (ui_step E (u' u hs hn hl))) (\<lambda>_. ui_seen prompts_left (heap s) (trace s) lg hk hn hl) F t"
  shows "wp (ui_session E fuel (u_shutdown u) (u_command u) (u_sub u) (u_logs u))
    (\<lambda>_. ui_completed u (heap s) (trace s) hs hk hn hl) F s"
  unfolding ui_session_def wp_seq
proof (rule wp_then [OF pre], elim conjE)
  fix x and t :: "'w st"
  assume x: "x = u' u hs hn hl" and t: "seen lg (heap s) (trace s) (\<lambda>_. []) t" and P: "P t"
  have at: "ui_at (heap s) (u' u hs hn hl) lg hs hk hn hl"
    and off: "ui_completed (u' u hs hn hl) = ui_completed u"
    using assms(4) by (auto simp: u'_def ui_at_def ui_completed_def ui_off_def intro!: ext)
  have "ui_inv E (u' u hs hn hl) (heap s) (trace s) lg hs hk hn hl t"
    unfolding ui_inv_def ui_seen_def using assms(2,3) at t
    by (auto intro!: exI [of _ "\<lambda>_. []"] pr_start)
  from loop [OF P this]
  show "wp (forever fuel (ui_step E x)) (\<lambda>_. wp (ui_end E x) (\<lambda>_. ui_completed u (heap s) (trace s) hs hk hn hl) F) F t"
    unfolding x by (rule wp_then) (unfold off [symmetric], erule ui_end_ok [OF at])
qed

lemma ui_session_partial:
  fixes E :: "'w ext"
  assumes "recv_law E" "fgets_law E" "ui_at (heap s) u lg hs hk hn hl" "heap_ok s"
  shows "wp (ui_session E fuel (u_shutdown u) (u_command u) (u_sub u) (u_logs u))
    (\<lambda>_. ui_completed u (heap s) (trace s) hs hk hn hl)
    (\<lambda>f. (f = OutOfBounds \<and> (\<not> fits E 1023 \<or> \<not> fits E 2047)) \<or> f = OutOfFuel) s"
proof -
  let ?F = "\<lambda>f. (f = OutOfBounds \<and> (\<not> fits E 1023 \<or> \<not> fits E 2047)) \<or> f = OutOfFuel"
  have "wp (ui_begin E (u_shutdown u) (u_command u) (u_sub u) (u_logs u))
    (\<lambda>x t. (x = u\<lparr>u_items := [PollSocket hs, PollSocket hn, PollFd 0, PollSocket hl]\<rparr> \<and>
       seen lg (heap s) (trace s) (\<lambda>_. []) t) \<and> True) ?F s"
    using ui_begin_ok [OF assms(3) seen_start [OF assms(4)]] by simp
  then show ?thesis
    by (rule ui_session_run [OF assms]) (rule ui.forever_partial)
qed

lemma tame_ui_begin:
  assumes "steady E dl"
  shows "tame dl (ui_begin E p q r l)"
  unfolding ui_begin_def by (intro tame_intros tame_wrappers [OF assms])

lemma ui_session_total:
  fixes E :: "'w ext"
  assumes "recv_law E" "fgets_law E" "ui_at (heap s) u lg hs hk hn hl" "heap_ok s"
    and "steady E dl" "winds_down E [PollSocket hs, PollSocket hn, PollFd 0, PollSocket hl] 100 hs dl"
    and "dl (world s) < fuel"
  shows "wp (ui_session E fuel (u_shutdown u) (u_command u) (u_sub u) (u_logs u))
    (\<lambda>_. ui_completed u (heap s) (trace s) hs hk hn hl)
    (\<lambda>f. f = OutOfBounds \<and> (\<not> fits E 1023 \<or> \<not> fits E 2047)) s"
proof -
  let ?F = "\<lambda>f. f = OutOfBounds \<and> (\<not> fits E 1023 \<or> \<not> fits E 2047)"
  note begin1 = tame_wp [OF tame_ui_begin [OF assms(5)] ui_begin_ok [OF assms(3) seen_start [OF assms(4)],
    where E = E and F = ?F]]
  show ?thesis
    by (rule ui_session_run [OF assms(1-4) begin1], rule ui_ends.forever_total [where dl = dl])
      (use assms(5-7) in auto)
qed

end
