(* ===== verification/Ui_Properties.thy ===== *)
theory Ui_Properties
  imports Ui_Thread
begin

text \<open>The properties of the UI thread.\<close>

definition sim_ui :: ui_env where
  "sim_ui = \<lparr>u_shutdown = Some 1, u_command = Some 2, u_sub = Some 3, u_logs = Some 4, u_items = []\<rparr>"

lemma sim_ui_simps [simp]:
  "u_shutdown sim_ui = Some 1" "u_command sim_ui = Some 2" "u_sub sim_ui = Some 3" "u_logs sim_ui = Some 4"
  by (simp_all add: sim_ui_def)

text \<open>The handle 10 stands for a socket the thread does not use.\<close>

lemma sim_ui_at [simp]: "ui_at (heap (sim_sockets w)) sim_ui 10 11 12 13 14"
  by (simp add: ui_at_def sock_in_def)

lemma sim_fgets [simp]: "fgets_law sim_short"
  by (auto simp: fgets_law_def split: list.splits if_splits)

text \<open>
  A notification of the receiver is shown at once: what was received, up to its first NUL,
  is printed on a line of its own, followed by a new prompt, and nothing else happens.
\<close>

theorem ui_notification_shows:
  assumes "recv_law E" "sock_at s (u_sub u) h" "d \<noteq> []"
    and "x_recv E h 1023 0 (world s) = ((int (length d), d), w)"
  shows "ui_notification E u s = Inr ((), s\<lparr>world := w,
    trace := trace s @ [ZRecv h (int (length d)) d, Printed ([CHR 0x0D] @ cs d @ [CHR 0x0A] @ ''> '')]\<rparr>)"
proof -
  have l: "length d \<le> 1023" using recv_law_length [OF assms(1,4)] .
  have buf: "(d @ drop (length d) b)[length d := NUL] = d @ NUL # drop (Suc (length d)) b" if "length b = 1024" for b
    using terminated_in_place [OF _ l, of b] that l by simp
  have "wp (ui_notification E u) (\<lambda>_ t. t = s\<lparr>world := w,
    trace := trace s @ [ZRecv h (int (length d)) d, Printed ([CHR 0x0D] @ cs d @ [CHR 0x0A] @ ''> '')]\<rparr>) no_fault s"
    unfolding ui_notification_def wp_seq print_received_chat_message_def
    apply (rule wp_local_arrayI)
    using l assms(3,4)
    apply (simp add: wp_socket_recv [OF assms(2)] failure_note_def wp_seq wp_poke buf)
    apply (rule wp_cstr_wholeI)
     apply (simp_all add: wp_printf)
    done
  then show ?thesis by (auto dest: wp_runs)
qed

theorem ui_notification_shows_witness:
  "ui_notification sim_short sim_ui (sim_sockets (empty_script\<lparr>inbox := [''ann: hi'']\<rparr>)) =
     Inr ((), (sim_sockets empty_script)\<lparr>trace := [ZRecv 13 7 ''ann: hi'',
       Printed ([CHR 0x0D] @ ''ann: hi'' @ [CHR 0x0A] @ ''> '')]\<rparr>)"
  using ui_notification_shows [of sim_short "sim_sockets (empty_script\<lparr>inbox := [''ann: hi'']\<rparr>)" sim_ui 13
      "''ann: hi''" empty_script]
  by (simp add: sock_at_def cs_def NUL_def sim_sockets_def empty_script_def)

text \<open>
  C12. A line of the terminal. What the user typed before the line break decides: the end of the
  input leaves the loop, a blank line only prints the prompt, \<open>/quit\<close> is passed to the controller
  and leaves the loop, anything else is sent to the controller as it was typed and one answer is
  read. Memory is as before; the only fault is an answer of more than 2047 bytes.
\<close>

theorem ui_input_reaction:
  assumes "recv_law E" "fgets_law E" "ui_at (heap s) u lg hs hk hn hl" "heap_ok s"
    and "x_fgets E 511 (world s) = (r, w)"
  shows "wp (ui_input E u) (\<lambda>out t. heap t = heap s \<and> (\<exists>es. trace t = trace s @ es \<and>
      entered hk r out (io_on hk es) \<and> (\<forall>h \<in> {hs, hn, hl}. io_on h es = [])))
    (\<lambda>f. f = OutOfBounds \<and> \<not> fits E 2047) s"
  by (rule wp_then [OF ui_input_ok [OF assms(1-3) seen_start [OF assms(4)]]], simp)
    (use ui_atD [OF assms(3)] assms(5) in \<open>auto dest!: seenD\<close>)

theorem ui_input_reaction_witness:
  "\<exists>out t. ui_input sim_short sim_ui (sim_sockets (empty_script\<lparr>lines_in := [''/rooms'' @ [CHR 0x0A]],
     inbox := [''[1] general'']\<rparr>)) = Inr (out, t)"
  using wp_runs [of _ _ "sim_sockets (empty_script\<lparr>lines_in := [''/rooms'' @ [CHR 0x0A]], inbox := [''[1] general'']\<rparr>)",
      OF ui_input_reaction [OF sim_short_laws(1) sim_fgets sim_ui_at, simplified]]
  by fastforce

text \<open>
  \<open>/quit\<close>: the controller is told first, then the process gets \<open>SIGINT\<close>, and the loop is
  left without waiting for an answer; if the message cannot be sent this goes unnoticed but for
  the line \<open>socket_send\<close> prints.
\<close>

theorem quit_line_raises:
  assumes "sock_at s (u_command u) h" "x_fgets E 511 (world s) = (Some l, w)" "length l \<le> 511"
    and "typed l = CHAT_COMMAND_QUIT" "x_send E h ''/quit'' 0 w = (rc, w')"
  shows "ui_input E u s = Inr (Break, s\<lparr>world := w', trace := trace s @ [ZSend h ''/quit'' 0 rc] @
    failure_note E w' rc (''E: '' @ kind_name socket_pair @ ''_send for '' @ kind_name socket_pair @ '' failed: '') @
    [Raised SIGINT]\<rparr>)"
  by (rule ui_input_quit [OF assms])

theorem quit_line_raises_witness:
  "\<exists>t. ui_input sim_short sim_ui (sim_sockets (empty_script\<lparr>lines_in := [''/quit'' @ [CHR 0x0A]]\<rparr>)) = Inr (Break, t) \<and>
     trace t = [ZSend 12 ''/quit'' 0 5, Raised SIGINT]"
  using quit_line_raises [of "sim_sockets (empty_script\<lparr>lines_in := [''/quit'' @ [CHR 0x0A]]\<rparr>)" sim_ui 12 sim_short]
  by (simp add: sock_at_def typed_def cs_def NUL_def CHAT_COMMAND_QUIT_def failure_note_def)

text \<open>
  C4. A whole session of the UI: however long it runs, on the command socket each command is
  followed by the receive of one answer before the next command, and \<open>/quit\<close> can only come last;
  the notifications and the logs are only read; at the end the four sockets, the one for
  shutdown included, are closed, each once and in this order, and their wrappers are released.
  The only fault is an overlong message.
\<close>

theorem ui_session_protocol:
  fixes E :: "'w ext"
  assumes "recv_law E" "fgets_law E" "ui_at (heap s) u lg hs hk hn hl" "heap_ok s"
  shows "wp (ui_session E fuel (u_shutdown u) (u_command u) (u_sub u) (u_logs u))
    (\<lambda>_ t. heap t = ui_off u (heap s) \<and>
       (\<exists>es k n l. trace t = trace s @ es \<and> sockets_opened es = [] \<and> sockets_closed es = [hs, hk, hn, hl] \<and>
          prompts_left hk k \<and> only_receives hn n \<and> only_receives hl l \<and>
          closes hk k (io_on hk es) \<and> closes hn n (io_on hn es) \<and> closes hl l (io_on hl es)))
    (\<lambda>f. (f = OutOfBounds \<and> (\<not> fits E 1023 \<or> \<not> fits E 2047)) \<or> f = OutOfFuel) s"
  by (rule wp_then [OF ui_session_partial [OF assms]]) (simp add: ui_completed_def)

theorem ui_session_protocol_witness:
  "\<exists>t. ui_session sim_short 2 (Some 1) (Some 2) (Some 3) (Some 4) (sim_sockets (empty_script\<lparr>
       polls := [(1, [False, False, True])], lines_in := [''/rooms'' @ [CHR 0x0A]], inbox := [''[1] general'']\<rparr>)) = Inr ((), t) \<and>
     heap t = Map.empty(0 \<mapsto> BSock 10) \<and> sockets_closed (trace t) = [11, 12, 13, 14]"
proof -
  let ?w = "empty_script\<lparr>polls := [(1, [False, False, True])], lines_in := [''/rooms'' @ [CHR 0x0A]],
    inbox := [''[1] general'']\<rparr>"
  have off: "ui_off sim_ui (heap (sim_sockets ?w)) = Map.empty(0 \<mapsto> BSock 10)"
    by (rule ext) (auto simp: ui_off_def heap_off_apply)
  note run = ui_session_protocol [OF sim_short_laws(1) sim_fgets sim_ui_at [of ?w], of 2]
  have "wp (ui_session sim_short 2 (Some 1) (Some 2) (Some 3) (Some 4)) (\<lambda>_ _. True) no_fault (sim_sockets ?w)"
    using ui_session_total [OF sim_short_laws(1) sim_fgets sim_ui_at [of ?w] _ sim_steady sim_winds_down, of 2]
    by (auto simp: wp_def split: sum.splits prod.splits)
  with run off show ?thesis
    by (auto simp: wp_def split: sum.splits prod.splits)
qed

text \<open>
  C33. The UI ends: in an environment that winds down, the fuel that its measure gives is enough
  for the whole session.
\<close>

theorem ui_session_ends:
  fixes E :: "'w ext"
  assumes "recv_law E" "fgets_law E" "ui_at (heap s) u lg hs hk hn hl" "heap_ok s"
    and "steady E dl" "winds_down E [PollSocket hs, PollSocket hn, PollFd 0, PollSocket hl] 100 hs dl"
    and "dl (world s) < fuel"
  shows "ui_session E fuel (u_shutdown u) (u_command u) (u_sub u) (u_logs u) s \<noteq> Inl OutOfFuel"
  using ui_session_total [OF assms] by (auto simp: wp_def)

theorem ui_session_ends_witness:
  "ui_session sim_short 2 (Some 1) (Some 2) (Some 3) (Some 4)
     (sim_sockets (empty_script\<lparr>polls := [(0, [])]\<rparr>)) \<noteq> Inl OutOfFuel"
  using ui_session_ends [OF sim_short_laws(1) sim_fgets sim_ui_at [of "empty_script\<lparr>polls := [(0, [])]\<rparr>"] _
      sim_steady sim_winds_down]
  by simp

end
