(* ===== verification/Setup_Rules.thy ===== *)
theory Setup_Rules
  imports Receiver_Thread Ui_Properties
begin

text \<open>
  Rules for the set-up of a thread: the assertion \<open>on_heap\<close> says what the heap is exactly and
  which sockets were opened and closed, with one rule for each operation the routines of the
  threads use before their sessions.
\<close>

section \<open>Rules\<close>

text \<open>
  The documented behaviour of \<open>zmq_socket\<close> when it succeeds: the handle of a new socket is not
  that of a socket in use. \<open>nh\<close> is a bound of the handles given out so far, which no call lowers.
\<close>

definition grows :: "('w \<Rightarrow> nat) \<Rightarrow> ('w \<Rightarrow> 'a \<times> 'w) \<Rightarrow> bool" where
  "grows nh f \<longleftrightarrow> (\<forall>w x w'. f w = (x, w') \<longrightarrow> nh w \<le> nh w')"

definition handle_law :: "'w ext \<Rightarrow> ('w \<Rightarrow> nat) \<Rightarrow> bool" where
  "handle_law E nh \<longleftrightarrow> (\<forall>k w h w'. x_socket E k w = (Some h, w') \<longrightarrow> nh w \<le> h \<and> h < nh w') \<and>
     (\<forall>k. grows nh (x_socket E k)) \<and> (\<forall>n. grows nh (x_malloc E n)) \<and>
     (\<forall>h ep. grows nh (x_connect E h ep)) \<and> (\<forall>h ep. grows nh (x_bind E h ep)) \<and>
     (\<forall>h opt v. grows nh (x_setsockopt E h opt v)) \<and> (\<forall>h d fl. grows nh (x_send E h d fl)) \<and>
     (\<forall>h w. nh w \<le> nh (x_close E h w))"

lemma handle_lawD:
  assumes "handle_law E nh"
  shows "x_malloc E n w = (x, w') \<Longrightarrow> nh w \<le> nh w'" "x_connect E h ep w = (rc, w') \<Longrightarrow> nh w \<le> nh w'"
    "x_bind E h ep w = (rc, w') \<Longrightarrow> nh w \<le> nh w'" "x_setsockopt E h opt v w = (rc, w') \<Longrightarrow> nh w \<le> nh w'"
    "x_send E h d fl w = (rc, w') \<Longrightarrow> nh w \<le> nh w'" "nh w \<le> nh (x_close E h w)"
  using assms by (auto simp: handle_law_def grows_def)

text \<open>The sockets on the heap have handles that were given out.\<close>

definition handles_ok :: "('w \<Rightarrow> nat) \<Rightarrow> 'w st \<Rightarrow> bool" where
  "handles_ok nh s \<longleftrightarrow> heap_ok s \<and> (\<forall>a h. heap s a = Some (BSock h) \<longrightarrow> h < nh (world s))"

text \<open>The heap is \<open>H\<close>; since the trace was \<open>tr\<close>, the sockets \<open>os\<close> were opened and \<open>cl\<close> closed.\<close>

definition on_heap ::
    "('w \<Rightarrow> nat) \<Rightarrow> event list \<Rightarrow> nat list \<Rightarrow> nat list \<Rightarrow> (nat \<rightharpoonup> block) \<Rightarrow> 'w st \<Rightarrow> bool" where
  "on_heap nh tr os cl H s \<longleftrightarrow> handles_ok nh s \<and> heap s = H \<and>
     (\<exists>es. trace s = tr @ es \<and> sockets_opened es = os \<and> sockets_closed es = cl)"

lemma on_heap_start: "handles_ok nh s \<Longrightarrow> on_heap nh (trace s) [] [] (heap s) s"
  by (simp add: on_heap_def)

lemma on_heap_same:
  assumes "on_heap nh tr os cl H s" "heap t = heap s" "fresh t = fresh s" "nh (world s) \<le> nh (world t)"
    and "sockets_opened es = []" "sockets_closed es = []" "trace t = trace s @ es"
  shows "on_heap nh tr os cl H t"
  using assms unfolding on_heap_def handles_ok_def heap_ok_def by fastforce

lemma on_heap_sock: "on_heap nh tr os cl H s \<Longrightarrow> H a = Some (BSock h) \<Longrightarrow> sock_at s (Some a) h"
  by (simp add: on_heap_def sock_at_def)

lemma on_heap_perror:
  assumes "on_heap nh tr os cl H s" "\<And>t. on_heap nh tr os cl H t \<Longrightarrow> Q () t"
  shows "wp (perror E m) Q F s"
  unfolding perror_def wp_seq wp_gets wp_emit by (rule assms(2), rule on_heap_same [OF assms(1)]) simp_all

lemma on_heap_print:
  assumes "on_heap nh tr os cl H s" "\<And>t. on_heap nh tr os cl H t \<Longrightarrow> Q () t"
  shows "wp (log_app_print E m) Q F s"
  by (rule wp_log_app_print, rule assms(2), rule on_heap_same [OF assms(1)]) simp_all

text \<open>The wrapper at \<open>a\<close> is alive; it stays so when other blocks are allocated.\<close>

definition alive :: "(nat \<rightharpoonup> block) \<Rightarrow> nat \<Rightarrow> bool" where
  "alive H a \<longleftrightarrow> (\<exists>h. H a = Some (BSock h))"

lemma alive_new: "alive (H(a \<mapsto> BSock h)) a"
  by (simp add: alive_def)

lemma alive_old: "alive H a \<Longrightarrow> H b = None \<Longrightarrow> alive (H(b \<mapsto> x)) a"
  by (auto simp: alive_def)

lemma on_heap_log:
  assumes "handle_law E nh" "on_heap nh tr os cl H s" "alive H a" "\<And>t. on_heap nh tr os cl H t \<Longrightarrow> Q () t"
  shows "wp (log_app E (Some a) m) Q F s"
proof -
  from assms(3) obtain h where h: "H a = Some (BSock h)" by (auto simp: alive_def)
  show ?thesis
    by (rule wp_log_app [OF on_heap_sock [OF assms(2) h]], rule assms(4), rule on_heap_same [OF assms(2)])
      (simp_all add: handle_lawD(5) [OF assms(1)])
qed

lemma on_heap_log_error:
  assumes "handle_law E nh" "on_heap nh tr os cl H s" "alive H a" "\<And>t. on_heap nh tr os cl H t \<Longrightarrow> Q () t"
  shows "wp (log_error E (Some a) m) Q F s"
  unfolding log_error_def wp_seq wp_gets by (rule on_heap_log [OF assms(1-3)]) (rule assms(4))

lemma on_heap_args:
  assumes "on_heap nh tr os cl H s" "H a = Some (BArgs c u)" "on_heap nh tr os cl H s \<Longrightarrow> Q (c, u) s"
  shows "wp (load_args (Some a)) Q F s"
  using assms by (simp add: load_args_def wp_seq wp_load on_heap_def wp_ret)

text \<open>
  A new socket is connected or bound at once, and its wrapper is not checked: without a wrapper
  this dereferences null.
\<close>

definition always_sockets :: "'w ext \<Rightarrow> bool" where
  "always_sockets E \<longleftrightarrow> (\<forall>k w. fst (x_socket E k w) \<noteq> None)"

lemma on_heap_new:
  assumes "handle_law E nh" "on_heap nh tr os cl H s"
    and "\<And>t. \<not> malloc_law E \<or> \<not> always_sockets E \<Longrightarrow> Q None t"
    and "\<And>a h t. H a = None \<Longrightarrow> (\<And>b. H b \<noteq> Some (BSock h)) \<Longrightarrow> on_heap nh tr (os @ [h]) cl (H(a \<mapsto> BSock h)) t \<Longrightarrow> Q (Some a) t"
  shows "wp (socket_new E k (Some c)) Q F s"
proof -
  obtain ok w where m: "x_malloc E 8 (world s) = (ok, w)" by fastforce
  obtain r w' where r: "x_socket E k w = (r, w')" by fastforce
  have "Q (Some (fresh s)) (s\<lparr>fresh := Suc (fresh s), world := w',
     trace := trace s @ [ZOpen k (Some h)], heap := (heap s)(fresh s \<mapsto> BSock h)\<rparr>)" if h: "r = Some h" for h
  proof -
    have n: "nh (world s) \<le> nh w" "nh w \<le> h" "h < nh w'"
      using handle_lawD(1) [OF assms(1) m] assms(1) r h by (auto simp: handle_law_def)
    show ?thesis
      using assms(2) n by (intro assms(4) [where h = h]) (fastforce simp: on_heap_def handles_ok_def heap_ok_def)+
  qed
  moreover have "Q None t" if "\<not> ok" for t
    using that m malloc_lawD [of E] by (intro assms(3)) blast
  moreover have "Q None t" if "r = None" for t
    using that r by (intro assms(3)) (metis always_sockets_def fst_conv)
  ultimately show ?thesis by (simp add: wp_socket_new m r split: option.split)
qed

lemma on_heap_new_connect:
  assumes "handle_law E nh" "on_heap nh tr os cl H s" "\<not> malloc_law E \<or> \<not> always_sockets E \<Longrightarrow> F NullPointer"
    and "\<And>a h rc w w' t. H a = None \<Longrightarrow> (\<And>b. H b \<noteq> Some (BSock h)) \<Longrightarrow> x_connect E h ep w = (rc, w') \<Longrightarrow>
      on_heap nh tr (os @ [h]) cl (H(a \<mapsto> BSock h)) t \<Longrightarrow> Q (Some a) rc t"
  shows "wp (socket_new E k (Some c)) (\<lambda>p. wp (socket_connect E k' p ep) (Q p) F) F s"
proof (rule on_heap_new [OF assms(1,2)])
  fix a h and t :: "'a st"
  assume n: "H a = None" "\<And>b. H b \<noteq> Some (BSock h)" and t: "on_heap nh tr (os @ [h]) cl (H(a \<mapsto> BSock h)) t"
  obtain rc w where x: "x_connect E h ep (world t) = (rc, w)" by fastforce
  let ?t = "t\<lparr>world := w, trace := trace t @ ZConnect h ep rc #
    failure_note E w rc (''E: socket connect for '' @ kind_name k' @ '' failed: '')\<rparr>"
  have "on_heap nh tr (os @ [h]) cl (H(a \<mapsto> BSock h)) ?t"
    using handle_lawD(2) [OF assms(1) x] by (intro on_heap_same [OF t]) simp_all
  from assms(4) [OF n x this] show "wp (socket_connect E k' (Some a) ep) (Q (Some a)) F t"
    by (simp add: wp_socket_connect [OF on_heap_sock [OF t fun_upd_same]] x)
qed (simp add: wp_null_wrapper assms(3))

lemma on_heap_new_bind:
  assumes "handle_law E nh" "on_heap nh tr os cl H s" "\<not> malloc_law E \<or> \<not> always_sockets E \<Longrightarrow> F NullPointer"
    and "\<And>a h rc w w' t. H a = None \<Longrightarrow> (\<And>b. H b \<noteq> Some (BSock h)) \<Longrightarrow> x_bind E h ep w = (rc, w') \<Longrightarrow>
      on_heap nh tr (os @ [h]) cl (H(a \<mapsto> BSock h)) t \<Longrightarrow> Q (Some a) rc t"
  shows "wp (socket_new E k (Some c)) (\<lambda>p. wp (socket_bind E k' p ep) (Q p) F) F s"
proof (rule on_heap_new [OF assms(1,2)])
  fix a h and t :: "'a st"
  assume n: "H a = None" "\<And>b. H b \<noteq> Some (BSock h)" and t: "on_heap nh tr (os @ [h]) cl (H(a \<mapsto> BSock h)) t"
  obtain rc w where x: "x_bind E h ep (world t) = (rc, w)" by fastforce
  let ?t = "t\<lparr>world := w, trace := trace t @ ZBind h ep rc #
    failure_note E w rc (''E: socket bind for '' @ kind_name k' @ '' failed: '')\<rparr>"
  have "on_heap nh tr (os @ [h]) cl (H(a \<mapsto> BSock h)) ?t"
    using handle_lawD(3) [OF assms(1) x] by (intro on_heap_same [OF t]) simp_all
  from assms(4) [OF n x this] show "wp (socket_bind E k' (Some a) ep) (Q (Some a)) F t"
    by (simp add: wp_socket_bind [OF on_heap_sock [OF t fun_upd_same]] x)
qed (simp add: wp_null_wrapper assms(3))

lemma on_heap_subscribe:
  assumes "handle_law E nh" "on_heap nh tr os cl H s" "H a = Some (BSock h)"
    and "\<And>rc w w' t. x_setsockopt E h ZMQ_SUBSCRIBE topic w = (rc, w') \<Longrightarrow> on_heap nh tr os cl H t \<Longrightarrow> Q rc t"
  shows "wp (socket_sub_subscribe E (Some a) topic) Q F s"
  by (auto simp: wp_socket_sub_subscribe [OF on_heap_sock [OF assms(2,3)]] handle_lawD(4) [OF assms(1)] split: prod.split
      intro!: assms(4) on_heap_same [OF assms(2)])

lemma on_heap_destroy:
  assumes "handle_law E nh" "on_heap nh tr os cl H s" "H a = Some (BSock h)"
    and "\<And>t. on_heap nh tr os (cl @ [h]) (H(a := None)) t \<Longrightarrow> Q (Some None) t"
  shows "wp (socket_destroy E (Some (Some a))) Q F s"
proof -
  have a: "heap s a = Some (BSock h)" using assms(2,3) by (simp add: on_heap_def)
  have "Q (Some None) (s\<lparr>world := x_close E h w, trace := trace s @ [ZOpt h ZMQ_LINGER zero_linger rc, ZClose h],
      heap := (heap s)(a := None)\<rparr>)" if "x_setsockopt E h ZMQ_LINGER zero_linger (world s) = (rc, w)" for rc w
  proof (rule assms(4))
    have "nh (world s) \<le> nh (x_close E h w)"
      using handle_lawD(4) [OF assms(1) that] handle_lawD(6) [OF assms(1)] order_trans by blast
    then show "on_heap nh tr os (cl @ [h]) (H(a := None)) (s\<lparr>world := x_close E h w,
        trace := trace s @ [ZOpt h ZMQ_LINGER zero_linger rc, ZClose h], heap := (heap s)(a := None)\<rparr>)"
      using assms(2) by (fastforce simp: on_heap_def handles_ok_def heap_ok_def split: if_splits)
  qed
  then show ?thesis by (simp add: wp_socket_destroy [OF a] split: prod.split)
qed

lemma on_heap_back: "on_heap nh tr os cl' H' t \<Longrightarrow> H' = H \<Longrightarrow> cl' = cl \<Longrightarrow> on_heap nh tr os cl H t"
  by simp

text \<open>The sample environment obeys the law, with its counter of handles.\<close>

lemma sim_handle_law [simp]: "handle_law sim_short next_handle"
  by (auto simp: handle_law_def grows_def sim_short_def sim_ext_def)

lemma sim_always_sockets [simp]: "always_sockets sim_short" "always_sockets sim_ext"
  by (simp_all add: always_sockets_def sim_short_def sim_ext_def)

section \<open>Several sockets\<close>

text \<open>\<open>clean_up\<close> after one, two, three or four of the sockets have been created.\<close>

lemma on_heap_clean:
  assumes "handle_law E nh" "H a = None"
  shows "on_heap nh tr os cl (H(a \<mapsto> BSock h)) s \<Longrightarrow> (\<And>t. on_heap nh tr os (cl @ [h]) H t \<Longrightarrow> Q () t) \<Longrightarrow>
      wp (clean_up E (Some a) None None None) Q F s"
    and "(H(a \<mapsto> BSock h)) b = None \<Longrightarrow> on_heap nh tr os cl (H(a \<mapsto> BSock h, b \<mapsto> BSock i)) s \<Longrightarrow>
      (\<And>t. on_heap nh tr os (cl @ [h, i]) H t \<Longrightarrow> Q () t) \<Longrightarrow>
      wp (clean_up E (Some a) (Some b) None None) Q F s"
    and "(H(a \<mapsto> BSock h)) b = None \<Longrightarrow> (H(a \<mapsto> BSock h, b \<mapsto> BSock i)) d = None \<Longrightarrow>
      on_heap nh tr os cl (H(a \<mapsto> BSock h, b \<mapsto> BSock i, d \<mapsto> BSock j)) s \<Longrightarrow>
      (\<And>t. on_heap nh tr os (cl @ [h, i, j]) H t \<Longrightarrow> Q () t) \<Longrightarrow> wp (clean_up E (Some a) (Some b) (Some d) None) Q F s"
    and "(H(a \<mapsto> BSock h)) b = None \<Longrightarrow> (H(a \<mapsto> BSock h, b \<mapsto> BSock i)) d = None \<Longrightarrow>
      (H(a \<mapsto> BSock h, b \<mapsto> BSock i, d \<mapsto> BSock j)) e = None \<Longrightarrow>
      on_heap nh tr os cl (H(a \<mapsto> BSock h, b \<mapsto> BSock i, d \<mapsto> BSock j, e \<mapsto> BSock k)) s \<Longrightarrow>
      (\<And>t. on_heap nh tr os (cl @ [h, i, j, k]) H t \<Longrightarrow> Q () t) \<Longrightarrow>
      wp (clean_up E (Some a) (Some b) (Some d) (Some e)) Q F s"
proof -
  note destroy = on_heap_destroy [OF assms(1)]
  show "wp (clean_up E (Some a) None None None) Q F s" if s: "on_heap nh tr os cl (H(a \<mapsto> BSock h)) s"
      and Q: "\<And>t. on_heap nh tr os (cl @ [h]) H t \<Longrightarrow> Q () t"
    unfolding clean_up_def wp_seq wp_ret wp_socket_destroy_null
    by (rule destroy [OF s], simp, rule Q, erule on_heap_back) (use assms(2) in simp_all)
  show "wp (clean_up E (Some a) (Some b) None None) Q F s"
    if b: "(H(a \<mapsto> BSock h)) b = None" and s: "on_heap nh tr os cl (H(a \<mapsto> BSock h, b \<mapsto> BSock i)) s"
      and Q: "\<And>t. on_heap nh tr os (cl @ [h, i]) H t \<Longrightarrow> Q () t"
  proof -
    have n: "a \<noteq> b" using b by (auto split: if_splits)
    show ?thesis
      unfolding clean_up_def wp_seq wp_ret wp_socket_destroy_null
      by (rule destroy [OF s], use n in simp, erule destroy, use n in simp, rule Q, erule on_heap_back)
        (use n assms(2) b in \<open>auto simp: fun_eq_iff split: if_splits\<close>)
  qed
  show "wp (clean_up E (Some a) (Some b) (Some d) None) Q F s"
    if b: "(H(a \<mapsto> BSock h)) b = None" and d: "(H(a \<mapsto> BSock h, b \<mapsto> BSock i)) d = None"
      and s: "on_heap nh tr os cl (H(a \<mapsto> BSock h, b \<mapsto> BSock i, d \<mapsto> BSock j)) s"
      and Q: "\<And>t. on_heap nh tr os (cl @ [h, i, j]) H t \<Longrightarrow> Q () t"
  proof -
    have n: "a \<noteq> b" "a \<noteq> d" "b \<noteq> d" using b d by (auto split: if_splits)
    show ?thesis
      unfolding clean_up_def wp_seq wp_ret wp_socket_destroy_null
      by (rule destroy [OF s], use n in simp, erule destroy, use n in simp, erule destroy, use n in simp,
          rule Q, erule on_heap_back) (use n assms(2) b d in \<open>auto simp: fun_eq_iff split: if_splits\<close>)
  qed
  show "wp (clean_up E (Some a) (Some b) (Some d) (Some e)) Q F s"
    if b: "(H(a \<mapsto> BSock h)) b = None" and d: "(H(a \<mapsto> BSock h, b \<mapsto> BSock i)) d = None"
      and e: "(H(a \<mapsto> BSock h, b \<mapsto> BSock i, d \<mapsto> BSock j)) e = None"
      and s: "on_heap nh tr os cl (H(a \<mapsto> BSock h, b \<mapsto> BSock i, d \<mapsto> BSock j, e \<mapsto> BSock k)) s"
      and Q: "\<And>t. on_heap nh tr os (cl @ [h, i, j, k]) H t \<Longrightarrow> Q () t"
  proof -
    have n: "a \<noteq> b" "a \<noteq> d" "b \<noteq> d" "a \<noteq> e" "b \<noteq> e" "d \<noteq> e" using b d e by (auto split: if_splits)
    show ?thesis
      unfolding clean_up_def wp_seq wp_ret
      by (rule destroy [OF s], use n in simp, erule destroy, use n in simp, erule destroy, use n in simp,
          erule destroy, use n in simp, rule Q, erule on_heap_back)
        (use n assms(2) b d e in \<open>auto simp: fun_eq_iff split: if_splits\<close>)
  qed
qed

text \<open>Five sockets created one after the other differ, and so do their handles.\<close>

lemma five_sockets:
  assumes "H a = None" "(H(a \<mapsto> BSock lg)) b = None" "(H(a \<mapsto> BSock lg, b \<mapsto> BSock hs)) d = None"
      "(H(a \<mapsto> BSock lg, b \<mapsto> BSock hs, d \<mapsto> BSock hb)) e = None"
      "(H(a \<mapsto> BSock lg, b \<mapsto> BSock hs, d \<mapsto> BSock hb, e \<mapsto> BSock hc)) f = None"
    and "\<And>x. (H(a \<mapsto> BSock lg)) x \<noteq> Some (BSock hs)" "\<And>x. (H(a \<mapsto> BSock lg, b \<mapsto> BSock hs)) x \<noteq> Some (BSock hb)"
      "\<And>x. (H(a \<mapsto> BSock lg, b \<mapsto> BSock hs, d \<mapsto> BSock hb)) x \<noteq> Some (BSock hc)"
      "\<And>x. (H(a \<mapsto> BSock lg, b \<mapsto> BSock hs, d \<mapsto> BSock hb, e \<mapsto> BSock hc)) x \<noteq> Some (BSock hu)"
  shows "distinct [a, b, d, e, f]" "distinct [lg, hs, hb, hc, hu]"
proof -
  have ne: "a \<noteq> b" "a \<noteq> d" "a \<noteq> e" "a \<noteq> f" "b \<noteq> d" "b \<noteq> e" "b \<noteq> f" "d \<noteq> e" "d \<noteq> f" "e \<noteq> f"
    using assms(2-5) by (auto split: if_splits)
  then show "distinct [a, b, d, e, f]" by simp
  have "lg \<noteq> hs" "lg \<noteq> hb" "hs \<noteq> hb" "lg \<noteq> hc" "hs \<noteq> hc" "hb \<noteq> hc" "lg \<noteq> hu" "hs \<noteq> hu" "hb \<noteq> hu" "hc \<noteq> hu"
    using assms(6) [of a] assms(7) [of a] assms(7) [of b] assms(8) [of a] assms(8) [of b] assms(8) [of d]
      assms(9) [of a] assms(9) [of b] assms(9) [of d] assms(9) [of e] ne by auto
  then show "distinct [lg, hs, hb, hc, hu]" by simp
qed

lemma five_back:
  assumes "distinct [a, b, d, e, f]" "H a = None" "H b = None" "H d = None" "H e = None" "H f = None"
  shows "heap_off (H(a \<mapsto> p, b \<mapsto> q, d \<mapsto> r, e \<mapsto> x, f \<mapsto> y)) [b, d, e, f, a] = H"
  using assms by (auto simp: heap_off_apply fun_eq_iff)

text \<open>
  What the receiver and the controller leave behind: the socket for the logs is the first they
  open. Either every socket is closed and the heap is as before, or all but this one are, and
  its wrapper is still there.
\<close>

definition all_closed :: "(nat \<rightharpoonup> block) \<Rightarrow> event list \<Rightarrow> (nat \<rightharpoonup> block) \<Rightarrow> bool" where
  "all_closed H es H' \<longleftrightarrow> (\<exists>lg rest. sockets_opened es = lg # rest \<and> sockets_closed es = rest @ [lg] \<and> H' = H)"

definition log_left_open :: "(nat \<rightharpoonup> block) \<Rightarrow> event list \<Rightarrow> (nat \<rightharpoonup> block) \<Rightarrow> bool" where
  "log_left_open H es H' \<longleftrightarrow> (\<exists>lg rest a. sockets_opened es = lg # rest \<and> sockets_closed es = rest \<and>
     H a = None \<and> H' = H(a \<mapsto> BSock lg))"

lemma on_heap_first_closed: "on_heap nh tr [lg] [lg] H t \<Longrightarrow> \<exists>es. trace t = tr @ es \<and> all_closed H es (heap t)"
  unfolding on_heap_def all_closed_def by force

lemma on_heap_left_open:
  assumes "on_heap nh tr (lg # rest) rest (H(a \<mapsto> BSock lg)) t" "H a = None"
  shows "\<exists>es. trace t = tr @ es \<and> log_left_open H es (heap t)"
  using assms unfolding on_heap_def log_left_open_def by blast

end
