(* ===== verification/Setup.thy ===== *)
theory Setup
  imports Setup_Rules Thread_Properties
begin

text \<open>
  The routines of the threads from their first statement: the set-up gives the sessions the
  distinct sockets they assume, and what is left behind when it stops half-way.
\<close>

section \<open>The UI\<close>

text \<open>Destroying the sockets created so far, some of them perhaps null, gives back the heap.\<close>

lemma on_heap_clean_ui:
  assumes "handle_law E nh" "H a = None" "(H(a \<mapsto> BSock h)) b = None"
  shows "on_heap nh tr os cl (H(a \<mapsto> BSock h, b \<mapsto> BSock k)) s \<Longrightarrow>
      (\<And>t. on_heap nh tr os (cl @ [h, k]) H t \<Longrightarrow> Q () t) \<Longrightarrow> wp (clean_up_ui E (Some a) (Some b) None) Q F s"
    and "(H(a \<mapsto> BSock h, b \<mapsto> BSock k)) d = None \<Longrightarrow>
      on_heap nh tr os cl (H(a \<mapsto> BSock h, b \<mapsto> BSock k, d \<mapsto> BSock l)) s \<Longrightarrow>
      (\<And>t. on_heap nh tr os (cl @ [h, k, l]) H t \<Longrightarrow> Q () t) \<Longrightarrow> wp (clean_up_ui E (Some a) (Some b) (Some d)) Q F s"
proof -
  note destroy = on_heap_destroy [OF assms(1)]
  have ab: "a \<noteq> b" using assms(3) by (auto split: if_splits)
  show "wp (clean_up_ui E (Some a) (Some b) None) Q F s"
    if s: "on_heap nh tr os cl (H(a \<mapsto> BSock h, b \<mapsto> BSock k)) s"
      and Q: "\<And>t. on_heap nh tr os (cl @ [h, k]) H t \<Longrightarrow> Q () t"
    unfolding clean_up_ui_def wp_seq wp_ret wp_socket_destroy_null
    by (rule destroy [OF s], use ab in simp, erule destroy, use ab in simp, rule Q, erule on_heap_back)
      (use ab assms(2,3) in \<open>auto simp: fun_eq_iff split: if_splits\<close>)
  show "wp (clean_up_ui E (Some a) (Some b) (Some d)) Q F s"
    if d: "(H(a \<mapsto> BSock h, b \<mapsto> BSock k)) d = None"
      and s: "on_heap nh tr os cl (H(a \<mapsto> BSock h, b \<mapsto> BSock k, d \<mapsto> BSock l)) s"
      and Q: "\<And>t. on_heap nh tr os (cl @ [h, k, l]) H t \<Longrightarrow> Q () t"
  proof -
    have n: "a \<noteq> b" "a \<noteq> d" "b \<noteq> d" using assms(3) d by (auto split: if_splits)
    show ?thesis
      unfolding clean_up_ui_def wp_seq wp_ret
      by (rule destroy [OF s], use n in simp, erule destroy, use n in simp, erule destroy, use n in simp,
          rule Q, erule on_heap_back) (use n assms(2,3) d in \<open>auto simp: fun_eq_iff split: if_splits\<close>)
  qed
qed

text \<open>Every socket that was opened is closed, in the same order, and the heap is as before.\<close>

definition restored :: "(nat \<rightharpoonup> block) \<Rightarrow> event list \<Rightarrow> 'w st \<Rightarrow> bool" where
  "restored H tr t \<longleftrightarrow> heap t = H \<and> (\<exists>es. trace t = tr @ es \<and> sockets_closed es = sockets_opened es)"

lemma restoredI: "on_heap nh tr os os H t \<Longrightarrow> restored H tr t"
  by (auto simp: on_heap_def restored_def)

lemma ui_session_heap:
  fixes E :: "'w ext"
  assumes "recv_law E" "fgets_law E"
    and "on_heap nh tr [h, k, l, m] [] (H(a \<mapsto> BSock h, b \<mapsto> BSock k, d \<mapsto> BSock l, e \<mapsto> BSock m)) s"
    and "H a = None" "(H(a \<mapsto> BSock h)) b = None" "(H(a \<mapsto> BSock h, b \<mapsto> BSock k)) d = None"
      "(H(a \<mapsto> BSock h, b \<mapsto> BSock k, d \<mapsto> BSock l)) e = None"
    and "\<And>x. (H(a \<mapsto> BSock h)) x \<noteq> Some (BSock k)" "\<And>x. (H(a \<mapsto> BSock h, b \<mapsto> BSock k)) x \<noteq> Some (BSock l)"
      "\<And>x. (H(a \<mapsto> BSock h, b \<mapsto> BSock k, d \<mapsto> BSock l)) x \<noteq> Some (BSock m)"
  shows "wp (ui_session E fuel (Some a) (Some b) (Some d) (Some e)) (\<lambda>_. restored H tr)
    (\<lambda>f. (f = OutOfBounds \<and> (\<not> fits E 1023 \<or> \<not> fits E 2047)) \<or> f = OutOfFuel) s"
proof -
  let ?u = "\<lparr>u_shutdown = Some a, u_command = Some b, u_sub = Some d, u_logs = Some e, u_items = []\<rparr>"
  have ne: "a \<noteq> b" "a \<noteq> d" "a \<noteq> e" "b \<noteq> d" "b \<noteq> e" "d \<noteq> e"
    using assms(5-7) by (auto split: if_splits)
  have "h \<noteq> k" "h \<noteq> l" "h \<noteq> m" "k \<noteq> l" "k \<noteq> m" "l \<noteq> m"
    using assms(8) [of a] assms(9) [of a] assms(9) [of b] assms(10) [of a] assms(10) [of b] assms(10) [of d] ne by auto
  moreover obtain lg :: nat where "lg \<notin> {h, k, l, m}"
    using ex_new_if_finite [of "{h, k, l, m}"] by auto
  ultimately have at: "ui_at (heap s) ?u lg h k l m"
    using assms(3) ne by (simp add: ui_at_def sock_in_def on_heap_def)
  from assms(3) obtain es where ok: "heap_ok s" and s: "trace s = tr @ es" "sockets_opened es = [h, k, l, m]" "sockets_closed es = []"
    and H: "heap s = H(a \<mapsto> BSock h, b \<mapsto> BSock k, d \<mapsto> BSock l, e \<mapsto> BSock m)"
    by (auto simp: on_heap_def handles_ok_def)
  have off: "ui_off ?u (heap s) = H"
    using ne assms(4-7) unfolding H by (auto simp: ui_off_def heap_off_apply fun_eq_iff split: if_splits)
  have "restored H tr t" if t: "ui_completed ?u (heap s) (trace s) h k l m t" for t
  proof -
    from t obtain fs where "heap t = H" "trace t = tr @ es @ fs" "sockets_opened fs = []" "sockets_closed fs = [h, k, l, m]"
      unfolding ui_completed_def off s(1) by auto
    with s(2,3) show ?thesis unfolding restored_def by (intro conjI exI [of _ "es @ fs"]) simp_all
  qed
  then show ?thesis
    using ui_session_partial [OF assms(1,2) at ok, of fuel] by (auto elim!: wp_mono)
qed

text \<open>
  C9. The UI thread as a whole, whatever libzmq answers to its calls: when it returns, from the
  middle of its set-up or after its session, every socket it opened is closed, once, and memory is
  as it found it. The faults are overlong messages and the wrappers that are not checked: null is
  dereferenced only if a \<open>malloc\<close> or a \<open>zmq_socket\<close> can fail.
\<close>

theorem ui_thread_restores_heap:
  fixes E :: "'w ext"
  assumes "handle_law E nh" "recv_law E" "fgets_law E" "handles_ok nh s"
    and "heap s p = Some (BArgs (Some c) u)"
  shows "wp (routine_chat_ui E fuel (Some p))
    (\<lambda>_ t. heap t = heap s \<and> (\<exists>es. trace t = trace s @ es \<and> sockets_closed es = sockets_opened es))
    (\<lambda>f. (f = OutOfBounds \<and> (\<not> fits E 1023 \<or> \<not> fits E 2047)) \<or> f = OutOfFuel \<or>
      f = NullPointer \<and> (\<not> malloc_law E \<or> \<not> always_sockets E)) s"
proof -
  let ?F = "\<lambda>f. (f = OutOfBounds \<and> (\<not> fits E 1023 \<or> \<not> fits E 2047)) \<or> f = OutOfFuel \<or>
      f = NullPointer \<and> (\<not> malloc_law E \<or> \<not> always_sockets E)"
  have null: "\<not> malloc_law E \<or> \<not> always_sockets E \<Longrightarrow> ?F NullPointer" by simp
  note new_connect = on_heap_new_connect [OF assms(1)] and new_bind = on_heap_new_bind [OF assms(1)]
    and destroy = on_heap_destroy [OF assms(1)] and clean = on_heap_clean_ui [OF assms(1)]
  have "wp (routine_chat_ui E fuel (Some p)) (\<lambda>_. restored (heap s) (trace s)) ?F s"
    unfolding routine_chat_ui_def wp_seq wp_ret
    apply (rule on_heap_print [OF on_heap_start [OF assms(4)]])
    apply (erule on_heap_args, rule assms(5))
    apply (unfold case_prod_conv wp_seq)
    apply (erule new_connect, rule null, assumption)
    apply (rule wp_ifI)
     apply (simp only: wp_seq wp_gets wp_ret)
     apply (erule on_heap_print, erule destroy, rule fun_upd_same)
     apply (simp, erule restoredI)
    apply (simp only: wp_seq)
    apply (erule on_heap_subscribe [OF assms(1)], rule fun_upd_same)
    apply (rule wp_ifI)
     apply (simp only: wp_seq wp_gets wp_ret)
     apply (erule on_heap_print, erule destroy, rule fun_upd_same)
     apply (simp, erule restoredI)
    apply (simp only: wp_seq)
    apply (erule new_connect, rule null, assumption)
    apply (rule wp_ifI)
     apply (simp only: wp_seq wp_ret)
     apply (erule on_heap_print)
     apply (rule clean(1) [rotated 2], assumption, simp, erule restoredI, assumption, assumption)
    apply (simp only: wp_seq)
    apply (erule new_bind, rule null, assumption)
    apply (rule wp_ifI)
     apply (simp only: wp_seq wp_ret)
     apply (erule on_heap_print)
     apply (rule clean(2) [rotated 3], assumption, simp, erule restoredI, assumption, assumption, assumption)
    apply (simp only: wp_seq)
    apply (erule new_bind, rule null, assumption)
    apply (unfold append.simps)
    apply (rule wp_mono [OF ui_session_heap [OF assms(2,3)]], assumption+)
    by auto
  then show ?thesis by (rule wp_then) (simp add: restored_def)
qed

text \<open>A sample run: no socket can be connected.\<close>

definition sim_alone :: "script ext" where
  "sim_alone = sim_ext\<lparr>x_connect := (\<lambda>h ep w. (-1, w))\<rparr>"

lemma sim_alone_laws: "handle_law sim_alone next_handle" "recv_law sim_alone" "fgets_law sim_alone"
  by (auto simp: sim_alone_def handle_law_def grows_def recv_law_def fgets_law_def split: list.splits if_splits)

lemma sim_alone_down: "x_connect sim_alone h ep w = (rc, w') \<Longrightarrow> rc = -1"
  by (simp add: sim_alone_def)

lemma sim_alone_run:
  assumes "handles_ok next_handle s" "heap s p = Some (BArgs (Some c) u)"
  shows "wp (routine_chat_ui sim_alone fuel (Some p)) (\<lambda>_ _. True) no_fault s"
  unfolding routine_chat_ui_def wp_seq wp_ret
  apply (rule on_heap_print [OF on_heap_start [OF assms(1)]])
  apply (erule on_heap_args, rule assms(2))
  apply (unfold case_prod_conv wp_seq)
  apply (erule on_heap_new_connect [OF sim_alone_laws(1)])
   apply (simp add: sim_alone_def malloc_law_def always_sockets_def)
  apply (drule sim_alone_down)
  apply (simp add: wp_seq wp_gets wp_ret)
  apply (erule on_heap_print, erule on_heap_destroy [OF sim_alone_laws(1)], rule fun_upd_same)
  apply (rule TrueI)
  done

theorem ui_thread_restores_heap_witness:
  "\<exists>t. routine_chat_ui sim_alone 3 (Some 0)
      ((sim_state empty_script)\<lparr>heap := [0 \<mapsto> BArgs (Some 0) (''bob'' @ [NUL])], fresh := 1\<rparr>) = Inr ((), t) \<and>
     heap t = [0 \<mapsto> BArgs (Some 0) (''bob'' @ [NUL])] \<and> sockets_closed (trace t) = sockets_opened (trace t)"
proof -
  let ?s = "(sim_state empty_script)\<lparr>heap := [0 \<mapsto> BArgs (Some 0) (''bob'' @ [NUL])], fresh := 1\<rparr>"
  have s: "handles_ok next_handle ?s" by (simp add: handles_ok_def heap_ok_def)
  from ui_thread_restores_heap [OF sim_alone_laws s, of 0 0 "''bob'' @ [NUL]" 3]
    sim_alone_run [OF s, of 0 0 "''bob'' @ [NUL]" 3]
  show ?thesis by (auto simp: wp_def split: sum.splits prod.splits)
qed

section \<open>The receiver\<close>

text \<open>The socket for the logs can be connected, and some later step of the set-up always fails.\<close>

definition receiver_setup_blocked :: "'w ext \<Rightarrow> bool" where
  "receiver_setup_blocked E \<longleftrightarrow> (\<forall>h w. fst (x_connect E h APP_LOGS_ADDRESS w) = 0) \<and>
     ((\<forall>h w. fst (x_connect E h INPROC_SHUTDOWN_ADDR w) = -1) \<or>
      (\<forall>h w. fst (x_setsockopt E h ZMQ_SUBSCRIBE [] w) \<noteq> 0) \<or>
      (\<forall>h w. fst (x_connect E h CHAT_SERVER_SUB_ADDRESS w) \<noteq> 0) \<or>
      (\<forall>h w. fst (x_connect E h CONTROLLER_RECEIVER_COMMAND_ADDRESS w) \<noteq> 0) \<or>
      (\<forall>h w. fst (x_connect E h CONTROLLER_UI_NOTIFICATION_ADDRESS w) \<noteq> 0))"

lemma logs_not_blocked:
  assumes "x_connect E h APP_LOGS_ADDRESS w = (rc, w')" "rc \<noteq> 0"
  shows "\<not> receiver_setup_blocked E"
proof -
  have "fst (x_connect E h APP_LOGS_ADDRESS w) \<noteq> 0" using assms by simp
  then show ?thesis unfolding receiver_setup_blocked_def by blast
qed

lemma receiver_setup_passed:
  assumes "x_connect E h1 INPROC_SHUTDOWN_ADDR w1 = (rc1, w1')" "rc1 \<noteq> -1"
    and "x_setsockopt E h1 ZMQ_SUBSCRIBE [] w2 = (rc2, w2')" "\<not> rc2 \<noteq> 0"
    and "x_connect E h3 CHAT_SERVER_SUB_ADDRESS w3 = (rc3, w3')" "\<not> rc3 \<noteq> 0"
    and "x_connect E h4 CONTROLLER_RECEIVER_COMMAND_ADDRESS w4 = (rc4, w4')" "\<not> rc4 \<noteq> 0"
    and "x_connect E h5 CONTROLLER_UI_NOTIFICATION_ADDRESS w5 = (rc5, w5')" "\<not> rc5 \<noteq> 0"
  shows "\<not> receiver_setup_blocked E"
  using assms unfolding receiver_setup_blocked_def by (metis fst_conv)

lemma receiver_session_heap:
  fixes E :: "'w ext"
  assumes "recv_law E" "has_cstr ua 0"
    and "on_heap nh tr [lg, hs, hb, hc, hu] [] (H(a \<mapsto> BSock lg, b \<mapsto> BSock hs, d \<mapsto> BSock hb, e \<mapsto> BSock hc, f \<mapsto> BSock hu)) s"
    and "H a = None" "(H(a \<mapsto> BSock lg)) b = None" "(H(a \<mapsto> BSock lg, b \<mapsto> BSock hs)) d = None"
      "(H(a \<mapsto> BSock lg, b \<mapsto> BSock hs, d \<mapsto> BSock hb)) e = None"
      "(H(a \<mapsto> BSock lg, b \<mapsto> BSock hs, d \<mapsto> BSock hb, e \<mapsto> BSock hc)) f = None"
    and "\<And>x. (H(a \<mapsto> BSock lg)) x \<noteq> Some (BSock hs)" "\<And>x. (H(a \<mapsto> BSock lg, b \<mapsto> BSock hs)) x \<noteq> Some (BSock hb)"
      "\<And>x. (H(a \<mapsto> BSock lg, b \<mapsto> BSock hs, d \<mapsto> BSock hb)) x \<noteq> Some (BSock hc)"
      "\<And>x. (H(a \<mapsto> BSock lg, b \<mapsto> BSock hs, d \<mapsto> BSock hb, e \<mapsto> BSock hc)) x \<noteq> Some (BSock hu)"
  shows "wp (receiver_session E fuel (Some b) (Some d) (Some e) (Some f) (Some a) ua)
    (\<lambda>_ t. \<exists>es. trace t = tr @ es \<and> all_closed H es (heap t))
    (\<lambda>f. (f = OutOfBounds \<and> (\<not> fits E 255 \<or> \<not> fits E 2048)) \<or> f = OutOfFuel) s"
proof -
  let ?c = "\<lparr>r_shutdown = Some b, r_chat = Some d, r_command = Some e, r_ui = Some f, r_logs = Some a, r_items = []\<rparr>"
  note five = five_sockets [OF assms(4-12)]
  have at: "rcv_at (heap s) ?c lg hs hb hc hu"
    using assms(3) five by (auto simp: rcv_at_def sock_in_def on_heap_def)
  from assms(3) obtain es where ok: "heap_ok s" and s: "trace s = tr @ es" "sockets_opened es = [lg, hs, hb, hc, hu]"
      "sockets_closed es = []"
    and H: "heap s = H(a \<mapsto> BSock lg, b \<mapsto> BSock hs, d \<mapsto> BSock hb, e \<mapsto> BSock hc, f \<mapsto> BSock hu)"
    by (auto simp: on_heap_def handles_ok_def)
  have off: "all_off ?c (heap s) = H"
    unfolding H all_off_def using five(1) assms(4-8) by (simp add: five_back split: if_splits)
  have "\<exists>es. trace t = tr @ es \<and> all_closed H es (heap t)"
    if t: "rcv_completed E ?c (heap s) (trace s) lg hs hb hc hu user t" for t user
  proof -
    from t obtain fs where "heap t = H" "trace t = tr @ es @ fs" "sockets_opened fs = []"
      "sockets_closed fs = [hs, hb, hc, hu, lg]"
      unfolding rcv_completed_def off s(1) by auto
    with s(2,3) show ?thesis unfolding all_closed_def by (intro exI [of _ "es @ fs"]) simp_all
  qed
  then show ?thesis
    using receiver_session_partial [OF assms(1) at ok assms(2), of fuel] by (auto elim!: wp_mono)
qed

text \<open>
  C11. The receiver thread as a whole. When it returns, then either every socket it opened is
  closed, each once, and memory is as it found it; or all but the first one are, the one for the
  logs, whose libzmq socket is still open and whose wrapper is still allocated. This leak is what
  happens whenever that socket is connected and a later one cannot be set up. The faults are
  overlong messages and the wrappers that are not checked: null is dereferenced only if a
  \<open>malloc\<close> or a \<open>zmq_socket\<close> can fail.
\<close>

theorem receiver_setup_failure_leaks:
  fixes E :: "'w ext"
  assumes "handle_law E nh" "recv_law E" "handles_ok nh s"
    and "heap s p = Some (BArgs (Some c) u)" "has_cstr u 0"
  shows "wp (routine_chat_receiver E fuel (Some p))
    (\<lambda>_ t. \<exists>es. trace t = trace s @ es \<and> (log_left_open (heap s) es (heap t) \<or>
       (all_closed (heap s) es (heap t) \<and> \<not> receiver_setup_blocked E)))
    (\<lambda>f. \<not> receiver_setup_blocked E \<and> ((f = OutOfBounds \<and> (\<not> fits E 255 \<or> \<not> fits E 2048)) \<or> f = OutOfFuel) \<or>
      f = NullPointer \<and> (\<not> malloc_law E \<or> \<not> always_sockets E)) s"
proof -
  let ?F = "\<lambda>f. \<not> receiver_setup_blocked E \<and> ((f = OutOfBounds \<and> (\<not> fits E 255 \<or> \<not> fits E 2048)) \<or> f = OutOfFuel) \<or>
      f = NullPointer \<and> (\<not> malloc_law E \<or> \<not> always_sockets E)"
  have null: "\<not> malloc_law E \<or> \<not> always_sockets E \<Longrightarrow> ?F NullPointer" by simp
  note new = on_heap_new_connect [OF assms(1)] and clean = on_heap_clean [OF assms(1)]
    and report = on_heap_log [OF assms(1)] and report_error = on_heap_log_error [OF assms(1)]
  let ?Q = "\<lambda>t. \<exists>es. trace t = trace s @ es \<and> (log_left_open (heap s) es (heap t) \<or>
       (all_closed (heap s) es (heap t) \<and> \<not> receiver_setup_blocked E))"
  have leak: "?Q t" if "on_heap nh (trace s) (lg # rest) rest ((heap s)(a \<mapsto> BSock lg)) t" "heap s a = None" for a lg rest t
    using on_heap_left_open [OF that] by blast
  show ?thesis
    unfolding routine_chat_receiver_def log_app_receiver_eq clean_up_receiver_eq wp_seq wp_ret
    apply (rule on_heap_args [OF on_heap_start [OF assms(3)] assms(4)])
    apply (unfold case_prod_conv wp_seq)
    apply (erule new, rule null, assumption)
    apply (rule wp_ifI)
     apply (simp only: wp_seq wp_ret)
     apply (erule on_heap_perror, erule on_heap_destroy [OF assms(1)], rule fun_upd_same)
     apply (frule (1) logs_not_blocked)
     apply (simp, drule on_heap_first_closed, blast)
    apply (simp only: wp_seq append_Nil)
    apply (erule report, rule alive_new)
    apply (erule new, rule null, assumption)
    apply (rule wp_ifI)
     apply (simp only: wp_seq)
     apply (erule report_error, intro alive_old alive_new, assumption)
     apply (rule clean(1) [rotated], assumption, simp, erule leak, assumption, assumption)
    apply (simp only: wp_seq)
    apply (erule on_heap_subscribe [OF assms(1)], rule fun_upd_same)
    apply (rule wp_ifI)
     apply (simp only: wp_seq)
     apply (erule report_error, intro alive_old alive_new, assumption)
     apply (rule clean(1) [rotated], assumption, simp, erule leak, assumption, assumption)
    apply (simp only: wp_seq)
    apply (erule new, rule null, assumption)
    apply (rule wp_ifI)
     apply (simp only: wp_seq)
     apply (erule report, intro alive_old alive_new, assumption+)
     apply (rule clean(2) [rotated 2], assumption, simp, erule leak, assumption, assumption, assumption)
    apply (simp only: wp_seq)
    apply (erule new, rule null, assumption)
    apply (rule wp_ifI)
     apply (simp only: wp_seq)
     apply (erule report, intro alive_old alive_new, assumption+)
     apply (rule clean(3) [rotated 3], assumption, simp, erule leak, assumption, assumption, assumption, assumption)
    apply (simp only: wp_seq)
    apply (erule new, rule null, assumption)
    apply (rule wp_ifI)
     apply (simp only: wp_seq)
     apply (erule report, intro alive_old alive_new, assumption+)
     apply (rule clean(4) [rotated 4], assumption, simp, erule leak, assumption, assumption, assumption, assumption, assumption)
    apply (frule receiver_setup_passed, assumption+)
    apply (unfold append.simps)
    apply (rule wp_mono [OF receiver_session_heap [OF assms(2,5)]])
    apply (assumption+)[10]
    apply blast
    apply blast
    done
qed

theorem receiver_setup_failure_leaks_witness:
  "\<exists>t. routine_chat_receiver (sim_ext\<lparr>x_connect := (\<lambda>h ep w. (if ep = APP_LOGS_ADDRESS then 0 else -1, w))\<rparr>) 5 (Some 0)
     ((sim_state empty_script)\<lparr>heap := [0 \<mapsto> BArgs (Some 0) (''bob'' @ [NUL])], fresh := 1\<rparr>) = Inr ((), t) \<and>
     log_left_open [0 \<mapsto> BArgs (Some 0) (''bob'' @ [NUL])] (trace t) (heap t)"
proof -
  let ?E = "sim_ext\<lparr>x_connect := (\<lambda>h ep w. (if ep = APP_LOGS_ADDRESS then 0 else -1, w))\<rparr>"
  let ?s = "(sim_state empty_script)\<lparr>heap := [0 \<mapsto> BArgs (Some 0) (''bob'' @ [NUL])], fresh := 1\<rparr>"
  have "handle_law ?E next_handle" "malloc_law ?E" "always_sockets ?E" "recv_law ?E" and b: "receiver_setup_blocked ?E"
    by (auto simp: handle_law_def grows_def malloc_law_def always_sockets_def recv_law_def receiver_setup_blocked_def
        INPROC_SHUTDOWN_ADDR_def APP_LOGS_ADDRESS_def split: list.splits)
  moreover have "handles_ok next_handle ?s" "has_cstr (''bob'' @ [NUL]) 0"
    by (simp_all add: handles_ok_def heap_ok_def has_cstr_def NUL_def)
  ultimately show ?thesis
    using receiver_setup_failure_leaks [of ?E next_handle ?s 0 0 "''bob'' @ [NUL]" 5]
    by (auto simp: wp_def split: sum.splits prod.splits)
qed

end
