(* ===== verification/Controller_Setup.thy ===== *)
theory Controller_Setup
  imports Setup_Rules Thread_Properties
begin

text \<open>
  The routine of the controller from its first statement: the set-up of its five sockets, the
  session, and what is left behind on every way out.
\<close>

text \<open>The socket for the logs can be connected, and some later step of the set-up always fails.\<close>

definition controller_setup_blocked :: "'w ext \<Rightarrow> bool" where
  "controller_setup_blocked E \<longleftrightarrow> (\<forall>h w. fst (x_connect E h APP_LOGS_ADDRESS w) = 0) \<and>
     ((\<forall>h w. fst (x_connect E h INPROC_SHUTDOWN_ADDR w) = -1) \<or>
      (\<forall>h w. fst (x_setsockopt E h ZMQ_SUBSCRIBE [] w) \<noteq> 0) \<or>
      (\<forall>h w. fst (x_connect E h CHAT_SERVER_REQ_ADDRESS w) \<noteq> 0) \<or>
      (\<forall>h w. fst (x_bind E h CONTROLLER_RECEIVER_COMMAND_ADDRESS w) \<noteq> 0) \<or>
      (\<forall>h w. fst (x_bind E h CONROLLER_UI_COMMAND_ADDRESS w) \<noteq> 0))"

lemma logs_not_down:
  assumes "x_connect E h APP_LOGS_ADDRESS w = (rc, w')" "rc \<noteq> 0"
  shows "\<not> controller_setup_blocked E"
proof -
  have "fst (x_connect E h APP_LOGS_ADDRESS w) \<noteq> 0" using assms by simp
  then show ?thesis unfolding controller_setup_blocked_def by blast
qed

lemma controller_setup_passed:
  assumes "x_connect E h1 INPROC_SHUTDOWN_ADDR w1 = (rc1, w1')" "rc1 \<noteq> -1"
    and "x_setsockopt E h1 ZMQ_SUBSCRIBE [] w2 = (rc2, w2')" "\<not> rc2 \<noteq> 0"
    and "x_connect E h3 CHAT_SERVER_REQ_ADDRESS w3 = (rc3, w3')" "\<not> rc3 \<noteq> 0"
    and "x_bind E h4 CONTROLLER_RECEIVER_COMMAND_ADDRESS w4 = (rc4, w4')" "\<not> rc4 \<noteq> 0"
    and "x_bind E h5 CONROLLER_UI_COMMAND_ADDRESS w5 = (rc5, w5')" "\<not> rc5 \<noteq> 0"
  shows "\<not> controller_setup_blocked E"
  using assms unfolding controller_setup_blocked_def by (metis fst_conv)

text \<open>What may be left: the socket for the logs, and an unpacked reply.\<close>

definition left_behind :: "(nat \<rightharpoonup> block) \<Rightarrow> event list \<Rightarrow> (nat \<rightharpoonup> block) \<Rightarrow> bool" where
  "left_behind H es H' \<longleftrightarrow> (\<exists>H1. (all_closed H es H1 \<or> log_left_open H es H1) \<and>
     (H' = H1 \<or> (\<exists>a e. H1 a = None \<and> H' = H1(a \<mapsto> BEnv e))))"

lemma left_behind_cases: "all_closed H es H' \<or> log_left_open H es H' \<Longrightarrow> left_behind H es H'"
  by (auto simp: left_behind_def)

lemma remains_cases:
  assumes "remains b res H H'" "H' = H \<Longrightarrow> P" "\<And>z v. H z = None \<Longrightarrow> H' = H(z \<mapsto> BEnv v) \<Longrightarrow> P"
  shows P
  using assms by (auto simp: remains_def split: option.splits if_splits)

lemma left_behind_remains:
  assumes "remains b res (H(a \<mapsto> BSock lg, b1 \<mapsto> q, d \<mapsto> r, e \<mapsto> x, f \<mapsto> y)) H'" "distinct [a, b1, d, e, f]"
    and "H a = None" "H b1 = None" "H d = None" "H e = None" "H f = None" "sockets_opened es = lg # rest"
  shows "sockets_closed es = rest \<Longrightarrow> left_behind H es (heap_off H' [b1, d, e, f])"
    "sockets_closed es = rest @ [lg] \<Longrightarrow> left_behind H es ((heap_off H' [b1, d, e, f])(a := None))"
proof -
  let ?p = "BSock lg"
  let ?H = "H(a \<mapsto> ?p, b1 \<mapsto> q, d \<mapsto> r, e \<mapsto> x, f \<mapsto> y)"
  have off: "heap_off ?H [b1, d, e, f] = H(a \<mapsto> ?p)" "(H(a \<mapsto> ?p))(a := None) = H"
    using assms(2-7) by (auto simp: heap_off_apply fun_eq_iff)
  have more: "heap_off (?H(z \<mapsto> v)) [b1, d, e, f] = H(a \<mapsto> ?p, z \<mapsto> v)"
    "(heap_off (?H(z \<mapsto> v)) [b1, d, e, f])(a := None) = H(z \<mapsto> v)" "z \<noteq> a" "H z = None" if "?H z = None" for z v
    using that assms(2-7) by (auto simp: heap_off_apply fun_eq_iff split: if_splits)
  have one: "sockets_closed es = rest \<Longrightarrow> log_left_open H es (H(a \<mapsto> ?p))"
    and none: "sockets_closed es = rest @ [lg] \<Longrightarrow> all_closed H es H"
    using assms(3,8) by (auto simp: log_left_open_def all_closed_def)
  consider "H' = ?H" | z v where "?H z = None" "H' = ?H(z \<mapsto> BEnv v)"
    by (rule remains_cases [OF assms(1)])
  then have "(sockets_closed es = rest \<longrightarrow> left_behind H es (heap_off H' [b1, d, e, f])) \<and>
      (sockets_closed es = rest @ [lg] \<longrightarrow> left_behind H es ((heap_off H' [b1, d, e, f])(a := None)))"
  proof cases
    case 1
    then show ?thesis using one none unfolding 1 off left_behind_def by blast
  next
    case 2
    then show ?thesis using more [OF 2(1)] one none unfolding 2(2) left_behind_def by fastforce
  qed
  then show "sockets_closed es = rest \<Longrightarrow> left_behind H es (heap_off H' [b1, d, e, f])"
    "sockets_closed es = rest @ [lg] \<Longrightarrow> left_behind H es ((heap_off H' [b1, d, e, f])(a := None))"
    by auto
qed

lemma controller_session_heap:
  fixes E :: "'w ext"
  assumes "laws E" "has_cstr ua 0"
    and "on_heap nh tr [lg, hs, hb, hc, hu] [] (H(a \<mapsto> BSock lg, b \<mapsto> BSock hs, d \<mapsto> BSock hb, e \<mapsto> BSock hc, f \<mapsto> BSock hu)) s"
    and "H a = None" "(H(a \<mapsto> BSock lg)) b = None" "(H(a \<mapsto> BSock lg, b \<mapsto> BSock hs)) d = None"
      "(H(a \<mapsto> BSock lg, b \<mapsto> BSock hs, d \<mapsto> BSock hb)) e = None"
      "(H(a \<mapsto> BSock lg, b \<mapsto> BSock hs, d \<mapsto> BSock hb, e \<mapsto> BSock hc)) f = None"
    and "\<And>x. (H(a \<mapsto> BSock lg)) x \<noteq> Some (BSock hs)" "\<And>x. (H(a \<mapsto> BSock lg, b \<mapsto> BSock hs)) x \<noteq> Some (BSock hb)"
      "\<And>x. (H(a \<mapsto> BSock lg, b \<mapsto> BSock hs, d \<mapsto> BSock hb)) x \<noteq> Some (BSock hc)"
      "\<And>x. (H(a \<mapsto> BSock lg, b \<mapsto> BSock hs, d \<mapsto> BSock hb, e \<mapsto> BSock hc)) x \<noteq> Some (BSock hu)"
  shows "wp (controller_session E fuel (Some b) (Some d) (Some e) (Some f) (Some a) ua)
    (\<lambda>_ t. \<exists>es. trace t = tr @ es \<and> left_behind H es (heap t)) (\<lambda>f. ctl_fault E f \<or> f = OutOfFuel) s"
proof -
  let ?c = "\<lparr>c_shutdown = Some b, c_req = Some d, c_receiver = Some e, c_ui = Some f, c_logs = Some a,
    c_items = [], c_username = []\<rparr>"
  note five = five_sockets [OF assms(4-12)]
  have at: "ctl_at (heap s) ?c lg hs hb hc hu"
    using assms(3) five by (auto simp: ctl_at_def sock_in_def on_heap_def)
  from assms(3) obtain es where ok: "heap_ok s" and s: "trace s = tr @ es" "sockets_opened es = [lg, hs, hb, hc, hu]"
      "sockets_closed es = []"
    and H: "heap s = H(a \<mapsto> BSock lg, b \<mapsto> BSock hs, d \<mapsto> BSock hb, e \<mapsto> BSock hc, f \<mapsto> BSock hu)"
    by (auto simp: on_heap_def handles_ok_def)
  have free: "H a = None" "H b = None" "H d = None" "H e = None" "H f = None"
    using five(1) assms(4-8) by (auto split: if_splits)
  let ?Q = "\<lambda>t. \<exists>es. trace t = tr @ es \<and> left_behind H es (heap t)"
  have refused: "?Q t" if "refused E ?c lg (heap s) (trace s) io hs hb hc hu user t" for t io user
  proof -
    from that obtain x res H' io' where r: "remains x res (heap s) H'"
      and t: "seen_off [hs, hb, hc, hu] lg (four_off ?c H') (trace s) io' t"
      unfolding refused_def by blast
    from seenD [OF t] obtain fs where fs: "heap t = heap_off H' [b, d, e, f]" "trace t = tr @ es @ fs" "sockets_opened fs = []"
      "sockets_closed fs = [hs, hb, hc, hu]" by (auto simp: s(1) four_off_def)
    have "left_behind H (es @ fs) (heap t)"
      unfolding fs(1) by (rule left_behind_remains(1) [OF r [unfolded H] five(1) free]) (simp_all add: s fs)
    with fs(2) show ?thesis by blast
  qed
  have completed: "?Q t" if "completed E ?c lg (heap s) (trace s) hs hb hc hu user t" for t user
  proof -
    from that obtain x res H' io' where r: "remains x res (heap s) H'"
      and t: "seen_off [hs, hb, hc, hu, lg] lg ((four_off ?c H')(a := None)) (trace s) io' t"
      unfolding completed_def ended_def by auto
    from seenD [OF t] obtain fs where fs: "heap t = (heap_off H' [b, d, e, f])(a := None)" "trace t = tr @ es @ fs"
      "sockets_opened fs = []" "sockets_closed fs = [hs, hb, hc, hu, lg]" by (auto simp: s(1) four_off_def)
    have "left_behind H (es @ fs) (heap t)"
      unfolding fs(1) by (rule left_behind_remains(2) [OF r [unfolded H] five(1) free]) (simp_all add: s fs)
    with fs(2) show ?thesis by blast
  qed
  show ?thesis
    using controller_session_partial [OF assms(1) at ok assms(2), of fuel]
    by (auto elim!: wp_mono dest: refused completed)
qed

text \<open>
  C10. The controller thread as a whole: on every way out, from the middle of its set-up, after a
  refused login or after the session, either every socket it opened is closed, each once, or all
  but the first one are, the one for the logs, and then its wrapper is still allocated; of what it
  unpacked at most one reply is left. When the set-up fails after the socket for the logs is
  connected, exactly that socket is left. The faults are an access outside an array (a reply
  longer than the buffer, or a list of rooms longer than its own) and the pointers that are not
  checked: null is dereferenced only if a \<open>malloc\<close> or a \<open>zmq_socket\<close> can fail.
\<close>

theorem controller_thread_leaves:
  fixes E :: "'w ext"
  assumes "handle_law E nh" "laws E" "handles_ok nh s" "heap s p = Some (BArgs (Some c) u)" "has_cstr u 0"
  shows "wp (routine_chat_controller E fuel (Some p))
    (\<lambda>_ t. \<exists>es. trace t = trace s @ es \<and> left_behind (heap s) es (heap t) \<and>
       (controller_setup_blocked E \<longrightarrow> log_left_open (heap s) es (heap t)))
    (\<lambda>f. \<not> controller_setup_blocked E \<and> (f = OutOfBounds \<or> f = OutOfFuel) \<or>
      f = NullPointer \<and> (\<not> malloc_law E \<or> \<not> always_sockets E)) s"
proof -
  let ?F = "\<lambda>f. \<not> controller_setup_blocked E \<and> (f = OutOfBounds \<or> f = OutOfFuel) \<or>
      f = NullPointer \<and> (\<not> malloc_law E \<or> \<not> always_sockets E)"
  have null: "\<not> malloc_law E \<or> \<not> always_sockets E \<Longrightarrow> ?F NullPointer" by simp
  note connect = on_heap_new_connect [OF assms(1)] and bind = on_heap_new_bind [OF assms(1)]
    and clean = on_heap_clean [OF assms(1)] and report = on_heap_log [OF assms(1)]
    and report_error = on_heap_log_error [OF assms(1)]
  let ?Q = "\<lambda>t. \<exists>es. trace t = trace s @ es \<and> left_behind (heap s) es (heap t) \<and>
       (controller_setup_blocked E \<longrightarrow> log_left_open (heap s) es (heap t))"
  have leak: "?Q t" if "on_heap nh (trace s) (lg # rest) rest ((heap s)(a \<mapsto> BSock lg)) t" "heap s a = None" for a lg rest t
    using on_heap_left_open [OF that] left_behind_cases by blast
  have none: "?Q t" if "on_heap nh (trace s) ([] @ [lg]) ([] @ [lg]) ((heap s)(a \<mapsto> BSock lg, a := None)) t"
      "heap s a = None" "\<not> controller_setup_blocked E" for a lg t
    using on_heap_first_closed [of nh "trace s" lg "heap s" t] that left_behind_cases by auto
  show ?thesis
    unfolding routine_chat_controller_def wp_seq wp_ret
    apply (rule on_heap_args [OF on_heap_start [OF assms(3)] assms(4)])
    apply (unfold case_prod_conv wp_seq)
    apply (erule connect, rule null, assumption)
    apply (rule wp_ifI)
     apply (simp only: wp_seq wp_ret)
     apply (erule on_heap_perror, erule on_heap_destroy [OF assms(1)], rule fun_upd_same)
     apply (frule (1) logs_not_down)
     apply (erule none, assumption, assumption)
    apply (simp only: wp_seq append_Nil)
    apply (erule report, rule alive_new)
    apply (erule connect, rule null, assumption)
    apply (rule wp_ifI)
     apply (simp only: wp_seq)
     apply (erule report_error, intro alive_old alive_new, assumption)
     apply (rule clean(1) [rotated], assumption, simp, erule leak, assumption, assumption)
    apply (simp only: wp_seq)
    apply (erule on_heap_subscribe [OF assms(1)], rule fun_upd_same)
    apply (rule wp_ifI)
     apply (simp only: wp_seq)
     apply (erule report_error, intro alive_old alive_new, assumption)
     apply (rule clean(1) [rotated], assumption, simp, erule leak, assumption, assumption)
    apply (simp only: wp_seq)
    apply (erule connect, rule null, assumption)
    apply (rule wp_ifI)
     apply (simp only: wp_seq)
     apply (erule report, intro alive_old alive_new, assumption+)
     apply (rule clean(2) [rotated 2], assumption, simp, erule leak, assumption, assumption, assumption)
    apply (simp only: wp_seq)
    apply (erule bind, rule null, assumption)
    apply (rule wp_ifI)
     apply (simp only: wp_seq)
     apply (erule report, intro alive_old alive_new, assumption+)
     apply (rule clean(3) [rotated 3], assumption, simp, erule leak, assumption, assumption, assumption, assumption)
    apply (simp only: wp_seq)
    apply (erule bind, rule null, assumption)
    apply (rule wp_ifI)
     apply (simp only: wp_seq)
     apply (erule report, intro alive_old alive_new, assumption+)
     apply (rule clean(4) [rotated 4], assumption, simp, erule leak, assumption, assumption, assumption, assumption, assumption)
    apply (frule controller_setup_passed, assumption+)
    apply (unfold append.simps)
    apply (rule wp_mono [OF controller_session_heap [OF assms(2,5)]])
    apply (assumption+)[10]
    apply blast
    apply (auto simp: ctl_fault_def)
    done
qed

theorem controller_thread_leaves_witness:
  "\<exists>t. routine_chat_controller (sim_ext\<lparr>x_bind := (\<lambda>h ep w. (-1, w))\<rparr>) 5 (Some 0)
     ((sim_state empty_script)\<lparr>heap := [0 \<mapsto> BArgs (Some 0) (''bob'' @ [NUL])], fresh := 1\<rparr>) = Inr ((), t) \<and>
     log_left_open [0 \<mapsto> BArgs (Some 0) (''bob'' @ [NUL])] (trace t) (heap t)"
proof -
  let ?E = "sim_ext\<lparr>x_bind := (\<lambda>h ep w. (-1, w))\<rparr>"
  let ?s = "(sim_state empty_script)\<lparr>heap := [0 \<mapsto> BArgs (Some 0) (''bob'' @ [NUL])], fresh := 1\<rparr>"
  have "handle_law ?E next_handle" "laws ?E" "controller_setup_blocked ?E" "malloc_law ?E" "always_sockets ?E"
    by (auto simp: handle_law_def grows_def laws_def pack_law_def malloc_law_def recv_law_def always_sockets_def
        controller_setup_blocked_def split: list.splits)
  moreover have "handles_ok next_handle ?s" "has_cstr (''bob'' @ [NUL]) 0"
    by (simp_all add: handles_ok_def heap_ok_def has_cstr_def NUL_def)
  ultimately show ?thesis
    using controller_thread_leaves [of ?E next_handle ?s 0 0 "''bob'' @ [NUL]" 5]
    by (auto simp: wp_def split: sum.splits prod.splits)
qed

end
