(* ===== verification/Signal_Handler.thy ===== *)
theory Signal_Handler
  imports Common Sample_World
begin

text \<open>
  \<open>utils/signal_handler.h\<close>: the self-pipe. The handler of \<open>SIGINT\<close> and \<open>SIGTERM\<close> writes to a pipe
  whose read end the main thread polls. The static variable \<open>g_signal_pipe_write_fd\<close> is passed
  to each function and returned by those that set it.
\<close>

unbundle bit_operations_syntax

section \<open>Model\<close>

text \<open>The two macros; \<open>sizeof\<close> of the first one is 2, with its NUL.\<close>

definition S_NOTIFY_MSG :: string where "S_NOTIFY_MSG = '' ''"
definition S_ERROR_MSG :: string where
  "S_ERROR_MSG = ''error writing to self-pipe in signal handler'' @ [CHR 0x0A]"

definition O_NONBLOCK :: int where "O_NONBLOCK = 2048"

definition fd_write :: "'w ext \<Rightarrow> int \<Rightarrow> string \<Rightarrow> ('w st, int) prog" where
  "fd_write E fd d = bnd (ask (x_write E fd d)) (\<lambda>rc. bnd (emit (FdWrite fd d rc)) (\<lambda>_. ret rc))"

text \<open>The result is the status of \<open>_exit\<close>, if the handler gets there.\<close>

definition s_signal_handler :: "'w ext \<Rightarrow> int \<Rightarrow> ('w st, int option) prog" where
  "s_signal_handler E g_signal_pipe_write_fd =
     (if g_signal_pipe_write_fd \<noteq> -1 then
        bnd (fd_write E g_signal_pipe_write_fd (S_NOTIFY_MSG @ [NUL])) (\<lambda>rc.
        if rc \<noteq> 2 then
          bnd (fd_write E 2 S_ERROR_MSG) (\<lambda>_. bnd (emit (Exited 1)) (\<lambda>_. ret (Some 1)))
        else ret None)
      else ret None)"

definition make_fd_nonblocking :: "'w ext \<Rightarrow> int \<Rightarrow> ('w st, int) prog" where
  "make_fd_nonblocking E fd =
     bnd (ask (x_getfl E fd)) (\<lambda>flags.
     if flags < 0 then ret (-1)
     else
       bnd (ask (x_setfl E fd (flags OR O_NONBLOCK))) (\<lambda>rc.
       bnd (emit (FdSetFlags fd (flags OR O_NONBLOCK) rc)) (\<lambda>_. ret rc)))"

definition sigaction :: "'w ext \<Rightarrow> signal \<Rightarrow> ('w st, int) prog" where
  "sigaction E sig = bnd (ask (x_sigaction E sig)) (\<lambda>rc. bnd (emit (SigAction sig rc)) (\<lambda>_. ret rc))"

definition either_fails :: "('w st, int) prog \<Rightarrow> ('w st, int) prog \<Rightarrow> ('w st, bool) prog" where
  "either_fails a b = bnd a (\<lambda>rc. if rc < 0 then ret True else bnd b (\<lambda>rc. ret (rc < 0)))"

text \<open>The result is the return value, the static variable and what was stored at \<open>*read_fd\<close>.\<close>

definition setup_signal_handler :: "'w ext \<Rightarrow> int \<Rightarrow> int \<Rightarrow> ('w st, int \<times> int \<times> int) prog" where
  "setup_signal_handler E g_signal_pipe_write_fd read_fd =
     bnd (ask (x_pipe E)) (\<lambda>pipefds. bnd (emit (PipeNew pipefds)) (\<lambda>_.
     case pipefds of None \<Rightarrow>
       bnd (perror E ''setup_signal_handler: pipe failed'') (\<lambda>_. ret (-1, g_signal_pipe_write_fd, read_fd))
     | Some (pipefds0, pipefds1) \<Rightarrow>
       bnd (either_fails (make_fd_nonblocking E pipefds0) (make_fd_nonblocking E pipefds1)) (\<lambda>bad.
       if bad then
         bnd (perror E ''setup_signal_handler: fcntl O_NONBLOCK failed'') (\<lambda>_.
         bnd (emit (FdClose pipefds0)) (\<lambda>_.
         bnd (emit (FdClose pipefds1)) (\<lambda>_. ret (-1, g_signal_pipe_write_fd, read_fd))))
       else
       bnd (either_fails (sigaction E SIGINT) (sigaction E SIGTERM)) (\<lambda>bad.
       if bad then
         bnd (perror E ''setup_signal_handler: sigaction failed'') (\<lambda>_.
         bnd (emit (FdClose pipefds0)) (\<lambda>_.
         bnd (emit (FdClose pipefds1)) (\<lambda>_. ret (-1, pipefds1, read_fd))))
       else ret (0, pipefds1, pipefds0)))))"

definition cleanup_signal_handler :: "'w ext \<Rightarrow> int \<Rightarrow> int \<Rightarrow> ('w st, int) prog" where
  "cleanup_signal_handler E g_signal_pipe_write_fd read_fd =
     bnd (only_if (read_fd \<ge> 0) (emit (FdClose read_fd))) (\<lambda>_.
     bnd (only_if (g_signal_pipe_write_fd \<ge> 0) (emit (FdClose g_signal_pipe_write_fd))) (\<lambda>_. ret (-1)))"

section \<open>The descriptors in a trace\<close>

fun fds_made :: "event \<Rightarrow> int list" where
  "fds_made (PipeNew (Some (r, w))) = [r, w]"
| "fds_made _ = []"

fun fds_ended :: "event \<Rightarrow> int list" where
  "fds_ended (FdClose fd) = [fd]"
| "fds_ended _ = []"

definition opened :: "event list \<Rightarrow> int list" where
  "opened es = concat (map fds_made es)"

definition closed :: "event list \<Rightarrow> int list" where
  "closed es = concat (map fds_ended es)"

lemma opened_simps [simp]: "opened [] = []" "opened (e # es) = fds_made e @ opened es" "opened (es @ fs) = opened es @ opened fs"
  by (simp_all add: opened_def)

lemma closed_simps [simp]: "closed [] = []" "closed (e # es) = fds_ended e @ closed es" "closed (es @ fs) = closed es @ closed fs"
  by (simp_all add: closed_def)

text \<open>The documented behaviour of \<open>pipe\<close>: descriptors are not negative.\<close>

definition pipe_law :: "'w ext \<Rightarrow> bool" where
  "pipe_law E \<longleftrightarrow> (\<forall>w a b w'. x_pipe E w = (Some (a, b), w') \<longrightarrow> 0 \<le> a \<and> 0 \<le> b)"

section \<open>Rules\<close>

text \<open>The state \<open>t\<close> has the heap of \<open>s\<close> and is reached with the events \<open>es\<close>.\<close>

definition reached :: "'w st \<Rightarrow> event list \<Rightarrow> 'w st \<Rightarrow> bool" where
  "reached s es t \<longleftrightarrow> heap t = heap s \<and> fresh t = fresh s \<and> trace t = trace s @ es"

lemma reached_refl: "reached s [] s"
  by (simp add: reached_def)

lemma reached_emit:
  assumes "reached s es t" "\<And>t. reached s (es @ [e]) t \<Longrightarrow> Q () t"
  shows "wp (emit e) Q F t"
  using assms(1) by (simp add: wp_emit) (rule assms(2), simp add: reached_def)

lemma reached_ask:
  assumes "reached s es t" "\<And>r w t'. f (world t) = (r, w) \<Longrightarrow> reached s es t' \<Longrightarrow> Q r t'"
  shows "wp (ask f) Q F t"
  using assms(1) by (auto simp: wp_ask reached_def split: prod.split intro!: assms(2))

lemma reached_perror:
  assumes "reached s es t" "\<And>t m. reached s (es @ [PrintedErr m]) t \<Longrightarrow> Q () t"
  shows "wp (perror E m) Q F t"
  unfolding perror_def wp_seq wp_gets by (rule reached_emit [OF assms(1)]) (rule assms(2))

lemma reached_nonblocking:
  assumes "reached s es t" "\<And>t. reached s es t \<Longrightarrow> Q (-1) t"
    and "\<And>fl rc t. reached s (es @ [FdSetFlags fd (fl OR O_NONBLOCK) rc]) t \<Longrightarrow> Q rc t"
  shows "wp (make_fd_nonblocking E fd) Q F t"
  unfolding make_fd_nonblocking_def wp_seq
  by (rule reached_ask [OF assms(1)], rule wp_ifI)
    (auto simp: wp_seq wp_ret assms(2) intro!: reached_ask reached_emit assms(3) split: prod.split)

lemma reached_sigaction:
  assumes "reached s es t" "\<And>rc t. reached s (es @ [SigAction sig rc]) t \<Longrightarrow> Q rc t"
  shows "wp (sigaction E sig) Q F t"
  unfolding sigaction_def wp_seq wp_ret
  by (rule reached_ask [OF assms(1)], erule reached_emit) (rule assms(2))

lemma wp_either_fails:
  assumes "wp a (\<lambda>rc t. if rc < 0 then Q True t else wp b (\<lambda>rc. Q (rc < 0)) F t) F s"
  shows "wp (either_fails a b) Q F s"
  unfolding either_fails_def wp_seq by (rule wp_then [OF assms]) (simp add: wp_seq wp_ret split: if_splits)

text \<open>
  What setting up leaves: either the two ends of the pipe are open and non-blocking and both
  signals have the handler, or everything that was opened is closed.
\<close>

definition installed :: "event list \<Rightarrow> int \<Rightarrow> int \<Rightarrow> bool" where
  "installed es r g \<longleftrightarrow> (\<exists>f0 f1 c0 c1 c2 c3. 0 \<le> c0 \<and> 0 \<le> c1 \<and> 0 \<le> c2 \<and> 0 \<le> c3 \<and>
     es = [PipeNew (Some (r, g)), FdSetFlags r (f0 OR O_NONBLOCK) c0, FdSetFlags g (f1 OR O_NONBLOCK) c1,
       SigAction SIGINT c2, SigAction SIGTERM c3])"

definition set_up :: "int \<Rightarrow> int \<Rightarrow> 'w st \<Rightarrow> int \<times> int \<times> int \<Rightarrow> 'w st \<Rightarrow> bool" where
  "set_up g read_fd s x t \<longleftrightarrow> (case x of (rc, g', read_fd') \<Rightarrow> heap t = heap s \<and> fresh t = fresh s \<and> (\<exists>es. trace t = trace s @ es \<and>
     (if rc = 0 then installed es read_fd' g'
      else rc = -1 \<and> read_fd' = read_fd \<and> closed es = opened es \<and> (g' = g \<or> g' \<in> set (closed es)))))"

lemma setup_signal_handler_ok: "wp (setup_signal_handler E g read_fd) (set_up g read_fd s) F s"
proof -
  have fail: "set_up g read_fd s (-1, g', read_fd) t"
    if "reached s es t" "closed es = opened es" "g' = g \<or> g' \<in> set (closed es)" for g' t es
    using that unfolding set_up_def reached_def by auto
  have abort: "wp (perror E m) (\<lambda>_. wp (emit (FdClose a)) (\<lambda>_. wp (emit (FdClose b))
      (\<lambda>_. set_up g read_fd s (-1, g', read_fd)) F) F) F t"
    if "reached s es t" "opened es = [a, b]" "closed es = []" "g' = g \<or> g' = b" for m a b g' es t
    by (rule reached_perror [OF that(1)], erule reached_emit, erule reached_emit, erule fail) (use that in auto)
  show ?thesis
    unfolding setup_signal_handler_def wp_seq
  proof (rule reached_ask [OF reached_refl], erule reached_emit)
    fix pf t
    assume t: "reached s ([] @ [PipeNew pf]) t"
    show "wp (case pf of None \<Rightarrow>
       bnd (perror E ''setup_signal_handler: pipe failed'') (\<lambda>_. ret (-1, g, read_fd))
     | Some (pipefds0, pipefds1) \<Rightarrow>
       bnd (either_fails (make_fd_nonblocking E pipefds0) (make_fd_nonblocking E pipefds1)) (\<lambda>bad.
       if bad then
         bnd (perror E ''setup_signal_handler: fcntl O_NONBLOCK failed'') (\<lambda>_.
         bnd (emit (FdClose pipefds0)) (\<lambda>_.
         bnd (emit (FdClose pipefds1)) (\<lambda>_. ret (-1, g, read_fd))))
       else
       bnd (either_fails (sigaction E SIGINT) (sigaction E SIGTERM)) (\<lambda>bad.
       if bad then
         bnd (perror E ''setup_signal_handler: sigaction failed'') (\<lambda>_.
         bnd (emit (FdClose pipefds0)) (\<lambda>_.
         bnd (emit (FdClose pipefds1)) (\<lambda>_. ret (-1, pipefds1, read_fd))))
       else ret (0, pipefds1, pipefds0)))) (set_up g read_fd s) F t"
    proof (cases pf)
      case None
      then show ?thesis
        using t by (simp add: wp_seq wp_ret) (erule reached_perror, erule fail, simp_all)
    next
      case (Some q)
      then obtain a b where q: "pf = Some (a, b)" by (cases q) auto
      show ?thesis
        unfolding q option.case case_prod_conv wp_seq
        apply (rule wp_either_fails, rule reached_nonblocking [OF t])
         apply (simp add: wp_seq wp_ret, erule abort, simp_all add: q)
        apply (intro conjI impI)
         apply (simp add: wp_seq wp_ret, erule abort, simp_all)
        apply (erule reached_nonblocking)
         apply (simp add: wp_seq wp_ret, erule abort, simp_all)
        apply (intro conjI impI)
         apply (simp add: wp_seq wp_ret, erule abort, simp_all)
        apply (simp only: wp_seq)
        apply (rule wp_either_fails, erule reached_sigaction)
        apply (simp, intro conjI impI)
         apply (simp add: wp_seq wp_ret, erule abort, simp_all)
        apply (erule reached_sigaction)
        apply (rule wp_ifI)
         apply (simp add: wp_seq wp_ret, erule abort, simp_all)
        apply (simp add: wp_ret set_up_def installed_def reached_def)
        by (metis not_less)
    qed
  qed
qed

lemma setup_signal_handler_fds:
  assumes "pipe_law E"
  shows "wp (setup_signal_handler E g fd) (\<lambda>x t. case x of (rc, g, read_fd) \<Rightarrow> rc = 0 \<longrightarrow> 0 \<le> read_fd \<and> 0 \<le> g) F s"
  using assms unfolding pipe_law_def setup_signal_handler_def either_fails_def make_fd_nonblocking_def sigaction_def perror_def
  by (auto simp: wp_simps split: prod.split option.split)

section \<open>Properties\<close>

text \<open>
  C30. Setting up the signal pipe: 0 is returned only when both ends of the new pipe were made
  non-blocking and both signals got the handler, and then the caller has the read end and the
  handler the write end; otherwise -1, and every descriptor that was opened is closed once. The
  handler's variable is then as before, or it is one of the closed descriptors.
\<close>

theorem setup_signal_handler_outcome:
  "wp (setup_signal_handler E g read_fd) (\<lambda>(rc, g', read_fd') t. heap t = heap s \<and> (\<exists>es. trace t = trace s @ es \<and>
     (if rc = 0
      then (\<exists>f0 f1 c0 c1 c2 c3. 0 \<le> c0 \<and> 0 \<le> c1 \<and> 0 \<le> c2 \<and> 0 \<le> c3 \<and>
        es = [PipeNew (Some (read_fd', g')), FdSetFlags read_fd' (f0 OR O_NONBLOCK) c0,
          FdSetFlags g' (f1 OR O_NONBLOCK) c1, SigAction SIGINT c2, SigAction SIGTERM c3])
      else rc = -1 \<and> read_fd' = read_fd \<and> closed es = opened es \<and> (g' = g \<or> g' \<in> set (closed es)))))
     no_fault s"
  by (rule wp_then [OF setup_signal_handler_ok]) (auto simp: set_up_def installed_def)

text \<open>
  C39. When the handler for \<open>SIGTERM\<close> cannot be installed, the one for \<open>SIGINT\<close> stays, and its
  variable names the descriptor that has just been closed: a later \<open>SIGINT\<close> writes to it.
\<close>

theorem setup_leaves_closed_descriptor:
  assumes "x_pipe E (world s) = (Some (a, b), w)" "x_getfl E = (\<lambda>fd w. (0, w))" "x_setfl E = (\<lambda>fd fl w. (0, w))"
    and "x_sigaction E = (\<lambda>sig w. (if sig = SIGTERM then -1 else 0, w))" "b \<noteq> -1"
  shows "wp (bnd (setup_signal_handler E g read_fd) (\<lambda>(rc, g', _). bnd (s_signal_handler E g') (\<lambda>_. ret rc)))
    (\<lambda>rc t. rc = -1 \<and> (\<exists>es d n es'. trace t = trace s @ es @ FdWrite b d n # es' \<and> b \<in> set (closed es) \<and>
       SigAction SIGINT 0 \<in> set es)) no_fault s"
proof -
  have w: "\<exists>es d n es'. pre @ FdWrite b d' n' # suf = es @ FdWrite b d n # es' \<and> b \<in> set (closed es) \<and>
      SigAction SIGINT 0 \<in> set es" if "b \<in> set (closed pre)" "SigAction SIGINT 0 \<in> set pre" for pre d' n' suf
    using that by blast
  show ?thesis
    using assms(1,5) w [of "[PipeNew (Some (a, b)), FdSetFlags a (0 OR O_NONBLOCK) 0, FdSetFlags b (0 OR O_NONBLOCK) 0,
      SigAction SIGINT 0, SigAction SIGTERM (-1), PrintedErr m, FdClose a, FdClose b]" for m]
    by (simp add: setup_signal_handler_def s_signal_handler_def either_fails_def make_fd_nonblocking_def
        sigaction_def fd_write_def perror_def wp_simps assms(2-4) split: prod.split)
qed

theorem setup_leaves_closed_descriptor_witness:
  "\<exists>t. bnd (setup_signal_handler (sim_ext\<lparr>x_sigaction := (\<lambda>sig w. (if sig = SIGTERM then -1 else 0, w))\<rparr>) (-1) (-1))
      (\<lambda>(rc, g', _). bnd (s_signal_handler (sim_ext\<lparr>x_sigaction := (\<lambda>sig w. (if sig = SIGTERM then -1 else 0, w))\<rparr>) g')
      (\<lambda>_. ret rc)) (sim_state empty_script) = Inr (-1, t)"
  using setup_leaves_closed_descriptor [of "sim_ext\<lparr>x_sigaction := (\<lambda>sig w. (if sig = SIGTERM then -1 else 0, w))\<rparr>"
      "sim_state empty_script" 3 4 empty_script "-1" "-1"]
  by (auto simp: sim_ext_def dest!: wp_runs)

text \<open>
  C31. The life of the pipe: when setting up succeeded, cleaning up closes the read end and the
  write end, each once, and resets the handler's variable to -1; when it failed, exactly the
  descriptors that were opened have been closed.
\<close>

theorem signal_pipe_life_cycle:
  assumes "pipe_law E"
  shows "wp (bnd (setup_signal_handler E g0 (-1)) (\<lambda>(rc, g, read_fd).
      if rc = 0 then bnd (cleanup_signal_handler E g read_fd) (\<lambda>g. ret (rc, g)) else ret (rc, g)))
    (\<lambda>(rc, g) t. \<exists>es. trace t = trace s @ es \<and> closed es = opened es \<and>
       (if rc = 0 then g = -1 \<and> length (closed es) = 2 else g = g0 \<or> g \<in> set (closed es))) no_fault s"
  unfolding wp_seq
proof (rule wp_then [OF wp_conj [OF setup_signal_handler_ok setup_signal_handler_fds [OF assms]]])
  fix x :: "int \<times> int \<times> int" and t :: "'a st"
  assume x: "set_up g0 (-1) s x t \<and> (case x of (rc, g, read_fd) \<Rightarrow> rc = 0 \<longrightarrow> 0 \<le> read_fd \<and> 0 \<le> g)"
  obtain rc g r where q: "x = (rc, g, r)" by (cases x)
  from x q obtain es where es: "trace t = trace s @ es" "if rc = 0 then installed es r g
      else closed es = opened es \<and> (g = g0 \<or> g \<in> set (closed es))"
    by (auto simp: set_up_def split: if_splits)
  show "wp (case x of (rc, g, read_fd) \<Rightarrow>
        if rc = 0 then bnd (cleanup_signal_handler E g read_fd) (\<lambda>g. ret (rc, g)) else ret (rc, g))
      (\<lambda>(rc, g) t. \<exists>es. trace t = trace s @ es \<and> closed es = opened es \<and>
         (if rc = 0 then g = -1 \<and> length (closed es) = 2 else g = g0 \<or> g \<in> set (closed es))) no_fault t"
  proof (cases "rc = 0")
    case True
    then have "installed es r g" "0 \<le> r" "0 \<le> g" using es x q by auto
    then have "closed (es @ [FdClose r, FdClose g]) = opened (es @ [FdClose r, FdClose g])"
      "length (closed (es @ [FdClose r, FdClose g])) = 2"
      by (auto simp: installed_def)
    with es(1) show ?thesis
      using True \<open>0 \<le> r\<close> \<open>0 \<le> g\<close> unfolding q by (simp add: cleanup_signal_handler_def wp_simps)
  next
    case False
    with es show ?thesis unfolding q by (auto simp: wp_ret)
  qed
qed

theorem signal_pipe_life_cycle_witness:
  "\<exists>t. bnd (setup_signal_handler sim_ext (-1) (-1)) (\<lambda>(rc, g, read_fd).
      if rc = 0 then bnd (cleanup_signal_handler sim_ext g read_fd) (\<lambda>g. ret (rc, g)) else ret (rc, g))
      (sim_state empty_script) = Inr ((0, -1), t) \<and> length (closed (trace t)) = 2"
proof -
  let ?run = "bnd (setup_signal_handler sim_ext (-1) (-1)) (\<lambda>(rc, g, read_fd).
      if rc = 0 then bnd (cleanup_signal_handler sim_ext g read_fd) (\<lambda>g. ret (rc, g)) else ret (rc, g))"
  have "pipe_law sim_ext" by (simp add: pipe_law_def)
  moreover have "wp ?run (\<lambda>(rc, g) t. rc = 0) no_fault (sim_state empty_script)"
    by (simp add: setup_signal_handler_def cleanup_signal_handler_def either_fails_def make_fd_nonblocking_def
        sigaction_def wp_simps)
  ultimately show ?thesis
    using signal_pipe_life_cycle [of sim_ext "-1" "sim_state empty_script"] by (auto dest!: wp_runs)
qed

end
