(* ===== verification/Chat_Client.thy ===== *)
theory Chat_Client
  imports Signal_Handler
begin

text \<open>
  \<open>client/chat_client.c\<close> and \<open>main.c\<close>: the main thread. It asks for the login name, starts the
  three threads with their arguments, sleeps until a signal arrives, publishes the shutdown
  messages, joins the threads and releases what it holds. What the other threads do meanwhile is
  part of the world.
\<close>

section \<open>Model\<close>

text \<open>
  Starting a thread: the argument structure (72 bytes) is allocated, not checked, and filled; the
  array of the user name has 64 bytes. The result of \<open>pthread_create\<close> is not read.
\<close>

definition start_thread :: "'w ext \<Rightarrow> thread \<Rightarrow> ptr \<Rightarrow> string \<Rightarrow> ('w st, ptr) prog" where
  "start_thread E th zmqcontext username =
     bnd (malloc E 72) (\<lambda>args.
     bnd (local_array E 64) (\<lambda>uninit.
     bnd (store args (BArgs zmqcontext uninit)) (\<lambda>_.
     bnd (cstr_at username 0) (\<lambda>name.
     bnd (strncpy uninit name 64) (\<lambda>a.
     bnd (store args (BArgs zmqcontext a)) (\<lambda>_.
     bnd (emit (ThreadCreate th args)) (\<lambda>_. ret args)))))))"

text \<open>
  Joining a thread that could not be created reads an uninitialised \<open>pthread_t\<close>, which the
  model counts as the use of a dead object.
\<close>

definition join_thread :: "'w ext \<Rightarrow> thread \<Rightarrow> ('w st, unit) prog" where
  "join_thread E th =
     bnd (gets (\<lambda>s. x_created E th (world s))) (\<lambda>created.
     if \<not> created then fail DeadPointer
     else bnd (ask (\<lambda>w. ((), x_join E th w))) (\<lambda>_. emit (ThreadJoin th)))"

definition send_kill :: "'w ext \<Rightarrow> ptr \<Rightarrow> string \<Rightarrow> ('w st, unit) prog" where
  "send_kill E socket_pub_shutdown msg =
     bnd (socket_send E socket_pub socket_pub_shutdown (msg @ [NUL]) (length msg) 0) (\<lambda>_. ret ())"

definition client_stop :: "'w ext \<Rightarrow> int \<Rightarrow> int \<Rightarrow> ptr \<Rightarrow> ptr \<Rightarrow> ptr \<Rightarrow> ptr \<Rightarrow> ptr \<Rightarrow> ('w st, int) prog" where
  "client_stop E g sig_fd zmqcontext socket_pub_shutdown args_ui args_receiver args_controller =
     bnd (log_app_print E (''[MAIN] app running. press Ctrl+C to stop...'' @ [CHR 0x0A])) (\<lambda>_.
     bnd (z_poll E [PollFd sig_fd] (-1)) (\<lambda>_.
     bnd (log_app_print E ([CHR 0x0A] @ ''[MAIN] Ctrl+C! sending KILL via INPROC...'' @ [CHR 0x0A])) (\<lambda>_.
     bnd (send_kill E socket_pub_shutdown CHAT_MESSAGE_KILL_CONTROLLER) (\<lambda>_.
     bnd (send_kill E socket_pub_shutdown CHAT_MESSAGE_KILL_RECEIVER) (\<lambda>_.
     bnd (join_thread E Thread_receiver) (\<lambda>_.
     bnd (join_thread E Thread_controller) (\<lambda>_.
     bnd (send_kill E socket_pub_shutdown CHAT_MESSAGE_KILL_UI) (\<lambda>_.
     bnd (join_thread E Thread_ui) (\<lambda>_.
     bnd (log_app_print E (''[ZMQClient] context closed...'' @ [CHR 0x0A])) (\<lambda>_.
     bnd (log_app_print E (''[MAIN] threads finished. Clean ZMQ context...'' @ [CHR 0x0A])) (\<lambda>_.
     bnd (socket_destroy E (Some socket_pub_shutdown)) (\<lambda>_.
     bnd (emit (CtxDestroy zmqcontext)) (\<lambda>_.
     bnd (free args_controller) (\<lambda>_.
     bnd (free args_receiver) (\<lambda>_.
     bnd (free args_ui) (\<lambda>_.
     cleanup_signal_handler E g sig_fd))))))))))))))))"

text \<open>
  The result is the return value, \<open>None\<close> when the assertion aborts the process, and the static
  variable of the signal handler; \<open>ndebug\<close> says whether the program was compiled with
  \<open>NDEBUG\<close>, as the release build is.
\<close>

definition zmq_client_run :: "'w ext \<Rightarrow> bool \<Rightarrow> int \<Rightarrow> ('w st, int option \<times> int) prog" where
  "zmq_client_run E ndebug g =
     bnd (setup_signal_handler E g (-1)) (\<lambda>(rc, g, sig_fd).
     if rc \<noteq> 0 then ret (Some (-1), g)
     else
     bnd (printf ''enter login: '') (\<lambda>_.
     bnd (local_array E 64) (\<lambda>username.
     bnd (ask (x_scanf_word E 63)) (\<lambda>r.
     case r of None \<Rightarrow> ret (Some 1, g)
     | Some word \<Rightarrow>
     bnd (write_at username 0 (word @ [NUL])) (\<lambda>username.
     bnd (ask (x_ctx_new E)) (\<lambda>zmqcontext.
     bnd (emit (CtxNew zmqcontext)) (\<lambda>_.
     if zmqcontext = None \<and> \<not> ndebug then bnd (emit (Exited 134)) (\<lambda>_. ret (None, g))
     else
     bnd (socket_new E socket_pub zmqcontext) (\<lambda>socket_pub_shutdown.
     bnd (socket_bind E socket_pub socket_pub_shutdown INPROC_SHUTDOWN_ADDR) (\<lambda>_.
     bnd (start_thread E Thread_ui zmqcontext username) (\<lambda>args_ui.
     bnd (start_thread E Thread_receiver zmqcontext username) (\<lambda>args_receiver.
     bnd (start_thread E Thread_controller zmqcontext username) (\<lambda>args_controller.
     bnd (client_stop E g sig_fd zmqcontext socket_pub_shutdown args_ui args_receiver args_controller) (\<lambda>g.
     ret (Some 0, g))))))))))))))"

text \<open>\<open>main\<close>; the version of libzmq is an argument. The result of \<open>zmq_client_run\<close> is not read.\<close>

definition main :: "'w ext \<Rightarrow> int \<times> int \<times> int \<Rightarrow> bool \<Rightarrow> int \<Rightarrow> ('w st, int) prog" where
  "main E version ndebug g = (case version of (major, minor, patch) \<Rightarrow>
     bnd (printf (''----- ZMQ CHAT CLIENT :: MAIN -----'' @ [CHR 0x0A])) (\<lambda>_.
     bnd (printf (''Current 0MQ version is '' @ show_int major @ ''.'' @ show_int minor @ ''.'' @ show_int patch @ [CHR 0x0A])) (\<lambda>_.
     bnd (zmq_client_run E ndebug g) (\<lambda>(r, _). ret (if r = None then 134 else 0)))))"

section \<open>Rules\<close>

text \<open>
  The events that make up the life of the process, and the assertion that a state is reached
  from a point of the trace with a given list of them and has a given heap.
\<close>

fun milestone :: "event \<Rightarrow> bool" where
  "milestone (PipeNew _) = True"
| "milestone (FdClose _) = True"
| "milestone (CtxNew _) = True"
| "milestone (CtxDestroy _) = True"
| "milestone (ThreadCreate _ _) = True"
| "milestone (ThreadJoin _) = True"
| "milestone (ZBind _ _ _) = True"
| "milestone (ZSend _ _ _ _) = True"
| "milestone (ZClose _) = True"
| "milestone (Exited _) = True"
| "milestone _ = False"

definition milestones :: "event list \<Rightarrow> event list" where
  "milestones es = filter milestone es"

lemma milestones_simps [simp]:
  "milestones [] = []" "milestones (e # es) = (if milestone e then e # milestones es else milestones es)"
  "milestones (es @ fs) = milestones es @ milestones fs"
  by (simp_all add: milestones_def)

lemma milestones_failure_note [simp]: "milestones (failure_note E w rc m) = []"
  by (simp add: failure_note_def)

definition passed :: "event list \<Rightarrow> (nat \<rightharpoonup> block) \<Rightarrow> event list \<Rightarrow> 'w st \<Rightarrow> bool" where
  "passed tr H ms t \<longleftrightarrow> heap_ok t \<and> heap t = H \<and> (\<exists>es. trace t = tr @ es \<and> milestones es = ms)"

named_theorems passed_rules "one rule for each operation of the main thread"

lemma passed_step:
  assumes "passed tr H ms s" "heap t = heap s" "fresh t = fresh s" "trace t = trace s @ es" "milestones es = ms'"
  shows "passed tr H (ms @ ms') t"
  using assms unfolding passed_def heap_ok_def by auto

lemma passed_quiet:
  assumes "passed tr H ms s" "heap t = heap s" "fresh t = fresh s" "trace t = trace s @ es" "milestones es = []"
  shows "passed tr H ms t"
  using passed_step [OF assms] by simp

lemma passed_emit [passed_rules]:
  assumes "passed tr H ms s" "\<And>t. passed tr H (ms @ (if milestone e then [e] else [])) t \<Longrightarrow> Q () t"
  shows "wp (emit e) Q F s"
  unfolding wp_emit by (rule assms(2), rule passed_step [OF assms(1), where es = "[e]"]) simp_all

lemma passed_printf [passed_rules]:
  assumes "passed tr H ms s" "\<And>t. passed tr H ms t \<Longrightarrow> Q () t"
  shows "wp (printf x) Q F s"
  unfolding printf_def by (rule passed_emit [OF assms(1)]) (simp add: assms(2))

lemma passed_ask [passed_rules]:
  assumes "passed tr H ms s" "\<And>r w t. f (world s) = (r, w) \<Longrightarrow> passed tr H ms t \<Longrightarrow> Q r t"
  shows "wp (ask f) Q F s"
  by (auto simp: wp_ask split: prod.split intro!: assms(2) passed_quiet [OF assms(1), where es = "[]"])

lemma passed_log [passed_rules]:
  assumes "passed tr H ms s" "\<And>t. passed tr H ms t \<Longrightarrow> Q () t"
  shows "wp (log_app_print E m) Q F s"
  by (rule wp_log_app_print, rule assms(2),
      rule passed_quiet [OF assms(1), where es = "[Printed (''[LOG]'' @ cs (take 1023 m))]"]) simp_all

lemma passed_poll [passed_rules]:
  assumes "passed tr H ms s" "\<And>r t. passed tr H ms t \<Longrightarrow> Q r t"
  shows "wp (z_poll E items tm) Q F s"
  by (auto simp: wp_z_poll split: prod.split intro!: assms(2) passed_quiet [OF assms(1)])

definition always_created :: "'w ext \<Rightarrow> bool" where
  "always_created E \<longleftrightarrow> (\<forall>th w. x_created E th w)"

lemma passed_join [passed_rules]:
  assumes "passed tr H ms s" "\<not> always_created E \<Longrightarrow> F DeadPointer"
    and "\<And>t. passed tr H (ms @ [ThreadJoin th]) t \<Longrightarrow> Q () t"
  shows "wp (join_thread E th) Q F s"
proof (cases "x_created E th (world s)")
  case True
  then show ?thesis
    unfolding join_thread_def wp_seq wp_gets
    by (simp add: wp_seq) (rule passed_ask [OF assms(1)], erule passed_emit, simp add: assms(3))
next
  case False
  then have "F DeadPointer" by (intro assms(2)) (auto simp: always_created_def)
  with False show ?thesis unfolding join_thread_def wp_seq wp_gets by (simp add: wp_fail)
qed

lemma passed_sock: "passed tr H ms s \<Longrightarrow> H a = Some (BSock h) \<Longrightarrow> sock_at s (Some a) h"
  by (simp add: passed_def sock_at_def)

lemma passed_kill [passed_rules]:
  assumes "passed tr H ms s" "H a = Some (BSock h)"
    and "\<And>rc t. passed tr H (ms @ [ZSend h msg 0 rc]) t \<Longrightarrow> Q () t"
  shows "wp (send_kill E (Some a) msg) Q F s"
  unfolding send_kill_def wp_seq wp_ret
  by (auto simp: wp_socket_send [OF passed_sock [OF assms(1,2)]] split: prod.split
      intro!: assms(3) passed_step [OF assms(1)])

lemma passed_bind [passed_rules]:
  assumes "passed tr H ms s" "H a = Some (BSock h)"
    and "\<And>rc t. passed tr H (ms @ [ZBind h ep rc]) t \<Longrightarrow> Q rc t"
  shows "wp (socket_bind E k (Some a) ep) Q F s"
  by (auto simp: wp_socket_bind [OF passed_sock [OF assms(1,2)]] split: prod.split
      intro!: assms(3) passed_step [OF assms(1)])

lemma passed_destroy [passed_rules]:
  assumes "passed tr H ms s" "H a = Some (BSock h)"
    and "\<And>t. passed tr (H(a := None)) (ms @ [ZClose h]) t \<Longrightarrow> Q (Some None) t"
  shows "wp (socket_destroy E (Some (Some a))) Q F s"
proof -
  have "heap s a = Some (BSock h)" using assms(1,2) by (simp add: passed_def)
  then show ?thesis
    apply (simp add: wp_socket_destroy split: prod.split)
    apply (intro allI impI assms(3))
    using assms(1) unfolding passed_def heap_ok_def by auto
qed

lemma passed_free [passed_rules]:
  assumes "passed tr H ms s" "H a = Some b" "\<And>t. passed tr (H(a := None)) ms t \<Longrightarrow> Q () t"
  shows "wp (free (Some a)) Q F s"
proof -
  have "Q () (s\<lparr>heap := (heap s)(a := None)\<rparr>)"
    using assms(1) by (intro assms(3)) (auto simp: passed_def heap_ok_def)
  then show ?thesis using assms(1,2) by (simp add: wp_free passed_def)
qed

definition always_socket :: "'w ext \<Rightarrow> socket_kind \<Rightarrow> bool" where
  "always_socket E k \<longleftrightarrow> (\<forall>w. fst (x_socket E k w) \<noteq> None)"

definition always_context :: "'w ext \<Rightarrow> bool" where
  "always_context E \<longleftrightarrow> (\<forall>w. fst (x_ctx_new E w) \<noteq> None)"

lemma passed_socket_new [passed_rules]:
  assumes "passed tr H ms s"
    and "\<And>t. \<not> malloc_law E \<or> \<not> always_socket E k \<Longrightarrow> Q None t"
    and "\<And>a h t. H a = None \<Longrightarrow> passed tr (H(a \<mapsto> BSock h)) ms t \<Longrightarrow> Q (Some a) t"
  shows "wp (socket_new E k (Some c)) Q F s"
proof -
  obtain ok w where m: "x_malloc E 8 (world s) = (ok, w)" by fastforce
  obtain r w' where r: "x_socket E k w = (r, w')" by fastforce
  have "Q (Some (fresh s)) (s\<lparr>fresh := Suc (fresh s), world := w',
     trace := trace s @ [ZOpen k (Some h)], heap := (heap s)(fresh s \<mapsto> BSock h)\<rparr>)" for h
    using assms(1) by (intro assms(3) [where h = h]) (auto simp: passed_def heap_ok_def)
  moreover have "Q None t" if "\<not> ok" for t
    using that m malloc_lawD [of E] by (intro assms(2)) blast
  moreover have "Q None t" if "r = None" for t
    using that r by (intro assms(2)) (metis always_socket_def fst_conv)
  ultimately show ?thesis
    by (simp add: wp_socket_new m r split: option.split)
qed

text \<open>
  The arguments a thread gets: the context and an array with the login name, terminated as the
  threads expect it.
\<close>

definition args_of :: "nat \<Rightarrow> string \<Rightarrow> block \<Rightarrow> bool" where
  "args_of c word b \<longleftrightarrow> (\<exists>a. b = BArgs (Some c) a \<and> length a = 64 \<and> has_cstr a 0 \<and> cs a = word)"

lemma name_array:
  assumes "nul_free word" "length word \<le> 63" "length u = 64"
  shows "args_of c word (BArgs (Some c) (take 64 word @ replicate (64 - length word) NUL @ drop 64 u))"
proof -
  have "64 - length word \<noteq> 0" using assms(2) by simp
  then obtain k where "64 - length word = Suc k" using not0_implies_Suc by blast
  then show ?thesis using assms by (simp add: args_of_def has_cstr_def cs_id)
qed

lemma passed_start [passed_rules]:
  assumes "passed tr H ms s" "\<not> malloc_law E \<Longrightarrow> F NullPointer"
    and "has_cstr username 0" "cs username = word" "length word \<le> 63"
    and "\<And>a b t. H a = None \<Longrightarrow> args_of c word b \<Longrightarrow> passed tr (H(a \<mapsto> b)) (ms @ [ThreadCreate th (Some a)]) t \<Longrightarrow> Q (Some a) t"
  shows "wp (start_thread E th (Some c) username) Q F s"
proof -
  have nf: "nul_free word" using assms(4) cs_nul_free by blast
  obtain ok w where m: "x_malloc E 72 (world s) = (ok, w)" by fastforce
  have H: "H (fresh s) = None" using assms(1) by (auto simp: passed_def)
  have Q: "Q (Some (fresh s)) t" if "length u = 64" "heap_ok t"
    "heap t = H(fresh s \<mapsto> BArgs (Some c) (take 64 word @ replicate (64 - length word) NUL @ drop 64 u))"
    "trace t = trace s @ [ThreadCreate th (Some (fresh s))]" for u t
    using name_array [OF nf assms(5) that(1)] assms(1) that
    by (intro assms(6) [OF H]) (auto simp: passed_def)
  show ?thesis
  proof (cases ok)
    case True
    then show ?thesis
      unfolding start_thread_def wp_seq
      apply (simp add: wp_malloc m)
      apply (rule wp_local_arrayI)
      apply (simp add: wp_store)
      apply (rule wp_cstr_wholeI [OF assms(3)])
      apply (simp add: assms(4) wp_strncpy wp_store wp_emit wp_ret)
      apply (rule Q)
         apply (use assms(1) in \<open>auto simp: passed_def heap_ok_def\<close>)
      done
  next
    case False
    then have "F NullPointer" using m malloc_lawD [of E] by (intro assms(2)) blast
    with False show ?thesis
      unfolding start_thread_def wp_seq
      by (simp add: wp_malloc m) (rule wp_local_arrayI, simp add: wp_store)
  qed
qed

section \<open>The process\<close>

definition stopping :: "int \<Rightarrow> int \<Rightarrow> nat \<Rightarrow> ptr \<Rightarrow> event list \<Rightarrow> bool" where
  "stopping g sig_fd h ctx es \<longleftrightarrow> (\<exists>k1 k2 k3. es = [ZSend h CHAT_MESSAGE_KILL_CONTROLLER 0 k1,
     ZSend h CHAT_MESSAGE_KILL_RECEIVER 0 k2, ThreadJoin Thread_receiver, ThreadJoin Thread_controller,
     ZSend h CHAT_MESSAGE_KILL_UI 0 k3, ThreadJoin Thread_ui, ZClose h, CtxDestroy ctx, FdClose sig_fd, FdClose g])"

lemma client_stop_ok:
  assumes "passed tr H ms s" "0 \<le> g" "0 \<le> sig_fd" "H p = Some (BSock h)" "H u = Some bu" "H r = Some br" "H c = Some bc"
    and "distinct [p, u, r, c]" and join: "\<not> always_created E \<Longrightarrow> F DeadPointer"
  shows "wp (client_stop E g sig_fd ctx (Some p) (Some u) (Some r) (Some c))
    (\<lambda>g' t. g' = -1 \<and> (\<exists>es. stopping g sig_fd h ctx es \<and>
       passed tr (H(p := None, c := None, r := None, u := None)) (ms @ es) t)) F s"
  unfolding client_stop_def cleanup_signal_handler_def wp_seq wp_ret
  apply (rule passed_log [OF assms(1)])
  apply (erule passed_poll, erule passed_log)
  apply (erule passed_kill, rule assms(4))
  apply (erule passed_kill, rule assms(4))
  apply (erule passed_join, erule join)
  apply (erule passed_join, erule join)
  apply (erule passed_kill, rule assms(4))
  apply (erule passed_join, erule join)
  apply (erule passed_log, erule passed_log)
  apply (erule passed_destroy, rule assms(4))
  apply (erule passed_emit)
  apply (erule passed_free, use assms in simp)
  apply (erule passed_free, use assms in simp)
  apply (erule passed_free, use assms in simp)
  using assms(2,3) apply (simp only: only_if_simps simp_thms)
  apply (erule passed_emit, erule passed_emit)
  apply (simp add: stopping_def)
  apply (rule exI, rule conjI [rotated], assumption)
  by simp

text \<open>The documented behaviour of \<open>scanf("%63s", ...)\<close>: what it stores is at most 63 bytes long.\<close>

definition scanf_law :: "'w ext \<Rightarrow> bool" where
  "scanf_law E \<longleftrightarrow> (\<forall>n w x w'. x_scanf_word E n w = (Some x, w') \<longrightarrow> length x \<le> n)"

definition life :: "event list \<Rightarrow> bool" where
  "life es \<longleftrightarrow> (\<exists>r g c h rc u rv ct es'. es = [PipeNew (Some (r, g)), CtxNew (Some c), ZBind h INPROC_SHUTDOWN_ADDR rc,
     ThreadCreate Thread_ui (Some u), ThreadCreate Thread_receiver (Some rv), ThreadCreate Thread_controller (Some ct)] @ es' \<and>
     stopping g r h (Some c) es')"

definition lived :: "bool \<Rightarrow> event list \<Rightarrow> (nat \<rightharpoonup> block) \<Rightarrow> int option \<times> int \<Rightarrow> 'w st \<Rightarrow> bool" where
  "lived ndebug tr H x t \<longleftrightarrow> (case x of (r, g) \<Rightarrow> heap t = H \<and> (\<exists>es. trace t = tr @ es \<and>
     (r = Some 0 \<and> g = -1 \<and> life (milestones es) \<or>
      r = Some (-1) \<and> closed es = opened es \<or>
      r = Some 1 \<and> (\<exists>rd. milestones es = [PipeNew (Some (rd, g))]) \<or>
      r = None \<and> \<not> ndebug \<and> (\<exists>rd. milestones es = [PipeNew (Some (rd, g)), CtxNew None, Exited 134]))))"

lemma lived_life:
  assumes "stopping g fd h (Some c) es" "passed tr H (PipeNew (Some (fd, g)) # CtxNew (Some c) #
      ZBind h INPROC_SHUTDOWN_ADDR rc # ThreadCreate Thread_ui (Some u) # ThreadCreate Thread_receiver (Some rv) #
      ThreadCreate Thread_controller (Some ct) # es) t"
  shows "lived ndebug tr H (Some 0, -1) t"
  using assms unfolding lived_def passed_def life_def by fastforce

lemma client_stop_lived:
  assumes "0 \<le> fd" "0 \<le> g" "H a = None" "(H(a \<mapsto> BSock h)) u = None" "(H(a \<mapsto> BSock h, u \<mapsto> b)) rv = None"
    "(H(a \<mapsto> BSock h, u \<mapsto> b, rv \<mapsto> b')) ct = None"
    and s: "passed tr (H(a \<mapsto> BSock h, u \<mapsto> b, rv \<mapsto> b', ct \<mapsto> b'')) [PipeNew (Some (fd, g)), CtxNew (Some c),
      ZBind h INPROC_SHUTDOWN_ADDR rc, ThreadCreate Thread_ui (Some u), ThreadCreate Thread_receiver (Some rv),
      ThreadCreate Thread_controller (Some ct)] s"
    and join: "\<not> always_created E \<Longrightarrow> F DeadPointer"
  shows "wp (client_stop E g fd (Some c) (Some a) (Some u) (Some rv) (Some ct)) (\<lambda>g. lived ndebug tr H (Some 0, g)) F s"
proof -
  let ?H = "H(a \<mapsto> BSock h, u \<mapsto> b, rv \<mapsto> b', ct \<mapsto> b'')"
  have d: "distinct [a, u, rv, ct]" using assms(4-6) by (auto split: if_splits)
  have h: "?H a = Some (BSock h)" "?H u = Some b" "?H rv = Some b'" "?H ct = Some b''" using d by auto
  have off: "?H(a := None, ct := None, rv := None, u := None) = H"
    using d assms(3-6) by (auto simp: fun_eq_iff)
  show ?thesis
    by (rule wp_then [OF client_stop_ok [OF s assms(2,1) h d]], rule join, assumption)
      (auto simp only: off append.simps intro: lived_life)
qed

lemma zmq_client_run_ok:
  assumes "scanf_law E" "pipe_law E" "heap_ok s"
    and null: "\<not> malloc_law E \<or> \<not> always_socket E socket_pub \<or> (ndebug \<and> \<not> always_context E) \<Longrightarrow> F NullPointer"
    and join: "\<not> always_created E \<Longrightarrow> F DeadPointer"
  shows "wp (zmq_client_run E ndebug g) (lived ndebug (trace s) (heap s)) F s"
  unfolding zmq_client_run_def wp_seq
proof (rule wp_then [OF wp_conj [OF setup_signal_handler_ok setup_signal_handler_fds [OF assms(2)]]], elim conjE)
  fix x :: "int \<times> int \<times> int" and t :: "'a st"
  assume x: "set_up g (-1) s x t" "case x of (rc, g, read_fd) \<Rightarrow> rc = 0 \<longrightarrow> 0 \<le> read_fd \<and> 0 \<le> g"
  obtain rc g' fd where q: "x = (rc, g', fd)" by (cases x)
  show "wp (case x of (rc, g, sig_fd) \<Rightarrow> if rc \<noteq> 0 then ret (Some (-1), g)
     else
     bnd (printf ''enter login: '') (\<lambda>_.
     bnd (local_array E 64) (\<lambda>username.
     bnd (ask (x_scanf_word E 63)) (\<lambda>r.
     case r of None \<Rightarrow> ret (Some 1, g)
     | Some word \<Rightarrow>
     bnd (write_at username 0 (word @ [NUL])) (\<lambda>username.
     bnd (ask (x_ctx_new E)) (\<lambda>zmqcontext.
     bnd (emit (CtxNew zmqcontext)) (\<lambda>_.
     if zmqcontext = None \<and> \<not> ndebug then bnd (emit (Exited 134)) (\<lambda>_. ret (None, g))
     else
     bnd (socket_new E socket_pub zmqcontext) (\<lambda>socket_pub_shutdown.
     bnd (socket_bind E socket_pub socket_pub_shutdown INPROC_SHUTDOWN_ADDR) (\<lambda>_.
     bnd (start_thread E Thread_ui zmqcontext username) (\<lambda>args_ui.
     bnd (start_thread E Thread_receiver zmqcontext username) (\<lambda>args_receiver.
     bnd (start_thread E Thread_controller zmqcontext username) (\<lambda>args_controller.
     bnd (client_stop E g sig_fd zmqcontext socket_pub_shutdown args_ui args_receiver args_controller) (\<lambda>g.
     ret (Some 0, g)))))))))))))) (lived ndebug (trace s) (heap s)) F t"
  proof (cases "rc = 0")
    case False
    then show ?thesis using x q by (auto simp: lived_def set_up_def wp_ret)
  next
    case True
    with x q have fd: "0 \<le> fd" "0 \<le> g'" and t: "passed (trace s) (heap s) [PipeNew (Some (fd, g'))] t"
      using assms(3) by (auto simp: set_up_def passed_def installed_def heap_ok_def)
    show ?thesis
      unfolding q case_prod_conv True simp_thms if_False wp_seq
    proof (rule passed_printf [OF t], rule wp_local_arrayI, erule passed_ask, goal_cases)
      case (1 t1 b r w t2)
      show ?case
      proof (cases r)
        case None
        then show ?thesis using 1(3) by (auto simp: wp_ret lived_def passed_def)
      next
        case (Some word)
        then have l: "length word \<le> 63" using assms(1) 1(2) unfolding scanf_law_def by blast
        have w: "wp (write_at b 0 (word @ [NUL])) Q F v = Q (word @ NUL # drop (Suc (length word)) b) v" for Q and v :: "'a st"
          using l 1(1) by (simp add: wp_write_at)
        let ?u = "word @ NUL # drop (Suc (length word)) b"
        have u: "has_cstr ?u 0" "cs ?u = cs word" "length (cs word) \<le> 63"
          using l cs_length [of word] by (simp_all add: has_cstr_def)
        have "\<not> malloc_law E \<Longrightarrow> F NullPointer" by (rule null) simp
        note start = passed_start [where F = F, OF _ this u]
        show ?thesis
          unfolding Some option.case wp_seq w
        proof (rule passed_ask [OF 1(3)], erule passed_emit, goal_cases)
          case (1 ctx w' t3 t4)
          show ?case
          proof (cases ctx)
            case c: None
            with 1(1) have n: "\<not> always_context E" unfolding always_context_def by (metis fst_conv)
            show ?thesis
            proof (cases ndebug)
              case True
              with n have "F NullPointer" by (intro null) simp
              with True show ?thesis
                unfolding c by (simp add: wp_seq socket_new_def wp_ret wp_null_wrapper)
            next
              case False
              have "lived ndebug (trace s) (heap s) (None, g') v"
                if "passed (trace s) (heap s) [PipeNew (Some (fd, g')), CtxNew None, Exited 134] v" for v
                using that False by (auto simp: lived_def passed_def)
              with False show ?thesis
                using 1(2) unfolding c by (simp add: wp_seq wp_ret) (erule passed_emit, simp)
            qed
          next
            case c: (Some c)
            have n: "(Some c = None \<and> \<not> ndebug) = False" by simp
            show ?thesis
              unfolding c n if_False wp_seq
              apply (rule passed_socket_new [OF 1(2) [unfolded c]])
               apply (simp only: wp_null_wrapper)
               apply (rule null, blast)
              apply (erule passed_bind, rule fun_upd_same)
              apply (erule start, assumption, erule start, assumption, erule start, assumption)
              apply (simp only: wp_ret)
              apply (rule client_stop_lived [OF fd])
                   apply assumption+
               apply simp
              apply (rule join, assumption)
              done
          qed
        qed
      qed
    qed
  qed
qed

section \<open>Properties\<close>

text \<open>
  C8. The life of the process, on every path. 0 is returned after the three threads were started,
  the three shutdown messages were sent in the order controller, receiver, UI, the receiver and
  the controller were joined before the last message and the UI after it, and the socket, the
  context and the pipe were closed, each once. Without a login name it returns 1 and the pipe
  stays open; when the signal handler cannot be set up it returns -1 and everything it opened is
  closed; when there is no context the assertion aborts it, unless it was compiled away. In each
  case the heap is as before. What the code does not check is a fault, and there is no other: a
  null pointer is dereferenced only if a \<open>malloc\<close> or \<open>zmq_socket\<close> can fail, or, without the
  assertion, \<open>zmq_ctx_new\<close>; a dead object is used only if \<open>pthread_create\<close> can fail.
\<close>

theorem zmq_client_run_life:
  assumes "scanf_law E" "pipe_law E" "heap_ok s"
  shows "wp (zmq_client_run E ndebug g) (\<lambda>(r, g') t. heap t = heap s \<and> (\<exists>es. trace t = trace s @ es \<and>
     (r = Some 0 \<and> g' = -1 \<and> life (milestones es) \<or>
      r = Some (-1) \<and> closed es = opened es \<or>
      r = Some 1 \<and> (\<exists>rd. milestones es = [PipeNew (Some (rd, g'))]) \<or>
      r = None \<and> \<not> ndebug \<and> (\<exists>rd. milestones es = [PipeNew (Some (rd, g')), CtxNew None, Exited 134]))))
    (\<lambda>f. f = NullPointer \<and> (\<not> malloc_law E \<or> \<not> always_socket E socket_pub \<or> ndebug \<and> \<not> always_context E) \<or>
      f = DeadPointer \<and> \<not> always_created E) s"
  by (rule wp_then [OF zmq_client_run_ok [OF assms]]) (auto simp: lived_def)

text \<open>The sample run gets to its end.\<close>

lemma wp_total: "(\<And>x t. Q x t) \<Longrightarrow> wp m Q (\<lambda>_. True) s"
  by (simp add: wp_def split: sum.split)

lemma sim_client_run:
  "wp (zmq_client_run sim_ext False (-1)) (\<lambda>(r, _) _. r = Some 0) (\<lambda>_. True) (sim_state (empty_script\<lparr>lines_in := [''bob'']\<rparr>))"
proof -
  let ?s = "sim_state (empty_script\<lparr>lines_in := [''bob'']\<rparr>)"
  have s: "wp (setup_signal_handler sim_ext (-1) (-1)) (\<lambda>(rc, _, _) t. rc = 0 \<and> world t = world ?s) (\<lambda>_. True) ?s"
    by (simp add: setup_signal_handler_def either_fails_def make_fd_nonblocking_def sigaction_def wp_simps)
  show ?thesis
    unfolding zmq_client_run_def wp_seq
    apply (rule wp_then [OF s])
    apply (clarsimp simp: wp_seq wp_printf)
    apply (rule wp_local_arrayI)
    apply (simp add: wp_ask wp_seq wp_write_at wp_emit wp_ret wp_total)
    done
qed

theorem zmq_client_run_life_witness:
  "\<exists>g t. zmq_client_run sim_ext False (-1) (sim_state (empty_script\<lparr>lines_in := [''bob'']\<rparr>)) = Inr ((Some 0, g), t) \<and>
     heap t = Map.empty \<and> life (milestones (trace t))"
proof -
  have "scanf_law sim_ext" "pipe_law sim_ext"
    by (auto simp: scanf_law_def pipe_law_def split: list.splits if_splits)
  from zmq_client_run_life [OF this, of "sim_state (empty_script\<lparr>lines_in := [''bob'']\<rparr>)" False "-1"]
  have "wp (zmq_client_run sim_ext False (-1)) (\<lambda>(r, g') t. heap t = Map.empty \<and> (r = Some 0 \<longrightarrow> life (milestones (trace t))))
      no_fault (sim_state (empty_script\<lparr>lines_in := [''bob'']\<rparr>))"
    by (auto simp: always_created_def always_socket_def elim!: wp_mono)
  with sim_client_run show ?thesis by (auto simp: wp_def split: sum.splits)
qed

text \<open>
  C29. The arguments of a thread: the block \<open>pthread_create\<close> gets holds the context and a
  terminated array with the login name, which is what the threads need to read their arguments.
\<close>

theorem start_thread_args:
  assumes "malloc_law E" "has_cstr username 0" "length (cs username) \<le> 63" "heap_ok s"
  shows "wp (start_thread E th (Some c) username) (\<lambda>p t. \<exists>a u. p = Some a \<and> heap s a = None \<and>
     heap t = (heap s)(a \<mapsto> BArgs (Some c) u) \<and> trace t = trace s @ [ThreadCreate th p] \<and>
     wp (load_args p) (\<lambda>(ctx, u') t'. t' = t \<and> ctx = Some c \<and> length u' = 64 \<and> has_cstr u' 0 \<and> cs u' = cs username) no_fault t)
   no_fault s"
proof -
  obtain ok w where m: "x_malloc E 72 (world s) = (ok, w)" by fastforce
  have a: "length (take 64 x @ replicate (64 - length x) NUL @ drop 64 u) = 64 \<and>
      has_cstr (take 64 x @ replicate (64 - length x) NUL @ drop 64 u) 0 \<and>
      cs (take 64 x @ replicate (64 - length x) NUL @ drop 64 u) = x"
    if "length u = 64" "x = cs username" for u x
    using name_array [of x u c] that assms(3) cs_nul_free [of username] by (auto simp: args_of_def)
  show ?thesis
    unfolding start_thread_def wp_seq
    apply (simp add: wp_malloc m malloc_lawD [OF assms(1) m])
    apply (rule wp_local_arrayI)
    apply (simp add: wp_store)
    apply (rule wp_cstr_wholeI [OF assms(2)])
    apply (simp add: wp_strncpy wp_store wp_emit wp_ret load_args_def wp_load wp_seq)
    using a assms(4) by auto
qed

theorem start_thread_args_witness:
  "\<exists>p t. start_thread sim_ext Thread_ui (Some 0) (''bob'' @ [NUL]) (sim_state empty_script) = Inr (p, t)"
proof -
  have "has_cstr (''bob'' @ [NUL]) 0" "length (cs (''bob'' @ [NUL])) \<le> 63"
    using cs_length [of "''bob'' @ [NUL]"] by (simp_all add: has_cstr_def)
  from start_thread_args [OF sim_malloc_law this, of "sim_state empty_script" Thread_ui 0]
  show ?thesis by (auto dest!: wp_runs)
qed

end
