(* ===== verification/System.thy ===== *)
theory System
  imports Ui_Properties Controller_Thread Receiver_Properties Chat_Client "HOL-Library.Sublist"
begin

text \<open>
  The threads together. Each thread is a sequential program whose conversation is
  known (\<open>Ui_Thread\<close>, \<open>Controller_Session\<close>); here their conversations are joined over the PAIR
  sockets between them. A joint history is any interleaving of the two, of which only the
  delivery in order is assumed.
\<close>

section \<open>What is sent and received\<close>

fun sent_by :: "nat \<Rightarrow> event \<Rightarrow> string list" where
  "sent_by h (ZSend h' d fl rc) = (if h' = h then [d] else [])"
| "sent_by h _ = []"

fun got_by :: "nat \<Rightarrow> event \<Rightarrow> (int \<times> string) list" where
  "got_by h (ZRecv h' n d) = (if h' = h then [(n, d)] else [])"
| "got_by h _ = []"

definition sends :: "nat \<Rightarrow> event list \<Rightarrow> string list" where
  "sends h es = concat (map (sent_by h) es)"

definition recvs :: "nat \<Rightarrow> event list \<Rightarrow> (int \<times> string) list" where
  "recvs h es = concat (map (got_by h) es)"

lemma sends_simps [simp]:
  "sends h [] = []" "sends h (e # es) = sent_by h e @ sends h es" "sends h (es @ fs) = sends h es @ sends h fs"
  by (simp_all add: sends_def)

lemma recvs_simps [simp]:
  "recvs h [] = []" "recvs h (e # es) = got_by h e @ recvs h es" "recvs h (es @ fs) = recvs h es @ recvs h fs"
  by (simp_all add: recvs_def)

lemma on_handle [simp]: "sends h (io_on h es) = sends h es" "recvs h (io_on h es) = recvs h es"
proof -
  have "handle_of e \<noteq> Some h \<Longrightarrow> sent_by h e = [] \<and> got_by h e = []" for e by (cases e) auto
  then show "sends h (io_on h es) = sends h es" "recvs h (io_on h es) = recvs h es"
    by (induction es) auto
qed

text \<open>
  The documented behaviour of a PAIR connection from \<open>a\<close> to \<open>b\<close> on which no call fails: at any
  time what was received is what was sent first, in order, each message cut at the buffer.
\<close>

definition in_order :: "nat \<Rightarrow> nat \<Rightarrow> event list \<Rightarrow> bool" where
  "in_order a b es \<longleftrightarrow> length (recvs b es) \<le> length (sends a es) \<and>
     (\<forall>i < length (recvs b es). \<exists>k. recvs b es ! i = (int (length (sends a es ! i)), take k (sends a es ! i)))"

lemma in_orderD: "in_order a b es \<Longrightarrow> i < length (recvs b es) \<Longrightarrow> \<exists>k. snd (recvs b es ! i) = take k (sends a es ! i)"
  unfolding in_order_def by fastforce

definition pair_law :: "nat \<Rightarrow> nat \<Rightarrow> event list \<Rightarrow> bool" where
  "pair_law a b es \<longleftrightarrow> (\<forall>ps. prefix ps es \<longrightarrow> in_order a b ps)"

lemma pair_lawD: "pair_law a b es \<Longrightarrow> in_order a b es"
  by (simp add: pair_law_def)

section \<open>Counting\<close>

lemma prefix_two:
  assumes "prefix ps (es @ [x, y])"
  shows "prefix ps es \<or> ps = es @ [x] \<or> ps = es @ [x, y]"
  using assms by (auto simp: prefix_append prefix_Cons)

lemma prompts_even: "prompts h es \<Longrightarrow> length (sends h es) = length (recvs h es)"
  by (induction rule: prompts.induct) simp_all

lemma ui_dialogue_even: "ui_dialogue h es \<Longrightarrow> length (sends h es) = length (recvs h es)"
  by (induction rule: ui_dialogue.induct) simp_all

text \<open>
  The UI waits for an answer when the last thing it did was to send a command; otherwise it has
  received as many answers as it sent commands.
\<close>

lemma prompts_count: "prompts h es \<Longrightarrow> prefix ps es \<Longrightarrow>
  length (sends h ps) = length (recvs h ps) \<or>
  (length (sends h ps) = Suc (length (recvs h ps)) \<and> (\<exists>us d rc. ps = us @ [ZSend h d 0 rc]))"
proof (induction arbitrary: ps rule: prompts.induct)
  case pr_start
  then show ?case by simp
next
  case (pr_command es x rc n d)
  from pr_command.prems have "prefix ps es \<or> ps = es @ [ZSend h x 0 rc] \<or> ps = es @ [ZSend h x 0 rc, ZRecv h n d]"
    by (rule prefix_two)
  moreover note prompts_even [OF pr_command.hyps(1)]
  ultimately show ?case using pr_command.IH by auto
qed

lemma prompts_left_count:
  assumes "prompts_left h es" "prefix ps es"
  shows "length (sends h ps) = length (recvs h ps) \<or>
    (length (sends h ps) = Suc (length (recvs h ps)) \<and> (\<exists>us d rc. ps = us @ [ZSend h d 0 rc]))"
proof (cases "prompts h es")
  case True
  then show ?thesis using assms(2) by (rule prompts_count)
next
  case False
  with assms(1) obtain es' rc where es: "es = es' @ [ZSend h CHAT_COMMAND_QUIT 0 rc]" and p: "prompts h es'"
    by (auto simp: prompts_left_def)
  note prompts_even [OF p]
  moreover have "prefix ps es' \<or> ps = es" using assms(2) unfolding es by (auto simp: prefix_append prefix_Cons)
  ultimately show ?thesis using prompts_count [OF p] es by auto
qed

text \<open>The controller answers no more than it was asked, and is at most one answer behind.\<close>

lemma ui_dialogue_count: "ui_dialogue h es \<Longrightarrow> prefix ps es \<Longrightarrow>
  length (sends h ps) \<le> length (recvs h ps) \<and> length (recvs h ps) \<le> Suc (length (sends h ps))"
proof (induction arbitrary: ps rule: ui_dialogue.induct)
  case ui_idle
  then show ?case by simp
next
  case (ui_command es n b d rc)
  from ui_command.prems have "prefix ps es \<or> ps = es @ [ZRecv h n b] \<or> ps = es @ [ZRecv h n b, ZSend h d 0 rc]"
    by (rule prefix_two)
  moreover note ui_dialogue_even [OF ui_command.hyps(1)]
  ultimately show ?case using ui_command.IH by auto
qed

lemma ui_left_count:
  assumes "ui_left h es" "prefix ps es"
  shows "length (sends h ps) \<le> length (recvs h ps) \<and> length (recvs h ps) \<le> Suc (length (sends h ps))"
proof (cases "ui_dialogue h es")
  case True
  then show ?thesis using assms(2) by (rule ui_dialogue_count)
next
  case False
  with assms(1) obtain es' n b where es: "es = es' @ [ZRecv h n b]" and p: "ui_dialogue h es'"
    by (auto simp: ui_left_def)
  note ui_dialogue_even [OF p]
  moreover have "prefix ps es' \<or> ps = es" using assms(2) unfolding es by (auto simp: prefix_append prefix_Cons)
  ultimately show ?thesis using ui_dialogue_count [OF p] es by auto
qed

text \<open>A joint history: the UI has come some way in the conversation \<open>k\<close>, the controller in \<open>c\<close>.\<close>

definition joint :: "nat \<Rightarrow> nat \<Rightarrow> event list \<Rightarrow> event list \<Rightarrow> event list \<Rightarrow> bool" where
  "joint hk hu k c es \<longleftrightarrow> prefix (io_on hk es) k \<and> prefix (io_on hu es) c \<and> pair_law hk hu es \<and> pair_law hu hk es"

text \<open>
  What one side of such a connection relies on of the other: the asking side is at most one
  question ahead of the answers it has read, and waits when it is; the answering side answers
  only what it was asked. Then the two are in lock step.
\<close>

locale rendezvous =
  fixes hk hu :: nat
    and asks answers :: "event list \<Rightarrow> bool"
  assumes asks_count: "asks k \<Longrightarrow> prefix ps k \<Longrightarrow> length (sends hk ps) = length (recvs hk ps) \<or>
      (length (sends hk ps) = Suc (length (recvs hk ps)) \<and> (\<exists>us d rc. ps = us @ [ZSend hk d 0 rc]))"
    and answers_count: "answers c \<Longrightarrow> prefix ps c \<Longrightarrow> length (sends hu ps) \<le> length (recvs hu ps)"
begin

lemma in_step:
  assumes "asks k" "answers c" "joint hk hu k c es"
  shows "length (recvs hk es) \<le> length (sends hu es)" "length (sends hu es) \<le> length (recvs hu es)"
    "length (recvs hu es) \<le> length (sends hk es)" "length (sends hk es) \<le> Suc (length (recvs hk es))"
proof -
  from assms(3) have j: "prefix (io_on hk es) k" "prefix (io_on hu es) c" "in_order hk hu es" "in_order hu hk es"
    by (auto simp: joint_def dest: pair_lawD)
  show "length (recvs hk es) \<le> length (sends hu es)" "length (recvs hu es) \<le> length (sends hk es)"
    using j(3,4) by (auto simp: in_order_def)
  show "length (sends hu es) \<le> length (recvs hu es)"
    using answers_count [OF assms(2) j(2)] by simp
  show "length (sends hk es) \<le> Suc (length (recvs hk es))"
    using asks_count [OF assms(1) j(1)] by auto
qed

lemma in_turn:
  assumes "asks k" "answers c" "joint hk hu k c es" "i < length (recvs hk es)"
  shows "\<exists>n n'. snd (recvs hu es ! i) = take n (sends hk es ! i) \<and> snd (recvs hk es ! i) = take n' (sends hu es ! i)"
proof -
  have "in_order hk hu es" "in_order hu hk es"
    using assms(3) by (auto simp: joint_def dest: pair_lawD)
  with assms(4) in_step(1,2) [OF assms(1-3)] show ?thesis
    using in_orderD [of hk hu es i] in_orderD [of hu hk es i] by fastforce
qed

text \<open>A question that stays unanswered is the last thing the asking side does.\<close>

lemma stranded:
  assumes "asks k" "answers c" "joint hk hu k c es" "length (sends hu es) < length (recvs hu es)"
  shows "\<exists>us d rc. io_on hk es = us @ [ZSend hk d 0 rc]" "length (sends hk es) = Suc (length (recvs hk es))"
proof -
  show l: "length (sends hk es) = Suc (length (recvs hk es))"
    using in_step [OF assms(1-3)] assms(4) by simp
  show "\<exists>us d rc. io_on hk es = us @ [ZSend hk d 0 rc]"
    using asks_count [OF assms(1), of "io_on hk es"] assms(3) l by (auto simp: joint_def)
qed

lemma stranded_for_ever:
  assumes "asks k" "answers c" "joint hk hu k c es" "length (sends hu es) < length (recvs hu es)"
    and j: "joint hk hu k c (es @ es')" and quiet: "io_on hu es' = []"
  shows "io_on hk es' = []"
proof (rule ccontr)
  assume m: "io_on hk es' \<noteq> []"
  have same: "length (sends hu (es @ es')) = length (sends hu es)" "length (recvs hu (es @ es')) = length (recvs hu es)"
    using on_handle [of hu es'] quiet by simp_all
  obtain e ms where e: "io_on hk es' = e # ms" using m by (cases "io_on hk es'") auto
  have "prefix (io_on hk es @ [e]) k"
    using j e by (auto simp: joint_def intro: prefix_order.trans [rotated])
  from asks_count [OF assms(1) this] have g: "got_by hk e \<noteq> []"
    using stranded(2) [OF assms(1-4)] on_handle [of hk es] by (cases e) (auto split: if_splits)
  have "length (recvs hk es') = length (got_by hk e) + length (recvs hk ms)"
    using e on_handle(2) [of hk es'] by (metis length_append recvs_simps(2))
  with g have "Suc (length (recvs hk es)) \<le> length (recvs hk (es @ es'))"
    by (cases "got_by hk e") auto
  then show False
    using in_step [OF assms(1,2) j] same in_step [OF assms(1-3)] assms(4) by simp
qed

end

interpretation pair: rendezvous hk hu "prompts_left hk" "ui_left hu" for hk hu
  by unfold_locales (simp_all add: prompts_left_count ui_left_count)

section \<open>Runs of the two loops\<close>

lemma ui_run_dialogue:
  assumes "recv_law E" "fgets_law E" "ui_at (heap s) u lg hs hk hn hl" "heap_ok s"
    and "forever n (ui_step E u) s = Inr ((), t)" "trace t = trace s @ es"
  shows "prompts_left hk (io_on hk es)"
proof -
  have "ui_inv E u (heap s) (trace s) lg hs hk hn hl s"
    unfolding ui_inv_def ui_seen_def using assms(1-3) seen_start [OF assms(4)]
    by (auto intro!: exI [of _ "\<lambda>_. []"] pr_start)
  from wp_InrD [OF ui.forever_partial [OF this] assms(5)]
  show ?thesis using assms(6) ui_atD [OF assms(3)] by (auto simp: ui_seen_def seen_def)
qed

lemma controller_run_dialogue:
  assumes "laws E" "ctl_at (heap s) c lg hs hr hc hu" "heap_ok s"
    and "forever n (controller_step E c) s = Inr ((), t)" "trace t = trace s @ es"
  shows "ui_left hu (io_on hu es)"
proof -
  have "ctl_inv E c (heap s) (trace s) lg hs hr hc hu s"
    unfolding ctl_inv_def ctl_io_def using assms(1,2) seen_start [OF assms(3)]
    by (intro conjI exI [of _ "\<lambda>_. []"]) (auto intro: req_idle ui_idle)
  from wp_InrD [OF ctl.forever_partial [OF this] assms(4)]
  show ?thesis using assms(5) ctl_atD [OF assms(2)] by (auto simp: ctl_post_def ctl_left_def seen_def)
qed

text \<open>
  C6. UI and controller run in lock step: take a run of the UI loop and a run of the controller
  loop, and any interleaving of what they did so far on the PAIR connection between them. There
  is at most one message under way: every answer the UI has read is one the controller has sent
  for a command it had received before, and the UI is at most one command ahead. The answer to
  the \<open>i\<close>th command of the UI is what the controller sent after its \<open>i\<close>th command.
\<close>

theorem lock_step:
  assumes "recv_law E" "fgets_law E" "ui_at (heap s) u lg hs hk hn hl" "heap_ok s"
    and "forever n (ui_step E u) s = Inr ((), t)" "trace t = trace s @ eu"
    and "laws E'" "ctl_at (heap s') c lg' hs' hr hc hu" "heap_ok s'"
    and "forever n' (controller_step E' c) s' = Inr ((), t')" "trace t' = trace s' @ ec"
    and "joint hk hu (io_on hk eu) (io_on hu ec) es"
  shows "length (recvs hk es) \<le> length (sends hu es) \<and> length (sends hu es) \<le> length (recvs hu es) \<and>
    length (recvs hu es) \<le> length (sends hk es) \<and> length (sends hk es) \<le> Suc (length (recvs hk es)) \<and>
    (\<forall>i < length (recvs hk es). \<exists>k k'. snd (recvs hu es ! i) = take k (sends hk es ! i) \<and>
       snd (recvs hk es ! i) = take k' (sends hu es ! i))"
  using pair.in_step [OF ui_run_dialogue [OF assms(1-6)] controller_run_dialogue [OF assms(7-11)] assms(12)]
    pair.in_turn [OF ui_run_dialogue [OF assms(1-6)] controller_run_dialogue [OF assms(7-11)] assms(12)]
  by blast

text \<open>
  The sample runs: the user types \<open>/quit\<close>, and the controller is stopped by an error of the poll.
\<close>

definition sim_typing :: script where
  "sim_typing = empty_script\<lparr>lines_in := [''/quit'' @ [CHR 0x0A]], polls := [(1, [False, False, True, False])]\<rparr>"

lemma sim_ui_run:
  "forever 1 (ui_step sim_short sim_ui) (sim_sockets sim_typing) =
     Inr ((), (sim_sockets empty_script)\<lparr>trace := [ZPoll 1 [False, False, True, False], ZSend 12 ''/quit'' 0 5, Raised SIGINT]\<rparr>)"
    (is "_ = Inr ((), ?t)")
proof -
  let ?s = "(sim_sockets (empty_script\<lparr>lines_in := [''/quit'' @ [CHR 0x0A]]\<rparr>))\<lparr>trace := [ZPoll 1 [False, False, True, False]]\<rparr>"
  have "typed (''/quit'' @ [CHR 0x0A]) = CHAT_COMMAND_QUIT"
    by (simp add: typed_def cs_def NUL_def CHAT_COMMAND_QUIT_def)
  then have "ui_input sim_short sim_ui ?s = Inr (Break, ?s\<lparr>world := empty_script, trace := trace ?s @ [ZSend 12 ''/quit'' 0 5] @
    failure_note sim_short empty_script 5 (''E: '' @ kind_name socket_pair @ ''_send for '' @ kind_name socket_pair @ '' failed: '') @
    [Raised SIGINT]\<rparr>)"
    by (intro ui_input_quit) (simp_all add: sock_at_def empty_script_def)
  then have ui: "ui_input sim_short sim_ui ?s = Inr (Break, ?t)"
    by (simp add: failure_note_def sim_sockets_def)
  have poll: "z_poll sim_short (u_items sim_ui) 100 (sim_sockets sim_typing) = Inr ((1, [False, False, True, False]), ?s)"
    by (simp add: z_poll_def run_simps ask_def emit_def sim_typing_def sim_sockets_def empty_script_def)
  have "ui_step sim_short sim_ui (sim_sockets sim_typing) = Inr (False, ?t)"
    using ui unfolding ui_step_def bnd_run poll by (simp add: run_simps readable_def)
  then show ?thesis by (simp only: One_nat_def forever.simps bnd_run sum.case prod.case if_False ret_run)
qed

lemma handle_message_ui_quit:
  assumes "sock_at s u hu" "sock_at s l lg" "lg \<noteq> hu" "length m \<le> 511" "m = CHAT_COMMAND_QUIT"
    and "x_recv E hu 511 0 (world s) = ((int (length m), m), w)"
  shows "wp (handle_message_ui E q r u name l)
    (\<lambda>r t. r = OK_ZMQ_QUIT \<and> heap t = heap s \<and> (\<exists>es. trace t = trace s @ ZRecv hu (int (length m)) m # es \<and> io_on hu es = []))
    no_fault s"
proof -
  have m: "m \<noteq> []" "cs (m @ NUL # x) = m" "(int (length m) \<le> 0) = False" for x
    using assms(5) by (simp_all add: CHAT_COMMAND_QUIT_def cs_def NUL_def)
  have buf: "(m @ drop (length m) b)[length m := NUL] = m @ NUL # drop (Suc (length m)) b" if "length b = 512" for b
    using terminated_in_place [of b 511 m] that assms(4) by simp
  have short: "length m \<le> 512" using assms(4) by simp
  have fits: "length m \<le> length b" "length m < length (m @ drop (length m) b)" if "length b = 512" for b
    using that assms(4) by simp_all
  have log: "sock_at (s\<lparr>world := w', trace := tr\<rparr>) l lg" for w' tr using assms(2) by (simp add: sock_at_def)
  show ?thesis
    unfolding handle_message_ui_def wp_seq
    apply (rule wp_local_arrayI)
    apply (simp only: wp_socket_recv [OF assms(1)] assms(6) case_prod_conv short if_True m(3) if_False wp_seq
        wp_poke nat_int of_nat_0_le_iff fits(2) simp_thms buf)
    apply (rule wp_cstr_wholeI, simp)
    apply (simp only: m(2) assms(5) [symmetric] simp_thms if_True wp_seq wp_ret)
    apply (rule wp_log_app [OF log])
    apply (use assms(3) in simp)
    done
qed

definition sim_quitting :: script where
  "sim_quitting = empty_script\<lparr>inbox := [''/quit''], polls := [(1, [False, True])]\<rparr>"

lemma sim_controller_run:
  "\<exists>t ec. forever 1 (controller_step sim_short sim_ctl) (sim_sockets sim_quitting) = Inr ((), t) \<and>
     trace t = trace (sim_sockets sim_quitting) @ ec \<and> io_on 14 ec = [ZRecv 14 5 ''/quit'']"
proof -
  have sock: "sock_at t (Some 4) 14" "sock_at t (Some 0) 10" if "heap t = heap (sim_sockets sim_quitting)" for t :: "script st"
    using that by (simp_all add: sock_at_def)
  have q: "length CHAT_COMMAND_QUIT = 5" "nul_free CHAT_COMMAND_QUIT" "CHAT_COMMAND_QUIT = ''/quit''"
    by (simp_all add: CHAT_COMMAND_QUIT_def NUL_def)
  have "wp (forever 1 (controller_step sim_short sim_ctl)) (\<lambda>_ t. io_on 14 (trace t) = [ZRecv 14 5 ''/quit'']) no_fault
    (sim_sockets sim_quitting)"
    unfolding One_nat_def forever.simps controller_step_def wp_seq sim_ctl_simps
    apply (rule wp_log_app [OF sock(2)])
     apply simp
    apply (simp add: wp_z_poll sim_quitting_def empty_script_def wp_seq readable_def wp_ret codes)
    apply (rule wp_then, rule handle_message_ui_quit [where hu = 14 and lg = 10 and m = CHAT_COMMAND_QUIT])
          apply (auto simp: sock_at_def q codes wp_ret)
    done
  then show ?thesis by (auto dest!: wp_runs)
qed

text \<open>The joint history: the quit command is sent and received.\<close>

definition sim_joint :: "event list" where
  "sim_joint = [ZSend 12 ''/quit'' 0 5, ZRecv 14 5 ''/quit'']"

lemma sim_joint:
  "joint 12 14 (io_on 12 [ZPoll 1 [False, False, True, False], ZSend 12 ''/quit'' 0 5, Raised SIGINT])
     [ZRecv 14 5 ''/quit''] sim_joint"
proof -
  have "take 5 ''/quit'' = ''/quit''" by simp
  then show ?thesis
    by (auto simp: joint_def pair_law_def in_order_def prefix_Cons sim_joint_def intro: exI [of _ 5])
qed

theorem lock_step_witness:
  "length (recvs 12 sim_joint) \<le> length (sends 14 sim_joint) \<and> length (sends 14 sim_joint) \<le> length (recvs 14 sim_joint) \<and>
   length (recvs 14 sim_joint) \<le> length (sends 12 sim_joint)"
proof -
  obtain t ec where c: "forever 1 (controller_step sim_short sim_ctl) (sim_sockets sim_quitting) = Inr ((), t)"
    "trace t = trace (sim_sockets sim_quitting) @ ec" "io_on 14 ec = [ZRecv 14 5 ''/quit'']"
    using sim_controller_run by blast
  have "joint 12 14 (io_on 12 [ZPoll 1 [False, False, True, False], ZSend 12 ''/quit'' 0 5, Raised SIGINT])
      (io_on 14 ec) sim_joint"
    unfolding c(3) by (rule sim_joint)
  from lock_step [OF sim_short_laws(1) sim_fgets sim_ui_at _ sim_ui_run _ sim_laws(1) sim_ctl_at _ c(1,2) this]
  show ?thesis by simp
qed

section \<open>The shutdown messages\<close>

text \<open>
  The message \<open>msg\<close> has arrived on the shutdown socket \<open>hs\<close>: every poll reports it, and
  \<open>zmq_recv\<close> delivers it. If it is not the first one, nothing else is to be read.
\<close>

definition announced :: "'w ext \<Rightarrow> nat \<Rightarrow> string \<Rightarrow> bool" where
  "announced E hs msg \<longleftrightarrow>
     (\<forall>items tm w. \<exists>rv w'. x_poll E items tm w = ((1, rv), w') \<and> readable rv 0 \<and>
        (msg \<noteq> CHAT_MESSAGE_KILL_CONTROLLER \<longrightarrow> (\<forall>i > 0. \<not> readable rv i))) \<and>
     (\<forall>w. \<exists>w'. x_recv E hs 63 0 w = ((int (length msg), msg), w'))"

lemma announced_recv: "announced E hs msg \<Longrightarrow> x_recv E hs 63 0 w = ((n, d), w') \<Longrightarrow> n = int (length msg) \<and> d = msg"
  unfolding announced_def by (metis Pair_inject)

lemma announced_poll:
  assumes "announced E hs msg" "seen lg H tr io s"
    and "\<And>rv t. readable rv 0 \<Longrightarrow> (msg \<noteq> CHAT_MESSAGE_KILL_CONTROLLER \<Longrightarrow> \<forall>i > 0. \<not> readable rv i) \<Longrightarrow>
      seen lg H tr io t \<Longrightarrow> Q (1, rv) t"
  shows "wp (z_poll E items tm) Q F s"
proof -
  obtain rv w' where x: "x_poll E items tm (world s) = ((1, rv), w')" "readable rv 0"
    "msg \<noteq> CHAT_MESSAGE_KILL_CONTROLLER \<longrightarrow> (\<forall>i > 0. \<not> readable rv i)"
    using assms(1) unfolding announced_def by meson
  have "seen lg H tr io (s\<lparr>world := w', trace := trace s @ [ZPoll 1 rv]\<rparr>)"
    by (rule seen_quiet [OF assms(2), where es = "[ZPoll 1 rv]"]) simp_all
  then show ?thesis using x by (simp add: wp_z_poll assms(3))
qed

lemma kill_text:
  assumes "msg \<in> {CHAT_MESSAGE_KILL_CONTROLLER, CHAT_MESSAGE_KILL_RECEIVER, CHAT_MESSAGE_KILL_UI}"
  shows "0 < int (length msg)" "cs msg = msg"
  using assms by (auto simp: CHAT_MESSAGE_KILL_CONTROLLER_def CHAT_MESSAGE_KILL_RECEIVER_def CHAT_MESSAGE_KILL_UI_def
    cs_def NUL_def)

lemma forever_left:
  assumes "wp body (\<lambda>again _. \<not> again) no_fault s"
  shows "wp (forever (Suc n) body) (\<lambda>_ _. True) no_fault s"
  unfolding forever.simps wp_seq by (rule wp_then [OF assms]) (simp add: wp_ret)

text \<open>
  C28. Of the three messages the main thread publishes (\<open>stopping\<close> in \<open>Chat_Client\<close>), the first one
  makes each of the three threads leave its loop, in the round in which it reads it, even when
  other sockets are readable; after the other two each of them goes on to its next round.
\<close>

theorem first_kill_stops_all:
  assumes "recv_law E" "msg \<in> {CHAT_MESSAGE_KILL_CONTROLLER, CHAT_MESSAGE_KILL_RECEIVER, CHAT_MESSAGE_KILL_UI}"
    and "ctl_at (heap s) c lg hs hr hc hu" "heap_ok s" "announced E hs msg"
    and "rcv_at (heap s') r lg' hs' hb' hc' hu'" "heap_ok s'" "announced E hs' msg"
    and "ui_at (heap s'') u lg'' hs'' hk hn hl" "heap_ok s''" "announced E hs'' msg"
  shows "wp (controller_step E c) (\<lambda>again _. again \<longleftrightarrow> msg \<noteq> CHAT_MESSAGE_KILL_CONTROLLER) no_fault s \<and>
    wp (receiver_step E r) (\<lambda>again _. again \<longleftrightarrow> msg \<noteq> CHAT_MESSAGE_KILL_CONTROLLER) no_fault s' \<and>
    wp (ui_step E u) (\<lambda>again _. again \<longleftrightarrow> msg \<noteq> CHAT_MESSAGE_KILL_CONTROLLER) no_fault s'' \<and>
    (msg = CHAT_MESSAGE_KILL_CONTROLLER \<longrightarrow>
       wp (forever (Suc n) (controller_step E c)) (\<lambda>_ _. True) no_fault s \<and>
       wp (forever (Suc n) (receiver_step E r)) (\<lambda>_ _. True) no_fault s' \<and>
       wp (forever (Suc n) (ui_step E u)) (\<lambda>_ _. True) no_fault s'')"
proof -
  let ?K = "CHAT_MESSAGE_KILL_CONTROLLER"
  note C = ctl_atD [OF assms(3)] and R = rcv_atD [OF assms(6)] and U = ui_atD [OF assms(9)]
  note m = kill_text [OF assms(2)]
  have stops: "(\<exists>n d w. x_recv E h 63 0 w' = ((n, d), w) \<and> P n d \<and>
      r = (if 0 < n \<and> cs d = ?K then -1 else ok)) \<Longrightarrow> announced E h msg \<Longrightarrow> 0 \<le> ok \<Longrightarrow> (r < 0) = (msg = ?K)"
    for h w' P and r ok :: int
  proof (elim exE conjE)
    fix n d w
    assume "x_recv E h 63 0 w' = ((n, d), w)" "announced E h msg" "0 \<le> ok"
      and r: "r = (if 0 < n \<and> cs d = ?K then -1 else ok)"
    moreover from this have "n = int (length msg)" "d = msg" by (blast dest: announced_recv)+
    ultimately show "(r < 0) = (msg = ?K)" using m by simp
  qed
  have c: "wp (controller_step E c) (\<lambda>again _. again \<longleftrightarrow> msg \<noteq> ?K) no_fault s"
    unfolding controller_step_def wp_seq
    apply (rule seen_log [OF seen_start [OF assms(4)] C(1)], erule announced_poll [OF assms(5)])
    apply (simp only: case_prod_conv not_one_less_zero if_False if_True wp_seq)
    apply (rule wp_then [OF handle_shutdown_message_ok [OF assms(1) C(2,1) C(6) [symmetric]]], assumption)
    apply (drule stops [OF _ assms(5)])
    by (cases "msg = ?K"; simp add: codes wp_ret)+
  have r: "wp (receiver_step E r) (\<lambda>again _. again \<longleftrightarrow> msg \<noteq> ?K) no_fault s'"
    unfolding receiver_step_def log_app_receiver_eq wp_seq
    apply (rule seen_log [OF seen_start [OF assms(7)] R(1)], erule announced_poll [OF assms(8)])
    apply (simp only: case_prod_conv not_one_less_zero if_False if_True wp_seq)
    apply (rule wp_then [OF handle_shutdown_message_receiver_ok [OF assms(1) R(2,1,6)]], assumption)
    apply (drule stops [OF _ assms(8)])
    by (cases "msg = ?K"; simp add: wp_seq wp_ret only_if_def)+
  have u: "wp (ui_step E u) (\<lambda>again _. again \<longleftrightarrow> msg \<noteq> ?K) no_fault s''"
    unfolding ui_step_def wp_seq
    apply (rule announced_poll [OF assms(11) seen_start [OF assms(10)]])
    apply (simp only: case_prod_conv not_one_less_zero if_False if_True wp_seq)
    apply (rule wp_then [OF handle_shutdown_message_ui_ok [OF assms(1) U(1,5)]], assumption)
    apply (drule stops [OF _ assms(11)])
    by (cases "msg = ?K"; simp add: wp_seq wp_ret only_if_def)+
  have "msg = ?K \<Longrightarrow> wp body (\<lambda>again _. again \<longleftrightarrow> msg \<noteq> ?K) no_fault t \<Longrightarrow> wp (forever (Suc n) body) (\<lambda>_ _. True) no_fault t"
    for body and t :: "'a st"
    by (rule forever_left) simp
  with c r u show ?thesis by blast
qed

text \<open>The sample environment: the first message is always there.\<close>

definition sim_killed :: "script ext" where
  "sim_killed = sim_ext\<lparr>
     x_recv := (\<lambda>h n fl w. let m = take n CHAT_MESSAGE_KILL_CONTROLLER in ((int (length m), m), w)),
     x_poll := (\<lambda>items tm w. ((1, [True, True, True, True]), w))\<rparr>"

lemma sim_killed_laws: "recv_law sim_killed" "announced sim_killed hs CHAT_MESSAGE_KILL_CONTROLLER"
proof -
  have "\<exists>m'. min (length m) n = length m' \<and> take n m = take n m'" for m :: string and n
    by (rule exI [of _ "take n m"]) (simp add: min.commute)
  then show "recv_law sim_killed" by (auto simp: sim_killed_def recv_law_def Let_def)
  show "announced sim_killed hs CHAT_MESSAGE_KILL_CONTROLLER"
    by (simp add: announced_def sim_killed_def Let_def readable_def CHAT_MESSAGE_KILL_CONTROLLER_def)
qed

theorem first_kill_stops_all_witness:
  "(\<exists>t. forever 1 (controller_step sim_killed sim_ctl) (sim_sockets empty_script) = Inr ((), t)) \<and>
   (\<exists>t. forever 1 (receiver_step sim_killed sim_rcv) (sim_sockets empty_script) = Inr ((), t)) \<and>
   (\<exists>t. forever 1 (ui_step sim_killed sim_ui) (sim_sockets empty_script) = Inr ((), t))"
  using first_kill_stops_all [OF sim_killed_laws(1) _ sim_ctl_at [of empty_script] _ sim_killed_laws(2)
      sim_rcv_at [of empty_script] _ sim_killed_laws(2) sim_ui_at [of empty_script] _ sim_killed_laws(2), where n = 0]
  by (auto simp del: forever.simps dest!: wp_runs)

end
