(* ===== verification/Stranded.thy ===== *)
theory Stranded
  imports System Dispatch
begin

text \<open>
  A command that is left without an answer: the UI then waits on the command socket, and does
  nothing on any other of its sockets, the one for shutdown included. This needs the order of
  the events on all sockets of the UI, which the loop keeps as a further invariant.
\<close>

section \<open>The conversation on all sockets of the UI\<close>

definition on_any :: "nat set \<Rightarrow> event list \<Rightarrow> event list" where
  "on_any A es = filter (\<lambda>e. \<exists>h \<in> A. handle_of e = Some h) es"

lemma on_any_simps [simp]:
  "on_any A [] = []" "on_any A (es @ fs) = on_any A es @ on_any A fs"
  by (simp_all add: on_any_def)

lemma io_on_any [simp]: "h \<in> A \<Longrightarrow> io_on h (on_any A es) = io_on h es"
  by (auto simp: on_any_def io_on_def intro!: filter_cong)

lemma on_any_one:
  assumes "k \<in> A" "\<And>h. h \<in> A \<Longrightarrow> h \<noteq> k \<Longrightarrow> io_on h es = []"
  shows "on_any A es = io_on k es"
proof -
  have "handle_of e = Some k" if "e \<in> set es" "h \<in> A" "handle_of e = Some h" for e h
    using that assms(2) [of h] by (auto simp: io_on_def filter_empty_conv)
  then show ?thesis using assms(1) unfolding on_any_def io_on_def by (intro filter_cong) auto
qed

text \<open>
  What the UI does on its sockets: it receives on the three it only reads, and a command is
  followed at once by the receive of its answer. \<open>/quit\<close> may come last.
\<close>

inductive converses :: "nat set \<Rightarrow> nat \<Rightarrow> event list \<Rightarrow> bool" for B hk where
  cv_start: "converses B hk []"
| cv_read: "converses B hk es \<Longrightarrow> h \<in> B \<Longrightarrow> converses B hk (es @ [ZRecv h n d])"
| cv_command: "converses B hk es \<Longrightarrow> x \<noteq> CHAT_COMMAND_QUIT \<Longrightarrow>
    converses B hk (es @ [ZSend hk x 0 rc, ZRecv hk n d])"

definition converses_left :: "nat set \<Rightarrow> nat \<Rightarrow> event list \<Rightarrow> bool" where
  "converses_left B hk es \<longleftrightarrow> converses B hk es \<or>
     (\<exists>es' rc. es = es' @ [ZSend hk CHAT_COMMAND_QUIT 0 rc] \<and> converses B hk es')"

text \<open>In the middle of such a conversation, a command without its answer comes last.\<close>

lemma converses_even: "converses B hk es \<Longrightarrow> hk \<notin> B \<Longrightarrow> length (sends hk es) = length (recvs hk es)"
  by (induction rule: converses.induct) auto

lemma converses_waits:
  "converses B hk es \<Longrightarrow> hk \<notin> B \<Longrightarrow> prefix ps es \<Longrightarrow> length (sends hk ps) = length (recvs hk ps) \<or>
   (\<exists>us d rc n x rest. d \<noteq> CHAT_COMMAND_QUIT \<and> ps = us @ [ZSend hk d 0 rc] \<and>
      es = us @ ZSend hk d 0 rc # ZRecv hk n x # rest)"
proof (induction arbitrary: ps rule: converses.induct)
  case cv_start
  then show ?case by simp
next
  case (cv_read es h n d)
  from cv_read.prems(2) have "prefix ps es \<or> ps = es @ [ZRecv h n d]"
    by (auto simp: prefix_append prefix_Cons)
  then show ?case
  proof
    assume "prefix ps es"
    with cv_read.IH [OF cv_read.prems(1)] show ?thesis by fastforce
  qed (use cv_read converses_even [OF cv_read.hyps(1)] in auto)
next
  case (cv_command es x rc n d)
  from cv_command.prems(2) have "prefix ps es \<or> ps = es @ [ZSend hk x 0 rc] \<or> ps = es @ [ZSend hk x 0 rc, ZRecv hk n d]"
    by (rule prefix_two)
  then show ?case
  proof (elim disjE)
    assume "prefix ps es"
    with cv_command.IH [OF cv_command.prems(1)] show ?thesis by fastforce
  qed (use cv_command converses_even [OF cv_command.hyps(1)] in auto)
qed

lemma converses_left_waits:
  assumes "converses_left B hk es" "hk \<notin> B" "prefix ps es" "length (sends hk ps) \<noteq> length (recvs hk ps)"
    and "\<And>rc. ZSend hk CHAT_COMMAND_QUIT 0 rc \<notin> set ps"
  shows "\<exists>us d rc n x rest. d \<noteq> CHAT_COMMAND_QUIT \<and> ps = us @ [ZSend hk d 0 rc] \<and>
    es = us @ ZSend hk d 0 rc # ZRecv hk n x # rest"
proof (cases "converses B hk es")
  case True
  from converses_waits [OF this assms(2,3)] assms(4) show ?thesis by blast
next
  case False
  with assms(1) obtain es' rc where es: "es = es' @ [ZSend hk CHAT_COMMAND_QUIT 0 rc]" "converses B hk es'"
    by (auto simp: converses_left_def)
  have "prefix ps es'" using assms(3) assms(5) [of rc] unfolding es(1) by (auto simp: prefix_append prefix_Cons)
  from converses_waits [OF es(2) assms(2) this] assms(4) es(1) show ?thesis by fastforce
qed

section \<open>The invariant of the loop\<close>

definition ui_talk where
  "ui_talk C H tr A t \<longleftrightarrow> heap_ok t \<and> heap t = H \<and> (\<exists>es. trace t = tr @ es \<and> C (on_any A es))"

lemma ui_talk_seen: "ui_talk C H tr A s \<Longrightarrow> seen lg H (trace s) (\<lambda>_. []) s"
  by (auto simp: ui_talk_def seen_def)

lemma ui_talk_step:
  assumes "ui_talk C H tr A s" "seen lg H (trace s) ((\<lambda>_. [])(k := [] @ new)) t" "k \<in> A" "lg \<notin> A"
    and "\<And>es. C es \<Longrightarrow> D (es @ new)"
  shows "ui_talk D H tr A t"
proof -
  from assms(1,2) obtain es fs where s: "trace s = tr @ es" "C (on_any A es)" and t: "heap_ok t" "heap t = H"
    "trace t = trace s @ fs" "\<And>h. h \<noteq> lg \<Longrightarrow> io_on h fs = (if h = k then new else [])"
    unfolding ui_talk_def seen_def by (auto simp: fun_upd_def)
  have "io_on h fs = []" if "h \<in> A" "h \<noteq> k" for h using t(4) [of h] that assms(4) by auto
  then have "on_any A fs = io_on k fs" by (rule on_any_one [OF assms(3)])
  moreover have "io_on k fs = new" using t(4) [of k] assms(3,4) by auto
  ultimately show ?thesis
    unfolding ui_talk_def using s t(1-3) assms(5) by (intro conjI exI [of _ "es @ fs"]) simp_all
qed

lemma ui_talk_quiet:
  assumes "ui_talk C H tr A s" "seen lg H (trace s) (\<lambda>_. []) t" "k \<in> A" "lg \<notin> A"
  shows "ui_talk C H tr A t"
  using ui_talk_step [OF assms(1), of lg k "[]" t C] assms(2-4) by (simp add: fun_upd_idem)

lemma ui_step_talk:
  fixes s :: "'w st"
  assumes E: "recv_law E" "fgets_law E" and u: "ui_at H u lg hs hk hn hl"
    and s: "ui_talk (converses {hs, hn, hl} hk) H tr {hs, hk, hn, hl} s"
    and oob: "\<not> fits E 1023 \<or> \<not> fits E 2047 \<Longrightarrow> F OutOfBounds"
  shows "wp (ui_step E u) (\<lambda>again. if again then ui_talk (converses {hs, hn, hl} hk) H tr {hs, hk, hn, hl}
      else ui_talk (converses_left {hs, hn, hl} hk) H tr {hs, hk, hn, hl}) F s"
proof -
  let ?C = "converses {hs, hn, hl} hk" and ?A = "{hs, hk, hn, hl}"
  note S = ui_atD [OF u]
  have lg: "lg \<notin> ?A" using S by auto
  have step: "ui_talk D H tr ?A v"
    if "ui_talk ?C H tr ?A t" "seen lg H (trace t) ((\<lambda>_. [])(k := [] @ new)) v" "k \<in> ?A" "\<And>es. ?C es \<Longrightarrow> D (es @ new)"
    for D k new v and t :: "'w st"
    using that(1-3) lg that(4) by (rule ui_talk_step)
  have quiet: "ui_talk ?C H tr ?A v" if "ui_talk ?C H tr ?A t" "seen lg H (trace t) (\<lambda>_. []) v" for v and t :: "'w st"
    by (rule ui_talk_quiet [OF that, of hs]) (use lg in simp_all)
  show ?thesis
  proof (rule ui_step_rule [where I = "ui_talk ?C H tr ?A", OF s], goal_cases)
    case (1 t)
    then show ?case unfolding ui_talk_def converses_left_def by blast
  next
    case (2 items tm t)
    show ?case by (rule seen_poll [OF ui_talk_seen [OF 2]]) (rule quiet [OF 2])
  next
    case (3 m t)
    show ?case by (rule seen_log_print [OF ui_talk_seen [OF 3]]) (rule quiet [OF 3])
  next
    case (4 t)
    show ?case
      by (rule wp_then [OF handle_shutdown_message_ui_ok [OF E(1) S(1,5) ui_talk_seen [OF 4]]], elim exE conjE, erule step [OF 4])
        (auto intro: cv_read)
  next
    case (5 t)
    show ?case
      by (rule wp_then [OF ui_notification_ok [OF E(1) u ui_talk_seen [OF 5]]], rule oob, simp, elim exE conjE, erule step [OF 5])
        (auto intro: cv_read)
  next
    case (6 t)
    show ?case
    proof (rule wp_then [OF ui_input_ok [OF E u ui_talk_seen [OF 6]]], rule oob, simp, elim exE conjE)
      fix out es and v :: "'w st"
      assume e: "entered hk (fst (x_fgets E 511 (world t))) out es"
        and v: "seen lg H (trace t) ((\<lambda>_. [])(hk := [] @ es)) v"
      have "(if out = Break then converses_left {hs, hn, hl} hk else ?C) (fs @ es)" if "?C fs" for fs
        using e that by (auto simp: entered_def converses_left_def intro: cv_command split: option.splits if_splits)
      then have "ui_talk (if out = Break then converses_left {hs, hn, hl} hk else ?C) H tr ?A v"
        by (intro step [OF 6 v]) simp_all
      then show "(if out = Break then ui_talk (converses_left {hs, hn, hl} hk) H tr ?A else ui_talk ?C H tr ?A) v"
        by (simp split: if_splits)
    qed
  next
    case (7 t)
    show ?case
      by (rule wp_then [OF ui_log_ok [OF E(1) u ui_talk_seen [OF 7]]], rule oob, simp, elim exE conjE, erule step [OF 7])
        (auto intro: cv_read)
  qed
qed

interpretation talk: loop_body "ui_step E u"
  "\<lambda>s. recv_law E \<and> fgets_law E \<and> ui_at H u lg hs hk hn hl \<and> ui_talk (converses {hs, hn, hl} hk) H tr {hs, hk, hn, hl} s"
  "ui_talk (converses_left {hs, hn, hl} hk) H tr {hs, hk, hn, hl}"
  "\<lambda>f. f = OutOfBounds \<and> (\<not> fits E 1023 \<or> \<not> fits E 2047)"
  for E :: "'w ext" and u H tr lg hs hk hn hl
proof (unfold_locales, elim conjE)
  fix s :: "'w st"
  assume a: "recv_law E" "fgets_law E" "ui_at H u lg hs hk hn hl"
    and s: "ui_talk (converses {hs, hn, hl} hk) H tr {hs, hk, hn, hl} s"
  show "wp (ui_step E u) (\<lambda>again t. if again then recv_law E \<and> fgets_law E \<and> ui_at H u lg hs hk hn hl \<and>
        ui_talk (converses {hs, hn, hl} hk) H tr {hs, hk, hn, hl} t
      else ui_talk (converses_left {hs, hn, hl} hk) H tr {hs, hk, hn, hl} t)
    (\<lambda>f. f = OutOfBounds \<and> (\<not> fits E 1023 \<or> \<not> fits E 2047)) s"
    by (rule wp_then [OF ui_step_talk [OF a s]]) (use a in \<open>auto split: if_splits\<close>)
qed

lemma ui_run_converses:
  assumes "recv_law E" "fgets_law E" "ui_at (heap s) u lg hs hk hn hl" "heap_ok s"
    and "forever n (ui_step E u) s = Inr ((), t)" "trace t = trace s @ es"
  shows "converses_left {hs, hn, hl} hk (on_any {hs, hk, hn, hl} es)"
proof -
  have "recv_law E \<and> fgets_law E \<and> ui_at (heap s) u lg hs hk hn hl \<and>
      ui_talk (converses {hs, hn, hl} hk) (heap s) (trace s) {hs, hk, hn, hl} s"
    using assms(1-4) by (auto simp: ui_talk_def intro: cv_start)
  from wp_InrD [OF talk.forever_partial [OF this] assms(5)]
  show ?thesis using assms(6) by (auto simp: ui_talk_def)
qed

section \<open>Sample runs\<close>

text \<open>
  The user types \<open>/join go\<close>, the connection to the server is down: the controller receives the
  command and leaves its loop. The sockets of the UI have the handles 21 to 24.
\<close>

definition sim_lines :: script where
  "sim_lines = empty_script\<lparr>lines_in := [''/join go'' @ [CHR 0x0A]], inbox := [''ok''],
     polls := [(1, [False, False, True])]\<rparr>"

definition sim_terminal :: "script st" where
  "sim_terminal = \<lparr>world = sim_lines, heap = (\<lambda>a. if a < 5 then Some (BSock (20 + a)) else None),
     fresh = 5, trace = []\<rparr>"

lemma sim_terminal_at:
  "ui_at (heap sim_terminal) sim_ui 20 21 22 23 24" "heap_ok sim_terminal" "trace sim_terminal = []"
  by (simp_all add: ui_at_def sock_in_def sim_terminal_def heap_ok_def)

text \<open>What the UI has done once the command was sent and an answer received.\<close>

definition sim_asked :: "script st \<Rightarrow> bool" where
  "sim_asked t \<longleftrightarrow> (\<exists>rc m d. seen 20 (heap sim_terminal) []
     ((\<lambda>_. [])(22 := [ZSend 22 ''/join go'' 0 rc, ZRecv 22 m d])) t)"

lemma sim_ui_command: "wp (ui_step sim_short sim_ui) (\<lambda>again t. again \<and> polls (world t) = [] \<and> sim_asked t) no_fault sim_terminal"
proof -
  let ?s = "sim_terminal\<lparr>world := sim_lines\<lparr>polls := []\<rparr>, trace := [ZPoll 1 [False, False, True]]\<rparr>"
  have s: "seen 20 (heap sim_terminal) [] (\<lambda>_. []) ?s"
    by (simp add: seen_def heap_ok_def sim_terminal_def)
  have line: "fst (x_fgets sim_short 511 (world ?s)) = Some (''/join go'' @ [CHR 0x0A])"
    by (simp add: sim_lines_def)
  have "typed (''/join go'' @ [CHR 0x0A]) = ''/join go''" by (simp add: typed_def cs_def NUL_def)
  note t = this [simplified]
  have poll: "z_poll sim_short items tm sim_terminal = Inr ((1, [False, False, True]), ?s)" for items tm
    by (simp add: z_poll_def run_simps ask_def emit_def sim_terminal_def sim_lines_def)
  have "wp (ui_input sim_short sim_ui) (\<lambda>out t. out = Next \<and> polls (world t) = [] \<and> sim_asked t) no_fault ?s"
  proof (rule wp_then [OF tame_wp [OF tame_ui(2) [OF sim_steady]
        ui_input_ok [OF sim_short_laws(1) sim_fgets sim_terminal_at(1) s, unfolded line]]])
    fix out and u :: "script st"
    assume "(\<exists>es. entered 22 (Some (''/join go'' @ [CHR 0x0A])) out es \<and>
        seen 20 (heap sim_terminal) [] ((\<lambda>_. [])(22 := [] @ es)) u) \<and> length (polls (world u)) \<le> length (polls (world ?s))"
    then show "out = Next \<and> polls (world u) = [] \<and> sim_asked u"
      by (auto simp: entered_def t sim_asked_def CHAT_COMMAND_QUIT_def)
  qed simp
  then show ?thesis
    unfolding ui_step_def wp_bnd [of "z_poll sim_short (u_items sim_ui) 100"]
    by (simp add: poll wp_def [of "z_poll sim_short (u_items sim_ui) 100"] readable_def wp_seq wp_ret only_if_def)
      (erule wp_then, simp add: wp_seq wp_ret)
qed

lemma sim_ui_over:
  assumes "polls (world t) = []" "sim_asked t"
  shows "wp (ui_step sim_short sim_ui) (\<lambda>again t. \<not> again \<and> sim_asked t) no_fault t"
proof -
  let ?t = "t\<lparr>world := world t, trace := trace t @ [ZPoll (-1) []]\<rparr>"
  from assms(2) obtain rc m d where
    t: "seen 20 (heap sim_terminal) [] ((\<lambda>_. [])(22 := [ZSend 22 ''/join go'' 0 rc, ZRecv 22 m d])) t"
    by (auto simp: sim_asked_def)
  have "seen 20 (heap sim_terminal) [] ((\<lambda>_. [])(22 := [ZSend 22 ''/join go'' 0 rc, ZRecv 22 m d])) ?t"
    by (rule seen_quiet [OF t, where es = "[ZPoll (-1) []]"]) simp_all
  then have "wp (log_app_print sim_short x) (\<lambda>_. sim_asked) no_fault ?t" for x
    by (rule seen_log_print) (auto simp: sim_asked_def)
  then show ?thesis
    unfolding ui_step_def wp_seq
    using assms(1) by (simp add: wp_z_poll wp_seq wp_gets wp_ret) 
qed

lemma sim_terminal_run:
  "\<exists>t rc m d. forever 2 (ui_step sim_short sim_ui) sim_terminal = Inr ((), t) \<and>
     on_any {21, 22, 23, 24} (trace t) = [ZSend 22 ''/join go'' 0 rc, ZRecv 22 m d]"
proof -
  have "wp (forever 2 (ui_step sim_short sim_ui)) (\<lambda>_. sim_asked) no_fault sim_terminal"
    unfolding numeral_2_eq_2 forever.simps wp_seq
    by (rule wp_then [OF sim_ui_command]) (auto simp: wp_seq wp_ret intro: wp_then [OF sim_ui_over])
  then obtain t rc m d where t: "forever 2 (ui_step sim_short sim_ui) sim_terminal = Inr ((), t)"
    and "seen 20 (heap sim_terminal) [] ((\<lambda>_. [])(22 := [ZSend 22 ''/join go'' 0 rc, ZRecv 22 m d])) t"
    by (auto dest!: wp_runs simp: sim_asked_def)
  then have "\<And>h. h \<noteq> 20 \<Longrightarrow> io_on h (trace t) = (if h = 22 then [ZSend 22 ''/join go'' 0 rc, ZRecv 22 m d] else [])"
    by (auto simp: seen_def fun_upd_def)
  then have "on_any {21, 22, 23, 24} (trace t) = [ZSend 22 ''/join go'' 0 rc, ZRecv 22 m d]"
    by (subst on_any_one [where k = 22]) auto
  with t show ?thesis by blast
qed

text \<open>The environment of the controller: nothing can be sent to the server.\<close>

definition sim_mute :: "script ext" where
  "sim_mute = (sim_server ''/join go'' [] \<lparr>message_id = [], payload = PAYLOAD_NOT_SET\<rparr>)\<lparr>
     x_send := (\<lambda>h d fl w. (if h = 12 then -1 else int (length d), w)),
     x_poll := (\<lambda>items tm w. ((1, [False, True]), w))\<rparr>"

lemma sim_mute_laws: "laws sim_mute" "malloc_law sim_mute" "fits sim_mute n"
proof -
  note x = sim_server_laws [of "''/join go''" "[]" "\<lparr>message_id = [], payload = PAYLOAD_NOT_SET\<rparr>"]
  show "laws sim_mute" "malloc_law sim_mute" "fits sim_mute n"
    using x by (simp_all add: sim_mute_def laws_def recv_law_def pack_law_def malloc_law_def fits_def)
qed

lemma sim_mute_simps:
  "x_recv sim_mute 14 511 0 w = ((8, ''/join go''), w)"
  "x_poll sim_mute items tm w = ((1, [False, True]), w)"
  by (simp_all add: sim_mute_def)

lemma sim_mute_silent: "exchange sim_mute 12 env es res \<Longrightarrow> res = None"
  by (auto simp: exchange_def sim_mute_def split: if_splits)

lemma sim_mute_run:
  "\<exists>t. forever 1 (controller_step sim_mute sim_ctl) (sim_sockets empty_script) = Inr ((), t) \<and>
     io_on 14 (trace t) = [ZRecv 14 8 ''/join go'']"
proof -
  let ?H = "heap (sim_sockets empty_script)"
  have c: "ctl_at ?H sim_ctl 10 11 12 13 14" by simp
  have cmd: "command_ok (Join ''go'')" "nul_free (command_text (Join ''go''))" "length (command_text (Join ''go'')) \<le> 511"
    by (simp_all add: NUL_def)
  have recv: "x_recv sim_mute 14 511 0 w = ((int (length (command_text (Join ''go''))), command_text (Join ''go'')), w)" for w
    by (simp add: sim_mute_simps)
  have heard: "wp (handle_message_ui sim_mute (c_req sim_ctl) (c_receiver sim_ctl) (c_ui sim_ctl) (c_username sim_ctl) (c_logs sim_ctl))
      (\<lambda>r t. r < 0 \<and> io_on 14 (trace t) = [ZRecv 14 8 ''/join go'']) no_fault t"
    if t: "seen 10 ?H [] (\<lambda>_. []) t" for t
    by (rule wp_then [OF wp_mono [OF handle_message_ui_obeyed [OF sim_mute_laws(1,3) c t cmd recv]]])
      (auto simp: sim_mute_laws obeyed_def asked_def codes dest!: sim_mute_silent seenD)
  have poll: "seen 10 ?H [] (\<lambda>_. []) (t\<lparr>trace := trace t @ [ZPoll 1 [False, True]]\<rparr>)"
    if "seen 10 ?H [] (\<lambda>_. []) t" for t :: "script st"
    by (rule seen_quiet [OF that, where es = "[ZPoll 1 [False, True]]"]) simp_all
  have s: "seen 10 ?H [] (\<lambda>_. []) (sim_sockets empty_script)" by (simp add: seen_def)
  have "wp (forever 1 (controller_step sim_mute sim_ctl)) (\<lambda>_ t. io_on 14 (trace t) = [ZRecv 14 8 ''/join go''])
      no_fault (sim_sockets empty_script)"
    unfolding One_nat_def forever.simps controller_step_def wp_seq
    by (rule seen_log [OF s ctl_atD(1) [OF c]], drule heard [OF poll])
      (simp add: wp_z_poll sim_mute_simps readable_def wp_seq wp_ret codes, erule wp_then, simp add: wp_ret)
  then show ?thesis by (auto dest!: wp_runs)
qed

section \<open>Property\<close>

text \<open>
  A joint history of the two loops: \<open>eu\<close> is what the UI does when every one of its calls returns,
  \<open>ec\<close> what the controller does; in \<open>es\<close> the UI has come some way in \<open>eu\<close> on all its sockets, the
  controller some way in \<open>ec\<close> on the connection, and that delivers in order. A call of the UI that
  never returns is one whose event never comes.
\<close>

definition history :: "nat set \<Rightarrow> nat \<Rightarrow> nat \<Rightarrow> event list \<Rightarrow> event list \<Rightarrow> event list \<Rightarrow> bool" where
  "history A hk hu eu ec es \<longleftrightarrow> prefix (on_any A es) (on_any A eu) \<and> joint hk hu (io_on hk eu) (io_on hu ec) es"

text \<open>
  C7. A command that is left without an answer strands the UI: when the controller's loop is over
  and it has received one command more than it has answered (so it ends when an exchange with
  the server fails), and the UI has not sent \<open>/quit\<close>, then the last thing the UI did is to send
  a command; the next call in its run is the \<open>zmq_recv\<close> of the answer, and it never returns: in
  no continuation does anything happen on any of the four sockets of the UI, so the shutdown
  message, too, is never read.
\<close>

theorem unanswered_command_strands_ui:
  assumes "recv_law E" "fgets_law E" "ui_at (heap s) u lg hs hk hn hl" "heap_ok s"
    and "forever n (ui_step E u) s = Inr ((), t)" "trace t = trace s @ eu"
    and "laws E'" "ctl_at (heap s') c lg' hs' hr hc hu" "heap_ok s'"
    and "forever n' (controller_step E' c) s' = Inr ((), t')" "trace t' = trace s' @ ec"
    and "history {hs, hk, hn, hl} hk hu eu ec es" "io_on hu es = io_on hu ec"
    and "length (sends hu ec) < length (recvs hu ec)" "\<forall>rc. ZSend hk CHAT_COMMAND_QUIT 0 rc \<notin> set es"
  shows "\<exists>us d rc m x rest. d \<noteq> CHAT_COMMAND_QUIT \<and>
    on_any {hs, hk, hn, hl} eu = us @ ZSend hk d 0 rc # ZRecv hk m x # rest \<and>
    on_any {hs, hk, hn, hl} es = us @ [ZSend hk d 0 rc] \<and>
    (\<forall>es'. history {hs, hk, hn, hl} hk hu eu ec (es @ es') \<longrightarrow> on_any {hs, hk, hn, hl} es' = [])"
proof -
  let ?A = "{hs, hk, hn, hl}"
  note k = ui_run_dialogue [OF assms(1-6)] and c = controller_run_dialogue [OF assms(7-11)]
  have j: "joint hk hu (io_on hk eu) (io_on hu ec) es" and p: "prefix (on_any ?A es) (on_any ?A eu)"
    using assms(12) by (simp_all add: history_def)
  have less: "length (sends hu es) < length (recvs hu es)"
    using assms(13,14) on_handle [of hu es] on_handle [of hu ec] by metis
  have hk: "hk \<notin> {hs, hn, hl}" using ui_atD [OF assms(3)] by auto
  have same: "sends hk (on_any ?A es) = sends hk es" "recvs hk (on_any ?A es) = recvs hk es"
    using on_handle [of hk es] on_handle [of hk "on_any ?A es"] by simp_all
  have "length (sends hk (on_any ?A es)) \<noteq> length (recvs hk (on_any ?A es))"
    using pair.stranded(2) [OF k c j less] same by simp
  moreover have "ZSend hk CHAT_COMMAND_QUIT 0 rc \<notin> set (on_any ?A es)" for rc
    using assms(15) by (simp add: on_any_def)
  ultimately obtain us d rc m x rest where d: "d \<noteq> CHAT_COMMAND_QUIT"
    and eu: "on_any ?A eu = us @ ZSend hk d 0 rc # ZRecv hk m x # rest" and es: "on_any ?A es = us @ [ZSend hk d 0 rc]"
    using converses_left_waits [OF ui_run_converses [OF assms(1-6)] hk p] by blast
  have "on_any ?A es' = []" if h: "history ?A hk hu eu ec (es @ es')" for es'
  proof (rule ccontr)
    assume ne: "on_any ?A es' \<noteq> []"
    from h have "prefix (on_any ?A es @ on_any ?A es') (on_any ?A eu)" and j': "joint hk hu (io_on hk eu) (io_on hu ec) (es @ es')"
      by (simp_all add: history_def)
    then have "prefix (on_any ?A es') (ZRecv hk m x # rest)" unfolding es eu by simp
    with ne obtain zs where "on_any ?A es' = ZRecv hk m x # zs" by (cases "on_any ?A es'") auto
    then have "io_on hk (on_any ?A es') \<noteq> []" by simp
    moreover have "io_on hk es' = []"
    proof (rule pair.stranded_for_ever [OF k c j less j'])
      show "io_on hu es' = []" using j' assms(13) by (simp add: joint_def)
    qed
    ultimately show False by simp
  qed
  with d eu es show ?thesis by blast
qed

theorem unanswered_command_strands_ui_witness:
  "\<exists>eu ec rc m x rest. on_any {21, 22, 23, 24} eu = ZSend 22 ''/join go'' 0 rc # ZRecv 22 m x # rest \<and>
     (\<forall>es'. history {21, 22, 23, 24} 22 14 eu ec (ZSend 22 ''/join go'' 0 rc # ZRecv 14 8 ''/join go'' # es') \<longrightarrow>
        on_any {21, 22, 23, 24} es' = [])"
proof -
  obtain t rc m d where t: "forever 2 (ui_step sim_short sim_ui) sim_terminal = Inr ((), t)"
    and eu: "on_any {21, 22, 23, 24} (trace t) = [ZSend 22 ''/join go'' 0 rc, ZRecv 22 m d]"
    using sim_terminal_run by blast
  obtain t' where t': "forever 1 (controller_step sim_mute sim_ctl) (sim_sockets empty_script) = Inr ((), t')"
    and ec: "io_on 14 (trace t') = [ZRecv 14 8 ''/join go'']"
    using sim_mute_run by blast
  let ?es = "[ZSend 22 ''/join go'' 0 rc, ZRecv 14 8 ''/join go'']"
  have hk: "io_on 22 (trace t) = [ZSend 22 ''/join go'' 0 rc, ZRecv 22 m d]"
    using io_on_any [of 22 "{21, 22, 23, 24}" "trace t"] eu by simp
  have h: "history {21, 22, 23, 24} 22 14 (trace t) (trace t') ?es"
    unfolding history_def eu hk ec
    by (auto simp: joint_def pair_law_def in_order_def prefix_Cons on_any_def intro: exI [of _ 8])
  have es: "on_any {21, 22, 23, 24} ?es = [ZSend 22 ''/join go'' 0 rc]" "io_on 14 ?es = io_on 14 (trace t')"
    "\<forall>rc. ZSend 22 CHAT_COMMAND_QUIT 0 rc \<notin> set ?es"
    by (simp_all add: ec on_any_def CHAT_COMMAND_QUIT_def)
  have "length (sends 14 (trace t')) < length (recvs 14 (trace t'))"
    using on_handle [of 14 "trace t'", symmetric] by (simp add: ec)
  from unanswered_command_strands_ui [OF sim_short_laws(1) sim_fgets sim_terminal_at(1,2) t _ sim_mute_laws(1) sim_ctl_at _ t' _ h es(2) this es(3)]
  obtain us e rc' k x rest where "on_any {21, 22, 23, 24} (trace t) = us @ ZSend 22 e 0 rc' # ZRecv 22 k x # rest"
    and "on_any {21, 22, 23, 24} ?es = us @ [ZSend 22 e 0 rc']"
    and w: "\<forall>es'. history {21, 22, 23, 24} 22 14 (trace t) (trace t') (?es @ es') \<longrightarrow> on_any {21, 22, 23, 24} es' = []"
    by (auto simp: sim_terminal_at)
  then have "on_any {21, 22, 23, 24} (trace t) = ZSend 22 ''/join go'' 0 rc # ZRecv 22 k x # rest"
    unfolding es(1) by (auto simp: Cons_eq_append_conv)
  moreover have "\<forall>es'. history {21, 22, 23, 24} 22 14 (trace t) (trace t')
      (ZSend 22 ''/join go'' 0 rc # ZRecv 14 8 ''/join go'' # es') \<longrightarrow> on_any {21, 22, 23, 24} es' = []"
    using w by simp
  ultimately show ?thesis by blast
qed

end
