(* ===== verification/Logger.thy ===== *)
theory Logger
  imports Common
begin

text \<open>
  \<open>utils/logger.c\<close> and \<open>.h\<close>: the log functions with levels and named parameters. The client does
  not call them. The levels are ordered as the constants of the enumeration are.
\<close>

section \<open>Model\<close>

datatype log_level = LOG_LEVEL_DEBUG | LOG_LEVEL_INFO | LOG_LEVEL_WARN | LOG_LEVEl_ERROR

fun level_number :: "log_level \<Rightarrow> nat" where
  "level_number LOG_LEVEL_DEBUG = 0"
| "level_number LOG_LEVEL_INFO = 1"
| "level_number LOG_LEVEL_WARN = 2"
| "level_number LOG_LEVEl_ERROR = 3"

instantiation log_level :: linorder
begin

definition less_eq_log_level :: "log_level \<Rightarrow> log_level \<Rightarrow> bool" where
  "less_eq_log_level a b \<longleftrightarrow> level_number a \<le> level_number b"

definition less_log_level :: "log_level \<Rightarrow> log_level \<Rightarrow> bool" where
  "less_log_level a b \<longleftrightarrow> level_number a < level_number b"

instance
proof
  fix a b :: log_level
  show "a \<le> b \<Longrightarrow> b \<le> a \<Longrightarrow> a = b"
    by (cases a; cases b) (simp_all add: less_eq_log_level_def)
qed (auto simp: less_eq_log_level_def less_log_level_def)

end

definition levels :: "string list" where
  "levels = [''DEBUG'', ''INFO'', ''WARN'', ''ERROR'']"

text \<open>
  A parameter: the tag, the name and the union. Reading the union by another member than the one
  stored is not modelled and counts as a fault. How a \<open>float\<close> is printed by \<open>%.2f\<close> is an argument.
\<close>

datatype log_param_type = TYPE_INT | TYPE_FLOAT | TYPE_STRING

datatype 'f log_value = Value_i int | Value_f 'f | Value_s string

record 'f log_param =
  lp_type :: log_param_type
  lp_name :: string
  lp_value :: "'f log_value"

definition L_INT :: "string \<Rightarrow> int \<Rightarrow> 'f log_param" where
  "L_INT n v = \<lparr>lp_type = TYPE_INT, lp_name = n, lp_value = Value_i v\<rparr>"
definition L_FLT :: "string \<Rightarrow> 'f \<Rightarrow> 'f log_param" where
  "L_FLT n v = \<lparr>lp_type = TYPE_FLOAT, lp_name = n, lp_value = Value_f v\<rparr>"
definition L_STR :: "string \<Rightarrow> string \<Rightarrow> 'f log_param" where
  "L_STR n v = \<lparr>lp_type = TYPE_STRING, lp_name = n, lp_value = Value_s v\<rparr>"

text \<open>\<open>message\<close> is the text that the format and the further arguments make.\<close>

definition logger_log_internal :: "log_level \<Rightarrow> string \<Rightarrow> int \<Rightarrow> string \<Rightarrow> ('w st, unit) prog" where
  "logger_log_internal level file line message =
     bnd (printf (''['' @ levels ! level_number level @ ''] ['' @ file @ '':'' @ show_int line @ ''] '')) (\<lambda>_.
     bnd (printf message) (\<lambda>_.
     printf [CHR 0x0A]))"

definition fprintf :: "bool \<Rightarrow> string \<Rightarrow> ('w st, unit) prog" where
  "fprintf to_stderr x = emit (if to_stderr then PrintedErr x else Printed x)"

definition print_value :: "('f \<Rightarrow> string) \<Rightarrow> bool \<Rightarrow> 'f log_param \<Rightarrow> ('w st, unit) prog" where
  "print_value fmt to_stderr p = (case (lp_type p, lp_value p) of
       (TYPE_INT, Value_i i) \<Rightarrow> fprintf to_stderr (show_int i)
     | (TYPE_FLOAT, Value_f f) \<Rightarrow> fprintf to_stderr (fmt f)
     | (TYPE_STRING, Value_s s) \<Rightarrow> fprintf to_stderr s
     | _ \<Rightarrow> fail OutOfBounds)"

text \<open>The loop takes \<open>count\<close> arguments; there being fewer is undefined.\<close>

fun print_params :: "('f \<Rightarrow> string) \<Rightarrow> bool \<Rightarrow> nat \<Rightarrow> 'f log_param list \<Rightarrow> ('w st, unit) prog" where
  "print_params fmt to_stderr 0 ps = ret ()"
| "print_params fmt to_stderr (Suc n) [] = fail OutOfBounds"
| "print_params fmt to_stderr (Suc n) (p # ps) =
     bnd (fprintf to_stderr (''{'' @ lp_name p @ '': '')) (\<lambda>_.
     bnd (print_value fmt to_stderr p) (\<lambda>_.
     bnd (fprintf to_stderr ''} '') (\<lambda>_.
     print_params fmt to_stderr n ps)))"

definition logger_log_internal_ext ::
    "('f \<Rightarrow> string) \<Rightarrow> log_level \<Rightarrow> string \<Rightarrow> int \<Rightarrow> string \<Rightarrow> int \<Rightarrow> 'f log_param list \<Rightarrow> ('w st, unit) prog" where
  "logger_log_internal_ext fmt level file line prefix count ps =
     (let to_stderr = level \<ge> LOG_LEVEL_WARN in
      bnd (fprintf to_stderr (''['' @ levels ! level_number level @ ''] ['' @ file @ '':'' @ show_int line @ ''] ''
        @ prefix @ '' -> '')) (\<lambda>_.
      bnd (print_params fmt to_stderr (nat count) ps) (\<lambda>_.
      fprintf to_stderr [CHR 0x0A])))"

section \<open>What the functions print\<close>

text \<open>The texts that events put on the standard output and on the standard error stream.\<close>

fun printed_on :: "bool \<Rightarrow> event \<Rightarrow> string" where
  "printed_on to_stderr (Printed x) = (if to_stderr then [] else x)"
| "printed_on to_stderr (PrintedErr x) = (if to_stderr then x else [])"
| "printed_on to_stderr _ = []"

definition output_on :: "bool \<Rightarrow> event list \<Rightarrow> string" where
  "output_on to_stderr es = concat (map (printed_on to_stderr) es)"

lemma output_on_simps [simp]:
  "output_on e [] = []" "output_on e (x # es) = printed_on e x @ output_on e es"
  "output_on e (es @ fs) = output_on e es @ output_on e fs"
  by (simp_all add: output_on_def)

text \<open>A parameter whose tag is that of its value, and its text.\<close>

fun well_tagged :: "'f log_param \<Rightarrow> bool" where
  "well_tagged p = (case lp_value p of Value_i _ \<Rightarrow> lp_type p = TYPE_INT | Value_f _ \<Rightarrow> lp_type p = TYPE_FLOAT
     | Value_s _ \<Rightarrow> lp_type p = TYPE_STRING)"

fun value_text :: "('f \<Rightarrow> string) \<Rightarrow> 'f log_value \<Rightarrow> string" where
  "value_text fmt (Value_i i) = show_int i"
| "value_text fmt (Value_f f) = fmt f"
| "value_text fmt (Value_s s) = s"

definition params_text :: "('f \<Rightarrow> string) \<Rightarrow> 'f log_param list \<Rightarrow> string" where
  "params_text fmt ps = concat (map (\<lambda>p. ''{'' @ lp_name p @ '': '' @ value_text fmt (lp_value p) @ ''} '') ps)"

definition prints :: "bool \<Rightarrow> string \<Rightarrow> 'w st \<Rightarrow> 'w st \<Rightarrow> bool" where
  "prints to_stderr x s t \<longleftrightarrow> heap t = heap s \<and> world t = world s \<and>
     (\<exists>es. trace t = trace s @ es \<and> output_on to_stderr es = x \<and> output_on (\<not> to_stderr) es = [])"

lemma prints_refl: "prints b [] s s"
  by (simp add: prints_def)

lemma prints_trans: "prints b x s t \<Longrightarrow> prints b y t u \<Longrightarrow> prints b (x @ y) s u"
  unfolding prints_def by (elim conjE exE, intro conjI exI, simp, simp, simp) auto

lemma wp_fprintf:
  assumes "prints b x s t" "\<And>u. prints b (x @ y) s u \<Longrightarrow> Q () u"
  shows "wp (fprintf b y) Q F t"
proof -
  have "prints b y t (t\<lparr>trace := trace t @ [if b then PrintedErr y else Printed y]\<rparr>)"
    by (simp add: prints_def)
  from prints_trans [OF assms(1) this] show ?thesis
    by (auto simp: fprintf_def wp_emit intro!: assms(2))
qed

lemma wp_print_value:
  assumes "well_tagged p" "prints b x s t" "\<And>u. prints b (x @ value_text fmt (lp_value p)) s u \<Longrightarrow> Q () u"
  shows "wp (print_value fmt b p) Q F t"
  using assms(1,3) by (cases "lp_value p") (auto simp: print_value_def intro!: wp_fprintf [OF assms(2)])

lemma wp_print_params:
  assumes "list_all well_tagged (take n ps)" "n \<le> length ps" "prints b x s t"
  shows "wp (print_params fmt b n ps) (\<lambda>_. prints b (x @ params_text fmt (take n ps)) s) F t"
  using assms
proof (induction n arbitrary: ps x t)
  case 0
  then show ?case by (simp add: wp_ret params_text_def)
next
  case (Suc n)
  then obtain p ps' where ps: "ps = p # ps'" by (cases ps) auto
  note IH = Suc.IH [of ps']
  show ?case
    unfolding ps print_params.simps wp_seq
    apply (rule wp_fprintf [OF Suc.prems(3)])
    apply (rule wp_print_value)
      apply (use Suc.prems(1) ps in simp)
     apply assumption
    apply (erule wp_fprintf)
    apply (rule wp_then [OF IH])
       apply (use Suc.prems ps in simp)
      apply (use Suc.prems ps in simp)
     apply assumption
    apply (simp add: params_text_def)
    done
qed

text \<open>
  C40. A line with parameters: on the standard error stream from the level of warnings on, on the
  standard output below, and on no other stream, one line with the level, the place, the text
  and the parameters in order. The count must not exceed the arguments, each tagged as its value.
\<close>

theorem logger_log_internal_ext_line:
  assumes "count \<le> int (length ps)" "list_all well_tagged (take (nat count) ps)"
  shows "wp (logger_log_internal_ext fmt level file line prefix count ps) (\<lambda>_ t. heap t = heap s \<and>
    (\<exists>es. trace t = trace s @ es \<and> output_on (LOG_LEVEL_WARN \<le> level) es =
       ''['' @ levels ! level_number level @ ''] ['' @ file @ '':'' @ show_int line @ ''] '' @ prefix @ '' -> '' @
       params_text fmt (take (nat count) ps) @ [CHR 0x0A] \<and>
     output_on (\<not> LOG_LEVEL_WARN \<le> level) es = [])) no_fault s"
  unfolding logger_log_internal_ext_def Let_def wp_seq
  apply (rule wp_fprintf [OF prints_refl [of _ s]])
  apply (rule wp_then [OF wp_print_params])
     apply (rule assms(2))
    apply (use assms(1) in simp)
   apply assumption
  apply (erule wp_fprintf)
  apply (simp add: prints_def)
  done

theorem logger_log_internal_ext_line_witness:
  "\<exists>t. logger_log_internal_ext show_nat LOG_LEVEL_WARN ''a.c'' 7 ''low'' 2
     [L_INT ''n'' 3, L_STR ''who'' ''ann''] \<lparr>world = (), heap = Map.empty, fresh = 0, trace = []\<rparr> = Inr ((), t)"
  using wp_runs [OF logger_log_internal_ext_line [where count = 2 and ps = "[L_INT ''n'' 3, L_STR ''who'' ''ann'']"
      and fmt = show_nat and s = "\<lparr>world = (), heap = Map.empty, fresh = 0, trace = []\<rparr>"]]
  by (fastforce simp: L_INT_def L_STR_def numeral_2_eq_2)

text \<open>The macros build well-tagged parameters.\<close>

lemma macros_well_tagged: "well_tagged (L_INT n v)" "well_tagged (L_FLT n f)" "well_tagged (L_STR n x)"
  by (simp_all add: L_INT_def L_FLT_def L_STR_def)

text \<open>The function without parameters does not look at the level: errors go to the standard output too.\<close>

lemma logger_log_internal_line:
  "wp (logger_log_internal level file line message) (\<lambda>_. prints False
     (''['' @ levels ! level_number level @ ''] ['' @ file @ '':'' @ show_int line @ ''] '' @ message @ [CHR 0x0A]) s) F s"
  by (simp add: logger_log_internal_def wp_simps prints_def)

end
