(* ===== verification/Spec2Isabelle.thy ===== *)
theory Spec2Isabelle
  imports Utils Dispatch Command_Properties Thread_Properties Receiver_Properties Setup Controller_Setup
    System Stranded Logger
begin

text \<open>
  A verification library for the C client of zmqchat, a chat system over ZeroMQ. A client process
  runs three threads. The UI thread (\<open>chat_client_ui.c\<close>) reads lines from the terminal; the
  controller thread (\<open>chat_client_controller.c\<close>) turns them into protobuf requests on a REQ
  socket; the receiver thread (\<open>chat_client_receiver.c\<close>) subscribes to the server's PUB socket and
  passes what it gets to the UI. They talk over inproc PAIR sockets and are told to stop over an
  inproc PUB socket. Below them lie wrappers of the libzmq sockets (\<open>zmq_sockets.c\<close>), multipart
  messages (\<open>zmq_messages.c\<close>) and small utilities (\<open>zmq_utils.c\<close>).

  \<^bold>\<open>How C is modelled.\<close> A piece of C code is a function from a state to a fault or to a value and
  the next state (\<open>Prelude.prog\<close>). A fault stands for undefined behaviour: a null or dead pointer,
  an access outside an array; or, for a loop without bound, the end of the fuel it was given.
  Error returns of the code are ordinary values. The state (\<open>Machine.st\<close>) holds a heap of typed
  blocks, the world, and the trace of the calls to libzmq and of the output. Everything that is
  not under \<open>src\<close> (libzmq, the generated protobuf-c code, the allocator, the clock, the terminal) is
  the argument \<open>E\<close>, a record of functions on the world (\<open>Machine.ext\<close>); what the properties assume
  of it is stated as named predicates: \<open>recv_law\<close> (\<open>zmq_recv\<close> stores at most the bytes of the
  buffer and returns the full length), \<open>fgets_law\<close>, \<open>scanf_law\<close> and \<open>pipe_law\<close> (the like for those
  calls), \<open>pack_law\<close> (the packed size is the length of the packed bytes; \<open>laws\<close> is this and
  \<open>recv_law\<close>), \<open>handle_law\<close> (a new socket, when there is one, is none of those in use). That an
  allocation, a socket, a context or a thread can be had is not assumed: where the code does not
  check, the faults of a theorem name what must be able to fail (\<open>malloc_law\<close>, \<open>always_sockets\<close>,
  \<open>always_context\<close>, \<open>always_created\<close>). Only the arguments of a thread and the round trip of
  messages are stated for an allocator that does not fail. \<open>Sample_World\<close> has an environment in which they
  hold; the witnesses run on it. Local arrays have unspecified contents
  until written, \<open>snprintf\<close> and \<open>strtok\<close> are modelled on bytes (\<open>CString\<close>), so truncation and
  missing terminators are visible.

  \<^bold>\<open>Theories.\<close>
  \<^item> \<open>Prelude\<close>: programs, weakest preconditions (\<open>wp\<close>), event loops (\<open>forever\<close>) and the contracts
    of loop bodies as locales (\<open>loop_body\<close>, \<open>loop_variant\<close>).
  \<^item> \<open>CString\<close>, \<open>Machine\<close>, \<open>Protocol\<close>: C strings and arrays; heap, world and calls; \<open>chat.proto\<close>.
  \<^item> \<open>Utils\<close>: \<open>zmq_utils.c\<close>; the queue is verified against a locale for first-in-first-out queues.
  \<^item> \<open>Messages\<close>: \<open>zmq_messages.c\<close>, with a representation predicate (\<open>msg_rep\<close>) that ties the
    blocks of a message to its list of frames.
  \<^item> \<open>Sockets\<close>: \<open>zmq_sockets.c\<close>, one definition for each macro, with the socket type as an argument.
  \<^item> \<open>Common\<close>, \<open>Dialogue\<close>, \<open>Progress\<close>: \<open>chat_client_common.c\<close>; the assertion \<open>seen\<close>
    (\<open>seen_off\<close>, with the sockets closed so far) with one rule for each operation; what never delays the end of a loop.
  \<^item> \<open>Controller\<close>: every function of \<open>chat_client_controller.c\<close>. \<open>Controller_Commands\<close>,
    \<open>Controller_Session\<close> and \<open>Controller_Thread\<close> hold the rules for the commands, for the loop and
    for the whole session; \<open>Command_Properties\<close>, \<open>Dispatch\<close> and \<open>Thread_Properties\<close> the properties.
  \<^item> \<open>Receiver\<close>: every function of \<open>chat_client_receiver.c\<close>; \<open>Receiver_Rules\<close>, \<open>Receiver_Thread\<close> and
    \<open>Receiver_Properties\<close> as for the controller. \<open>Ui\<close>, \<open>Ui_Rules\<close>, \<open>Ui_Thread\<close> and
    \<open>Ui_Properties\<close>: the same for \<open>chat_client_ui.c\<close>.
  \<^item> \<open>Setup_Rules\<close>, \<open>Setup\<close>, \<open>Controller_Setup\<close>: the thread routines from their first statement, with
    every early return of the set-up and the sockets opened and closed; the set-up gives the sessions the distinct sockets they
    assume, so that these theorems speak of whole threads.
  \<^item> \<open>Signal_Handler\<close>: \<open>signal_handler.h\<close>; \<open>Chat_Client\<close>: \<open>chat_client.c\<close> and \<open>main.c\<close>; \<open>Logger\<close>:
    \<open>logger.c\<close> and \<open>logger.h\<close>.
  \<^item> \<open>System\<close>, \<open>Stranded\<close>: what holds of the threads together.

  \<^bold>\<open>What is shown.\<close> The queue is first in, first out; messages own their blocks, receiving and
  sending neither leak nor touch foreign memory and are inverse to each other; sockets are
  destroyed once. For each of the three threads: what every handler does on every branch, a
  dialogue the loop keeps however long it runs, its end when the environment winds down, and what
  the whole thread leaves behind, from its first statement on. In particular the line of each command makes exactly the
  request it stands for (\<open>Dispatch\<close>), each published message is passed to the UI once and each
  instruction of the controller is followed by the receiver, and each line of the terminal is
  sent as it was typed. For the threads together: UI and controller run in lock step with at most
  one message between them, the first shutdown message makes every loop end, and after a
  command the controller leaves unanswered the UI does nothing more on any of its sockets. For the process: the order in which it
  starts, tells and joins its threads and releases what it holds, and the life of the signal
  pipe. Where the code can fault, the theorem says when: replies longer than the 4096-byte
  buffer, notifications, answers and topics longer than theirs, room lists longer than the text
  buffer, allocations and sockets that could not be had, the size of a full queue. What is said of a
  reply is said of what its bytes unpack to: \<open>exchange\<close> ties the result of a request to them.

  \<^bold>\<open>Fuel.\<close> The main loops of the threads take one unit of fuel for each iteration. Partial correctness holds for any
  fuel; the termination theorems show that the measure of the environment (\<open>winds_down\<close>) is enough.

  \<^bold>\<open>Not modelled.\<close> The Go server, a program of its own; of its wire format the model has the proto
  file. \<open>fflush\<close>, the buffer of \<open>stdin\<close> and the mutexes and threads of libc: each thread is a
  sequential program whose interleaving with the others is part of the world, or of the joint
  history in \<open>System\<close> and \<open>Stranded\<close>. Calls that do not return: a call of the model returns, so
  that a receive without a message is one whose event never comes in a joint history, and that
  \<open>zmq_ctx_destroy\<close> waits for sockets that are still open (those \<open>log_left_open\<close> speaks of) is not
  in the model of \<open>client_stop\<close>. The log macros of \<open>logger.h\<close>, which only add the file and the line.
\<close>

end
